(* ===== verification/Go_Prelude.thy ===== *)
theory Go_Prelude
  imports Main "HOL-Library.Sublist" "HOL-Library.Code_Target_Numeral"
begin

text \<open>
  What every component shares: Go's \<open>error\<close> values, the result type of a fallible function, and the
  generic lemmas on options, sums and lists that the component proofs use.

  A Go \<open>error\<close> is either nil (\<^theory_text>\<open>None\<close> where a function returns only an error) or a value of
  \<open>go_error\<close>. The sentinels compared with \<open>errors.Is\<close> are constructors of their own, since
  Go compares them by identity; \<open>errors.New\<close> is \<open>Error\<close>, \<open>fmt.Errorf("...: %w", err)\<close> is \<open>Wrap\<close>,
  and an error made by code outside the repository (driver, object store, network) is \<open>External\<close>.
\<close>

datatype go_error =
    ErrNotFound
  | ErrIdempotencyConflict
  | ErrTerminalValidation
  | ErrNoRows
  | Error string
  | Wrap string go_error
  | External string

type_synonym 'a result = "go_error + 'a"

text \<open>\<open>errors.Is\<close>: the error itself or one it wraps is the sentinel.\<close>

fun errors_is :: "go_error \<Rightarrow> go_error \<Rightarrow> bool" where
  "errors_is (Wrap m e) t = (Wrap m e = t \<or> errors_is e t)"
| "errors_is e t = (e = t)"

text \<open>\<open>err.Error()\<close>.\<close>

fun error_text :: "go_error \<Rightarrow> string" where
  "error_text ErrNotFound = ''evidence package not found''"
| "error_text ErrIdempotencyConflict = ''idempotency key conflicts with retained evidence metadata''"
| "error_text ErrTerminalValidation = ''evidence package already has a terminal validation decision''"
| "error_text ErrNoRows = ''no rows in result set''"
| "error_text (Error m) = m"
| "error_text (Wrap m e) = m @ '': '' @ error_text e"
| "error_text (External m) = m"

named_theorems guard_simps \<open>definitions of the guard chains of the Go code\<close>
named_theorems schema_simps \<open>definitions of the tables, constraints and triggers\<close>
named_theorems handler_simps \<open>definitions of the HTTP handlers\<close>

subsection \<open>Lists\<close>

lemma prefix_drop_eq: "prefix p s \<longleftrightarrow> take (length p) s = p"
  by (metis append_eq_conv_conj append_take_drop_id prefix_def)

lemma list_all_drop: "list_all P s \<Longrightarrow> list_all P (drop n s)"
  by (metis append_take_drop_id list_all_append)

lemma list_all_take: "list_all P s \<Longrightarrow> list_all P (take n s)"
  by (metis append_take_drop_id list_all_append)

lemma all_lt_Suc_conv: "(\<forall>i < Suc n. P i) \<longleftrightarrow> P 0 \<and> (\<forall>i < n. P (Suc i))"
  by (metis Suc_less_eq less_Suc_eq_0_disj)

lemma find_Some_conv: "find P xs = Some x \<Longrightarrow> P x \<and> x \<in> set xs"
  by (auto simp: find_Some_iff)

lemma find_None_conv: "find P xs = None \<longleftrightarrow> (\<forall>x \<in> set xs. \<not> P x)"
  by (auto simp: find_None_iff)

lemma find_unique:
  "x \<in> set xs \<Longrightarrow> P x \<Longrightarrow> (\<And>y. y \<in> set xs \<Longrightarrow> P y \<Longrightarrow> y = x) \<Longrightarrow> find P xs = Some x"
proof (induction xs)
  case (Cons z zs)
  show ?case
  proof (cases "P z")
    case True
    then show ?thesis using Cons.prems(3) [of z] by simp
  next
    case False
    then have "x \<in> set zs" using Cons.prems(1,2) by auto
    then have "find P zs = Some x"
      by (rule Cons.IH [OF _ Cons.prems(2)]) (rule Cons.prems(3) [OF list.set_intros(2)])
    then show ?thesis using False by simp
  qed
qed simp

subsection \<open>Options and sums\<close>

lemma isl_conv: "isl r \<longleftrightarrow> (\<exists>e. r = Inl e)"
  by (cases r) auto

lemma not_isl_conv: "\<not> isl r \<longleftrightarrow> (\<exists>v. r = Inr v)"
  by (cases r) auto

lemmas result_splits = sum.splits option.splits prod.splits if_splits
lemmas result_split = sum.split option.split prod.split if_split

end
