(* ===== verification/Go_Strings.thy ===== *)
theory Go_Strings
  imports Go_Prelude
begin

text \<open>
  Go strings are byte sequences: \<open>string\<close> (a list of \<open>char\<close>, each one byte), so \<open>length\<close> is Go's
  \<open>len\<close>. This theory models the functions of the packages \<open>strings\<close>, \<open>unicode/utf8\<close> and
  \<open>strconv\<close> that the repository calls, and the \<open>range\<close> loop over a string, which decodes UTF-8.
\<close>

abbreviation byte :: "char \<Rightarrow> nat" where
  "byte c \<equiv> of_char c"

subsection \<open>Prefixes, cutting, splitting\<close>

text \<open>\<open>strings.HasPrefix\<close>, \<open>strings.TrimPrefix\<close>, \<open>strings.CutPrefix\<close>.\<close>

definition has_prefix :: "string \<Rightarrow> string \<Rightarrow> bool" where
  "has_prefix s p \<longleftrightarrow> take (length p) s = p"

definition trim_prefix :: "string \<Rightarrow> string \<Rightarrow> string" where
  "trim_prefix s p = (if has_prefix s p then drop (length p) s else s)"

lemma has_prefix_append [simp]: "has_prefix (p @ s) p"
  by (simp add: has_prefix_def)

lemma trim_prefix_append [simp]: "trim_prefix (p @ s) p = s"
  by (simp add: trim_prefix_def)

lemma has_prefix_iff: "has_prefix s p \<longleftrightarrow> (\<exists>r. s = p @ r)"
  by (metis append_eq_conv_conj append_take_drop_id has_prefix_def)

lemma has_prefix_trim: "has_prefix s p \<Longrightarrow> s = p @ trim_prefix s p"
  by (auto simp: has_prefix_iff)

text \<open>\<open>strings.Cut\<close> at a one-byte separator: the text before it, and the text after it if it occurs.\<close>

fun cut_at :: "char \<Rightarrow> string \<Rightarrow> string \<times> string option" where
  "cut_at c [] = ([], None)"
| "cut_at c (x # xs) =
     (if x = c then ([], Some xs) else (case cut_at c xs of (a, b) \<Rightarrow> (x # a, b)))"

lemma cut_at_notin: "c \<notin> set s \<Longrightarrow> cut_at c s = (s, None)"
  by (induction s) auto

lemma cut_at_append: "c \<notin> set a \<Longrightarrow> cut_at c (a @ c # b) = (a, Some b)"
  by (induction a) auto

lemma cut_at_Some: "cut_at c s = (a, Some b) \<Longrightarrow> s = a @ c # b \<and> c \<notin> set a"
  by (induction s arbitrary: a) (auto split: if_splits prod.splits)

lemma cut_at_None: "cut_at c s = (a, None) \<Longrightarrow> s = a \<and> c \<notin> set a"
  by (induction s arbitrary: a) (auto split: if_splits prod.splits)

text \<open>\<open>strings.Split\<close> on a one-byte separator; the empty string splits into one empty part.\<close>

fun split_on :: "char \<Rightarrow> string \<Rightarrow> string list" where
  "split_on c [] = [[]]"
| "split_on c (x # xs) =
     (if x = c then [] # split_on c xs
      else (case split_on c xs of [] \<Rightarrow> [[x]] | p # ps \<Rightarrow> (x # p) # ps))"

lemma split_on_nonempty [simp]: "split_on c s \<noteq> []"
  by (induction s) (auto split: list.splits)

lemma split_on_notin: "c \<notin> set s \<Longrightarrow> split_on c s = [s]"
  by (induction s) auto

lemma split_on_append: "c \<notin> set a \<Longrightarrow> split_on c (a @ c # b) = a # split_on c b"
  by (induction a) auto

lemma split_on_parts: "p \<in> set (split_on c s) \<Longrightarrow> c \<notin> set p"
  by (induction s arbitrary: p) (force split: if_splits list.splits)+

text \<open>\<open>strings.Join\<close> undoes \<open>strings.Split\<close>.\<close>

fun join_with :: "string \<Rightarrow> string list \<Rightarrow> string" where
  "join_with sep [] = []"
| "join_with sep [p] = p"
| "join_with sep (p # q # ps) = p @ sep @ join_with sep (q # ps)"

lemma join_split_on: "join_with [c] (split_on c s) = s"
proof (induction s)
  case (Cons x xs)
  then show ?case
    by (cases "split_on c xs"; cases "tl (split_on c xs)") auto
qed simp

text \<open>\<open>strings.LastIndex\<close> at a one-byte separator, as the text before and after the last one.\<close>

definition cut_last :: "char \<Rightarrow> string \<Rightarrow> (string \<times> string) option" where
  "cut_last c s = (case cut_at c (rev s) of
     (_, None) \<Rightarrow> None
   | (b, Some a) \<Rightarrow> Some (rev a, rev b))"

lemma cut_last_notin: "c \<notin> set s \<Longrightarrow> cut_last c s = None"
  by (simp add: cut_last_def cut_at_notin)

lemma cut_last_None: "cut_last c s = None \<longleftrightarrow> c \<notin> set s"
proof
  assume "cut_last c s = None"
  then show "c \<notin> set s"
    using cut_at_None [of c "rev s"]
    by (auto simp: cut_last_def split: prod.splits option.splits)
qed (rule cut_last_notin)

text \<open>\<open>strings.ContainsAny\<close> for a set of bytes, \<open>strings.Contains\<close> for a substring.\<close>

definition contains_any :: "string \<Rightarrow> string \<Rightarrow> bool" where
  "contains_any s cs \<longleftrightarrow> list_ex (\<lambda>c. c \<in> set cs) s"

fun contains_sub :: "string \<Rightarrow> string \<Rightarrow> bool" where
  "contains_sub [] p = (p = [])"
| "contains_sub (x # xs) p = (has_prefix (x # xs) p \<or> contains_sub xs p)"

lemma contains_any_iff: "contains_any s cs \<longleftrightarrow> set s \<inter> set cs \<noteq> {}"
  by (auto simp: contains_any_def list_ex_iff)

lemma contains_sub_iff: "contains_sub s p \<longleftrightarrow> (\<exists>a b. s = a @ p @ b)"
proof (induction s)
  case (Cons x xs)
  show ?case
  proof
    assume "contains_sub (x # xs) p"
    then consider "has_prefix (x # xs) p" | "contains_sub xs p" by auto
    then show "\<exists>a b. x # xs = a @ p @ b"
    proof cases
      case 1
      then show ?thesis by (metis append_Nil has_prefix_iff)
    next
      case 2
      with Cons.IH obtain a b where "xs = a @ p @ b" by blast
      then have "x # xs = (x # a) @ p @ b" by simp
      then show ?thesis by blast
    qed
  next
    assume "\<exists>a b. x # xs = a @ p @ b"
    then obtain a b where *: "x # xs = a @ p @ b" by blast
    show "contains_sub (x # xs) p"
    proof (cases a)
      case Nil
      with * have "has_prefix (x # xs) p" by simp
      then show ?thesis by simp
    next
      case (Cons y ys)
      with * have "xs = ys @ p @ b" by simp
      with Cons.IH show ?thesis by auto
    qed
  qed
qed simp

subsection \<open>TrimSpace\<close>

text \<open>
  \<open>strings.TrimSpace\<close> removes the leading and trailing code points with the Unicode property
  White_Space. A string starts (ends) with such a code point exactly when it starts (ends) with its
  UTF-8 encoding, so the model strips these byte sequences.
\<close>

definition space_runes :: "string list" where
  "space_runes =
     [[CHR 0x20], [CHR 0x09], [CHR 0x0A], [CHR 0x0B], [CHR 0x0C], [CHR 0x0D],
      [CHR 0xC2, CHR 0x85], [CHR 0xC2, CHR 0xA0], [CHR 0xE1, CHR 0x9A, CHR 0x80],
      [CHR 0xE2, CHR 0x80, CHR 0x80], [CHR 0xE2, CHR 0x80, CHR 0x81],
      [CHR 0xE2, CHR 0x80, CHR 0x82], [CHR 0xE2, CHR 0x80, CHR 0x83],
      [CHR 0xE2, CHR 0x80, CHR 0x84], [CHR 0xE2, CHR 0x80, CHR 0x85],
      [CHR 0xE2, CHR 0x80, CHR 0x86], [CHR 0xE2, CHR 0x80, CHR 0x87],
      [CHR 0xE2, CHR 0x80, CHR 0x88], [CHR 0xE2, CHR 0x80, CHR 0x89],
      [CHR 0xE2, CHR 0x80, CHR 0x8A], [CHR 0xE2, CHR 0x80, CHR 0xA8],
      [CHR 0xE2, CHR 0x80, CHR 0xA9], [CHR 0xE2, CHR 0x80, CHR 0xAF],
      [CHR 0xE2, CHR 0x81, CHR 0x9F], [CHR 0xE3, CHR 0x80, CHR 0x80]]"

text \<open>\<open>trim_with encs\<close> strips the encodings \<open>encs\<close> from the front for as long as one matches.\<close>

function trim_with :: "string list \<Rightarrow> string \<Rightarrow> string" where
  "trim_with encs s =
     (case find (has_prefix s) encs of
        None \<Rightarrow> s
      | Some e \<Rightarrow> if e = [] \<or> s = [] then s else trim_with encs (drop (length e) s))"
  by pat_completeness auto
termination
  by (relation "measure (\<lambda>(encs, s). length s)") auto

declare trim_with.simps [simp del]

definition trim_space :: "string \<Rightarrow> string" where
  "trim_space s =
     rev (trim_with (map rev space_runes) (rev (trim_with space_runes s)))"

lemma trim_with_fixed: "find (has_prefix s) encs = None \<Longrightarrow> trim_with encs s = s"
  by (simp add: trim_with.simps [of encs s])

lemma trim_with_suffix: "\<exists>p. s = p @ trim_with encs s"
proof (induction encs s rule: trim_with.induct)
  case (1 encs s)
  show ?case
  proof (cases "find (has_prefix s) encs")
    case None
    then show ?thesis by (simp add: trim_with.simps [of encs s])
  next
    case (Some e)
    show ?thesis
    proof (cases "e = [] \<or> s = []")
      case True
      with Some show ?thesis by (auto simp: trim_with.simps [of encs s])
    next
      case False
      with 1 Some obtain p where "drop (length e) s = p @ trim_with encs (drop (length e) s)"
        by blast
      then have "s = (take (length e) s @ p) @ trim_with encs (drop (length e) s)"
        by (metis append.assoc append_take_drop_id)
      moreover from Some False have "trim_with encs s = trim_with encs (drop (length e) s)"
        by (simp add: trim_with.simps [of encs s])
      ultimately show ?thesis by metis
    qed
  qed
qed

lemma trim_with_idem: "[] \<notin> set encs \<Longrightarrow> find (has_prefix (trim_with encs s)) encs = None"
proof (induction encs s rule: trim_with.induct)
  case (1 encs s)
  show ?case
  proof (cases "find (has_prefix s) encs")
    case None
    then show ?thesis by (simp add: trim_with.simps [of encs s])
  next
    case (Some e)
    then have e: "has_prefix s e" "e \<in> set encs" by (auto dest: find_Some_conv)
    with "1.prems" have "e \<noteq> []" by auto
    with e have "s \<noteq> []" by (auto simp: has_prefix_def)
    with Some \<open>e \<noteq> []\<close> 1 show ?thesis by (auto simp: trim_with.simps [of encs s])
  qed
qed

lemma space_runes_nonempty [simp]: "[] \<notin> set space_runes" "[] \<notin> rev ` set space_runes"
  by (auto simp: space_runes_def)

lemma trim_with_length: "length (trim_with encs s) \<le> length s"
  by (metis trim_with_suffix length_append le_add2)

lemma trim_space_length: "length (trim_space s) \<le> length s"
  unfolding trim_space_def
  by (metis trim_with_length length_rev order_trans)

lemma trim_space_infix: "\<exists>p q. s = p @ trim_space s @ q"
proof -
  obtain p where p: "s = p @ trim_with space_runes s" using trim_with_suffix by blast
  obtain q where "rev (trim_with space_runes s)
      = q @ trim_with (map rev space_runes) (rev (trim_with space_runes s))"
    using trim_with_suffix by blast
  then have "trim_with space_runes s = trim_space s @ rev q"
    by (metis rev_append rev_rev_ident trim_space_def)
  with p show ?thesis by metis
qed

lemma trim_space_subset: "set (trim_space s) \<subseteq> set s"
  using trim_space_infix [of s] by (metis Un_iff set_append subsetI)

lemma has_prefix_take: "has_prefix t e \<Longrightarrow> t = take n s \<Longrightarrow> has_prefix s e"
  by (metis append.assoc append_take_drop_id has_prefix_iff)

text \<open>\<open>TrimSpace\<close> is idempotent: what the handlers trim twice is trimmed once.\<close>

lemma trim_space_idem [simp]: "trim_space (trim_space s) = trim_space s"
proof -
  let ?l = "trim_with space_runes s"
  let ?r = "trim_with (map rev space_runes) (rev ?l)"
  have l: "find (has_prefix ?l) space_runes = None"
    by (rule trim_with_idem) simp
  have r: "find (has_prefix ?r) (map rev space_runes) = None"
    by (rule trim_with_idem) simp
  obtain q where q: "rev ?l = q @ ?r" using trim_with_suffix by blast
  then have "?l = rev ?r @ rev q" by (metis rev_append rev_rev_ident)
  then have "has_prefix ?l e" if "has_prefix (rev ?r) e" for e
    using that by (metis append.assoc has_prefix_iff)
  with l have "find (has_prefix (rev ?r)) space_runes = None"
    by (auto simp: find_None_conv)
  then have "trim_with space_runes (rev ?r) = rev ?r" by (rule trim_with_fixed)
  moreover from r have "trim_with (map rev space_runes) ?r = ?r" by (rule trim_with_fixed)
  ultimately show ?thesis by (simp add: trim_space_def)
qed

text \<open>A string whose first and last bytes are printable ASCII is left alone.\<close>

definition graphic :: "char \<Rightarrow> bool" where
  "graphic c \<longleftrightarrow> 0x21 \<le> byte c \<and> byte c \<le> 0x7E"

lemma find_graphic_None:
  assumes "s \<noteq> [] \<Longrightarrow> graphic (hd s)"
  shows "find (has_prefix s) space_runes = None"
    and "find (has_prefix s) (map rev space_runes) = None"
proof -
  have "\<not> has_prefix s (c # e)" if "\<not> graphic c" for c e
    using assms that by (cases s) (auto simp: has_prefix_def)
  then show "find (has_prefix s) space_runes = None"
    and "find (has_prefix s) (map rev space_runes) = None"
    by (simp_all add: space_runes_def graphic_def)
qed

lemma trim_space_graphic:
  assumes "s \<noteq> [] \<Longrightarrow> graphic (hd s)" and "s \<noteq> [] \<Longrightarrow> graphic (last s)"
  shows "trim_space s = s"
proof -
  have "trim_with space_runes s = s"
    using assms(1) by (intro trim_with_fixed find_graphic_None)
  moreover have "trim_with (map rev space_runes) (rev s) = rev s"
    using assms(2) by (intro trim_with_fixed find_graphic_None) (simp add: hd_rev)
  ultimately show ?thesis by (simp add: trim_space_def)
qed

lemma trim_space_all_graphic: "list_all graphic s \<Longrightarrow> trim_space s = s"
  by (rule trim_space_graphic) (auto simp: list_all_iff)

lemma trim_space_Nil [simp]: "trim_space [] = []"
  by (rule trim_space_all_graphic) simp

text \<open>The strings that \<open>TrimSpace\<close> empties consist of spaces; a string with a graphic byte is not one.\<close>

lemma trim_with_keeps:
  assumes "\<And>e. e \<in> set encs \<Longrightarrow> c \<notin> set e" and "c \<in> set s"
  shows "c \<in> set (trim_with encs s)"
  using assms
proof (induction encs s rule: trim_with.induct)
  case (1 encs s)
  show ?case
  proof (cases "find (has_prefix s) encs")
    case None
    with 1 show ?thesis by (simp add: trim_with.simps [of encs s])
  next
    case (Some e)
    then have e: "has_prefix s e" "e \<in> set encs" by (auto dest: find_Some_conv)
    then have "s = e @ drop (length e) s"
      by (metis append_take_drop_id has_prefix_def)
    with "1.prems" e(2) have "c \<in> set (drop (length e) s)"
      by (metis Un_iff set_append)
    with Some 1 show ?thesis by (auto simp: trim_with.simps [of encs s])
  qed
qed

lemma trim_space_keeps_graphic:
  assumes "graphic c" and "c \<in> set s"
  shows "c \<in> set (trim_space s)"
proof -
  have no: "c \<notin> set e" if "e \<in> set space_runes" for e
    using that assms(1) by (auto simp: space_runes_def graphic_def)
  then have "c \<notin> set e" if "e \<in> set (map rev space_runes)" for e
    using that by auto
  moreover from no assms(2) have "c \<in> set (rev (trim_with space_runes s))"
    by (simp add: trim_with_keeps)
  ultimately have "c \<in> set (trim_with (map rev space_runes) (rev (trim_with space_runes s)))"
    by (rule trim_with_keeps)
  then show ?thesis by (simp add: trim_space_def)
qed

end
