(* ===== verification/Go_Encoding.thy ===== *)
theory Go_Encoding
  imports Go_Strings "HOL-Library.Monad_Syntax"
begin

text \<open>
  \<open>encoding/hex\<close> and the four variants of \<open>encoding/base64\<close> that the repository uses (standard and
  URL alphabet, padded and raw). Decoding follows Go: hex takes digits of either case, base64 skips
  CR and LF anywhere and does not check the trailing bits of a short group. The contract of an
  encoding is the locale \<open>byte_codec\<close>, interpreted for all five.
\<close>

subsection \<open>The contract of an encoding\<close>

locale byte_codec =
  fixes enc :: "string \<Rightarrow> string" and dec :: "string \<Rightarrow> string option"
  assumes dec_enc: "dec (enc b) = Some b"
    and enc_graphic: "list_all graphic (enc b)"
begin

lemma enc_eq_iff: "enc a = enc b \<longleftrightarrow> a = b"
  by (metis dec_enc option.inject)

lemma trim_enc: "trim_space (enc b) = enc b"
  by (rule trim_space_all_graphic) (rule enc_graphic)

lemma dec_trim_enc: "dec (trim_space (enc b)) = Some b"
  by (simp add: trim_enc dec_enc)

end

subsection \<open>Hexadecimal\<close>

definition hex_digit :: "nat \<Rightarrow> char" where
  "hex_digit n = (if n < 10 then char_of (0x30 + n) else char_of (0x61 + (n - 10)))"

definition hex_value :: "char \<Rightarrow> nat option" where
  "hex_value c =
     (let b = byte c in
      if 0x30 \<le> b \<and> b \<le> 0x39 then Some (b - 0x30)
      else if 0x61 \<le> b \<and> b \<le> 0x66 then Some (b - 0x61 + 10)
      else if 0x41 \<le> b \<and> b \<le> 0x46 then Some (b - 0x41 + 10)
      else None)"

fun hex_encode :: "string \<Rightarrow> string" where
  "hex_encode [] = []"
| "hex_encode (c # cs) = hex_digit (byte c div 16) # hex_digit (byte c mod 16) # hex_encode cs"

fun hex_decode :: "string \<Rightarrow> string option" where
  "hex_decode [] = Some []"
| "hex_decode [a] = None"
| "hex_decode (a # b # cs) =
     do { x \<leftarrow> hex_value a; y \<leftarrow> hex_value b; r \<leftarrow> hex_decode cs; Some (char_of (16 * x + y) # r) }"

definition lower_hex :: "char \<Rightarrow> bool" where
  "lower_hex c \<longleftrightarrow> (0x30 \<le> byte c \<and> byte c \<le> 0x39) \<or> (0x61 \<le> byte c \<and> byte c \<le> 0x66)"

lemma hex_digit_lower: "n < 16 \<Longrightarrow> lower_hex (hex_digit n)"
  by (auto simp: hex_digit_def lower_hex_def)

lemma hex_value_digit: "n < 16 \<Longrightarrow> hex_value (hex_digit n) = Some n"
  by (auto simp: hex_digit_def hex_value_def Let_def)

lemma hex_value_lt: "hex_value c = Some n \<Longrightarrow> n < 16"
  by (auto simp: hex_value_def Let_def split: if_splits)

lemma hex_digit_value: "lower_hex c \<Longrightarrow> \<exists>n < 16. hex_value c = Some n \<and> hex_digit n = c"
  by (auto simp: hex_digit_def hex_value_def lower_hex_def Let_def)

lemma byte_div_16: "byte c div 16 < 16"
  by (rule less_mult_imp_div_less) simp

lemma byte_div_4: "byte c div 4 < 64"
  by (rule less_mult_imp_div_less) simp

lemma byte_div_64: "byte c div 64 < 4"
  by (rule less_mult_imp_div_less) simp

lemmas byte_divs [simp] = byte_div_4 byte_div_16 byte_div_64
  div_less [OF byte_div_16] div_less [OF byte_div_64]
  mod_less [OF byte_div_16] mod_less [OF byte_div_64]

lemma hex_decode_encode [simp]: "hex_decode (hex_encode b) = Some b"
  by (induction b) (simp_all add: hex_value_digit)

lemma hex_encode_lower: "list_all lower_hex (hex_encode b)"
  by (induction b) (simp_all add: hex_digit_lower)

lemma hex_encode_length [simp]: "length (hex_encode b) = 2 * length b"
  by (induction b) simp_all

lemma hex_decode_length: "hex_decode s = Some b \<Longrightarrow> length s = 2 * length b"
  by (induction s arbitrary: b rule: hex_decode.induct)
     (auto split: Option.bind_splits)

lemma lower_hex_graphic: "lower_hex c \<Longrightarrow> graphic c"
  by (auto simp: lower_hex_def graphic_def)

text \<open>
  The digests the service accepts: \<open>s\<close> decodes and re-encodes to itself exactly when it has an even
  length and only lower-case digits.
\<close>

lemma hex_encode_decode:
  "list_all lower_hex s \<Longrightarrow> even (length s) \<Longrightarrow> \<exists>b. hex_decode s = Some b \<and> hex_encode b = s"
proof (induction s rule: hex_decode.induct)
  case (3 a b cs)
  then have "\<exists>r. hex_decode cs = Some r \<and> hex_encode r = cs"
    using hex_digit_value [of a] hex_digit_value [of b] by auto
  then obtain r where r: "hex_decode cs = Some r" "hex_encode r = cs" by blast
  obtain x where x: "x < 16" "hex_value a = Some x" "hex_digit x = a"
    using 3 hex_digit_value [of a] by auto
  obtain y where y: "y < 16" "hex_value b = Some y" "hex_digit y = b"
    using 3 hex_digit_value [of b] by auto
  from x(1) y(1) have "16 * x + y < 256" "(16 * x + y) div 16 = x" "(16 * x + y) mod 16 = y" by simp_all
  with r x y show ?case by simp
qed simp_all

lemma hex_lower_iff:
  "(\<exists>b. hex_decode s = Some b \<and> hex_encode b = s) \<longleftrightarrow> list_all lower_hex s \<and> even (length s)"
  by (metis dvd_triv_left hex_decode_length hex_encode_decode hex_encode_lower)

interpretation hex: byte_codec hex_encode hex_decode
proof unfold_locales
  fix b
  show "list_all graphic (hex_encode b)"
    using hex_encode_lower [of b] by (auto simp: list_all_iff lower_hex_graphic)
qed simp

subsection \<open>Base64\<close>

text \<open>The first flag selects the URL alphabet, the second padding.\<close>

definition b64_digit :: "bool \<Rightarrow> nat \<Rightarrow> char" where
  "b64_digit url n =
     (if n < 26 then char_of (0x41 + n)
      else if n < 52 then char_of (0x61 + (n - 26))
      else if n < 62 then char_of (0x30 + (n - 52))
      else if n = 62 then (if url then CHR ''-'' else CHR ''+'')
      else (if url then CHR ''_'' else CHR ''/''))"

definition b64_value :: "bool \<Rightarrow> char \<Rightarrow> nat option" where
  "b64_value url c =
     (let b = byte c in
      if 0x41 \<le> b \<and> b \<le> 0x5A then Some (b - 0x41)
      else if 0x61 \<le> b \<and> b \<le> 0x7A then Some (b - 0x61 + 26)
      else if 0x30 \<le> b \<and> b \<le> 0x39 then Some (b - 0x30 + 52)
      else if c = (if url then CHR ''-'' else CHR ''+'') then Some 62
      else if c = (if url then CHR ''_'' else CHR ''/'') then Some 63
      else None)"

abbreviation pad_char :: char where "pad_char \<equiv> CHR ''=''"

fun b64_encode :: "bool \<Rightarrow> bool \<Rightarrow> string \<Rightarrow> string" where
  "b64_encode u p [] = []"
| "b64_encode u p [a] =
     [b64_digit u (byte a div 4), b64_digit u (byte a mod 4 * 16)]
       @ (if p then [pad_char, pad_char] else [])"
| "b64_encode u p [a, b] =
     [b64_digit u (byte a div 4), b64_digit u (byte a mod 4 * 16 + byte b div 16),
      b64_digit u (byte b mod 16 * 4)] @ (if p then [pad_char] else [])"
| "b64_encode u p (a # b # c # r) =
     b64_digit u (byte a div 4) # b64_digit u (byte a mod 4 * 16 + byte b div 16)
       # b64_digit u (byte b mod 16 * 4 + byte c div 64) # b64_digit u (byte c mod 64)
       # b64_encode u p r"

definition b64_two :: "bool \<Rightarrow> char \<Rightarrow> char \<Rightarrow> string option" where
  "b64_two u a b =
     do { v0 \<leftarrow> b64_value u a; v1 \<leftarrow> b64_value u b; Some [char_of (v0 * 4 + v1 div 16)] }"

definition b64_three :: "bool \<Rightarrow> char \<Rightarrow> char \<Rightarrow> char \<Rightarrow> string option" where
  "b64_three u a b c =
     do { v0 \<leftarrow> b64_value u a; v1 \<leftarrow> b64_value u b; v2 \<leftarrow> b64_value u c;
          Some [char_of (v0 * 4 + v1 div 16), char_of (v1 mod 16 * 16 + v2 div 4)] }"

definition b64_four :: "bool \<Rightarrow> char \<Rightarrow> char \<Rightarrow> char \<Rightarrow> char \<Rightarrow> string option" where
  "b64_four u a b c d =
     do { v0 \<leftarrow> b64_value u a; v1 \<leftarrow> b64_value u b; v2 \<leftarrow> b64_value u c; v3 \<leftarrow> b64_value u d;
          Some [char_of (v0 * 4 + v1 div 16), char_of (v1 mod 16 * 16 + v2 div 4),
                char_of (v2 mod 4 * 64 + v3)] }"

text \<open>One group at a time; padding may only close the last group.\<close>

fun b64_groups :: "bool \<Rightarrow> bool \<Rightarrow> string \<Rightarrow> string option" where
  "b64_groups u p [] = Some []"
| "b64_groups u p [a] = None"
| "b64_groups u p [a, b] = (if p then None else b64_two u a b)"
| "b64_groups u p [a, b, c] = (if p then None else b64_three u a b c)"
| "b64_groups u p (a # b # c # d # r) =
     (if p \<and> c = pad_char then (if d = pad_char \<and> r = [] then b64_two u a b else None)
      else if p \<and> d = pad_char then (if r = [] then b64_three u a b c else None)
      else do { x \<leftarrow> b64_four u a b c d; y \<leftarrow> b64_groups u p r; Some (x @ y) })"

definition b64_decode :: "bool \<Rightarrow> bool \<Rightarrow> string \<Rightarrow> string option" where
  "b64_decode u p s = b64_groups u p (filter (\<lambda>c. c \<noteq> CHR 0x0A \<and> c \<noteq> CHR 0x0D) s)"

abbreviation raw_url_encode :: "string \<Rightarrow> string" where "raw_url_encode \<equiv> b64_encode True False"
abbreviation raw_url_decode :: "string \<Rightarrow> string option" where "raw_url_decode \<equiv> b64_decode True False"
abbreviation std_encode :: "string \<Rightarrow> string" where "std_encode \<equiv> b64_encode False True"
abbreviation std_decode :: "string \<Rightarrow> string option" where "std_decode \<equiv> b64_decode False True"

lemma b64_value_digit: "n < 64 \<Longrightarrow> b64_value u (b64_digit u n) = Some n"
  by (auto simp: b64_digit_def b64_value_def Let_def)

lemma b64_digit_graphic [simp]: "n < 64 \<Longrightarrow> graphic (b64_digit u n)"
  by (auto simp: b64_digit_def graphic_def)

lemma b64_value_pad: "b64_value u pad_char = None"
  by (simp add: b64_value_def)

lemma b64_digit_not_pad [simp]: "n < 64 \<Longrightarrow> b64_digit u n \<noteq> pad_char"
  using b64_value_digit [of n u] b64_value_pad [of u] by (metis option.distinct(1))

lemma b64_sextets:
  "byte a mod 4 * 16 + byte b div 16 < 64" "byte b mod 16 * 4 + byte c div 64 < 64"
proof -
  have "byte a mod 4 \<le> 3" "byte b mod 16 \<le> 15"
    by (simp_all add: less_Suc_eq_le [symmetric])
  then show "byte a mod 4 * 16 + byte b div 16 < 64" "byte b mod 16 * 4 + byte c div 64 < 64"
    using byte_div_16 [of b] byte_div_64 [of c] by linarith+
qed

lemma b64_encode_graphic: "list_all graphic (b64_encode u p b)"
  by (induction u p b rule: b64_encode.induct) (simp_all add: b64_sextets, simp_all add: graphic_def)

lemma b64_groups_encode: "b64_groups u p (b64_encode u p b) = Some b"
  by (induction u p b rule: b64_encode.induct)
     (simp_all add: b64_two_def b64_three_def b64_four_def b64_value_digit b64_sextets)

lemma b64_decode_encode [simp]: "b64_decode u p (b64_encode u p b) = Some b"
proof -
  have "filter (\<lambda>c. c \<noteq> CHR 0x0A \<and> c \<noteq> CHR 0x0D) (b64_encode u p b) = b64_encode u p b"
    using b64_encode_graphic [of u p b]
    by (auto simp: filter_id_conv list_all_iff graphic_def)
  then show ?thesis by (simp add: b64_decode_def b64_groups_encode)
qed

interpretation b64: byte_codec "b64_encode u p" "b64_decode u p" for u p
  by unfold_locales (simp_all add: b64_encode_graphic)

subsection \<open>An encoding under another decoder\<close>

text \<open>
  A text encoded one way is either refused by a decoder for another way, or decodes to the same
  bytes, or decodes to a different number of bytes: what makes trying the decoders in turn safe.
\<close>

lemma b64_value_other_digit:
  assumes "n < 64"
  shows "b64_value u (b64_digit v n) = Some m \<longleftrightarrow> m = n \<and> (u = v \<or> n < 62)"
proof (cases "u = v")
  case True
  then show ?thesis using b64_value_digit [OF assms, of u] by auto
next
  case False
  show ?thesis
  proof (cases "n < 62")
    case True
    then have "b64_digit v n = b64_digit u n" by (simp add: b64_digit_def)
    then show ?thesis using b64_value_digit [OF assms, of u] True by auto
  next
    case False
    with assms have "n = 62 \<or> n = 63" by linarith
    then show ?thesis using \<open>u \<noteq> v\<close> by (auto simp: b64_digit_def b64_value_def)
  qed
qed

lemma filter_newlines:
  "list_all graphic s \<Longrightarrow> filter (\<lambda>c. c \<noteq> CHR 0x0A \<and> c \<noteq> CHR 0x0D) s = s"
  by (auto simp: filter_id_conv list_all_iff graphic_def)

lemma b64_decode_graphic: "list_all graphic s \<Longrightarrow> b64_decode u p s = b64_groups u p s"
  by (simp add: b64_decode_def filter_newlines)

lemma b64_four_pad: "b64_four u a b c d = Some x \<Longrightarrow> pad_char \<notin> {a, b, c, d} \<and> length x = 3"
  by (auto simp: b64_four_def b64_value_pad bind_eq_Some_conv)

lemma b64_groups_pad: "b64_groups u False s = Some t \<Longrightarrow> pad_char \<notin> set s"
proof (induction u False s arbitrary: t rule: b64_groups.induct)
  case (5 u a b c d r)
  then obtain x y where x: "b64_four u a b c d = Some x" and y: "b64_groups u False r = Some y"
    by (auto simp: bind_eq_Some_conv)
  have "pad_char \<notin> set r" by (rule 5(1) [OF _ _ x y]) simp_all
  then show ?case using b64_four_pad [OF x] by simp
qed (auto simp: b64_two_def b64_three_def b64_value_pad bind_eq_Some_conv)

lemma b64_groups_other:
  "b64_groups u p (b64_encode v p b) = Some b' \<Longrightarrow> b' = b"
proof (induction v p b arbitrary: b' rule: b64_encode.induct)
  case (4 v p a b c r)
  then show ?case
    by (auto simp: b64_four_def b64_sextets b64_value_other_digit split: Option.bind_splits if_splits)
qed (auto simp: b64_two_def b64_three_def b64_sextets b64_value_other_digit
      split: Option.bind_splits if_splits)

lemma mod_4_Suc: "Suc (Suc (Suc (Suc n))) mod 4 = n mod 4"
  by presburger

lemma b64_groups_padded_length: "b64_groups u True s = Some b \<Longrightarrow> length s mod 4 = 0"
  by (induction u True s arbitrary: b rule: b64_groups.induct)
    (auto simp: mod_4_Suc bind_eq_Some_conv split: if_splits)

lemma b64_encode_length:
  "length (b64_encode u p b) = (if p then 4 * ((length b + 2) div 3) else (4 * length b + 2) div 3)"
proof (induction u p b rule: b64_encode.induct)
  case (4 u p a b c r)
  have "(4 * Suc (Suc (Suc k)) + 2) div 3 = (4 * k + 2) div 3 + 4"
    "(Suc (Suc (Suc k)) + 2) div 3 = Suc ((k + 2) div 3)" for k :: nat
    by presburger+
  then show ?case using 4 by (cases p) (simp_all only: b64_encode.simps list.size if_True if_False, presburger+)
qed auto

lemma b64_groups_length:
  "b64_groups u p s = Some t \<Longrightarrow> pad_char \<notin> set s \<Longrightarrow> length s mod 4 = 0 \<Longrightarrow>
     4 * length t = 3 * length s"
proof (induction u p s arbitrary: t rule: b64_groups.induct)
  case (5 u p a b c d r)
  then obtain x y where x: "b64_four u a b c d = Some x" and y: "b64_groups u p r = Some y" and t: "t = x @ y"
    by (auto simp: bind_eq_Some_conv)
  have "4 * length y = 3 * length r"
    using 5(3,4) by (intro 5(1) [OF _ _ x y]) (auto simp: mod_4_Suc)
  then show ?case using b64_four_pad [OF x] t by simp
qed auto

lemma b64_encode_no_dot: "CHR ''.'' \<notin> set (raw_url_encode b)"
proof -
  have "b64_value True CHR ''.'' = None" by (simp add: b64_value_def)
  then have "n < 64 \<Longrightarrow> CHR ''.'' \<noteq> b64_digit True n" for n
    using b64_value_digit [of n True] by (metis option.distinct(1))
  then show ?thesis
    by (induction True False b rule: b64_encode.induct) (simp_all add: b64_sextets)
qed

lemma b64_padded: "length b mod 3 \<noteq> 0 \<Longrightarrow> pad_char \<in> set (b64_encode u True b)"
proof (induction u True b rule: b64_encode.induct)
  case (4 u a b c r)
  have "Suc (Suc (Suc (length r))) mod 3 = length r mod 3" by presburger
  then show ?case using 4 by simp
qed simp_all

end
