(* ===== verification/Go_Runes.thy ===== *)
theory Go_Runes
  imports Go_Strings
begin

text \<open>
  The \<open>range\<close> loop over a string (UTF-8 decoding with U+FFFD for an invalid byte), ASCII case
  folding for \<open>strings.EqualFold\<close> and \<open>strings.ToLower\<close>, and \<open>strconv.Atoi\<close> with the 64-bit range
  of Go's \<open>int\<close>.
\<close>

subsection \<open>Decoding one rune\<close>

definition rune_error :: nat where
  "rune_error = 0xFFFD"

definition is_cont :: "nat \<Rightarrow> bool" where
  "is_cont b \<longleftrightarrow> 0x80 \<le> b \<and> b \<le> 0xBF"

text \<open>The bytes allowed after a three- or four-byte lead: no overlong form, no surrogate, at most U+10FFFF.\<close>

definition second_ok :: "nat \<Rightarrow> nat \<Rightarrow> bool" where
  "second_ok b0 b1 \<longleftrightarrow>
     (if b0 = 0xE0 then 0xA0 \<le> b1 \<and> b1 \<le> 0xBF
      else if b0 = 0xED then 0x80 \<le> b1 \<and> b1 \<le> 0x9F
      else if b0 = 0xF0 then 0x90 \<le> b1 \<and> b1 \<le> 0xBF
      else if b0 = 0xF4 then 0x80 \<le> b1 \<and> b1 \<le> 0x8F
      else is_cont b1)"

text \<open>The code points of the two-, three- and four-byte forms.\<close>

definition rune2 :: "nat \<Rightarrow> nat \<Rightarrow> nat" where
  "rune2 b0 b1 = (b0 - 0xC0) * 64 + (b1 - 0x80)"

definition rune3 :: "nat \<Rightarrow> nat \<Rightarrow> nat \<Rightarrow> nat" where
  "rune3 b0 b1 b2 = (b0 - 0xE0) * 4096 + (b1 - 0x80) * 64 + (b2 - 0x80)"

definition rune4 :: "nat \<Rightarrow> nat \<Rightarrow> nat \<Rightarrow> nat \<Rightarrow> nat" where
  "rune4 b0 b1 b2 b3 =
     (b0 - 0xF0) * 262144 + (b1 - 0x80) * 4096 + (b2 - 0x80) * 64 + (b3 - 0x80)"

lemma rune2_high: "0xC2 \<le> b0 \<Longrightarrow> 0x80 \<le> rune2 b0 b1"
  by (simp add: rune2_def)

lemma rune3_high:
  assumes "0xE0 \<le> b0" and "second_ok b0 b1"
  shows "0x80 \<le> rune3 b0 b1 b2"
proof (cases "b0 = 0xE0")
  case True
  with assms have "0xA0 \<le> b1" by (simp add: second_ok_def)
  then show ?thesis by (simp add: rune3_def)
next
  case False
  with assms have "1 \<le> b0 - 0xE0" by simp
  then show ?thesis by (simp add: rune3_def)
qed

lemma rune4_high:
  assumes "0xF0 \<le> b0" and "second_ok b0 b1"
  shows "0x80 \<le> rune4 b0 b1 b2 b3"
proof (cases "b0 = 0xF0")
  case True
  with assms have "0x90 \<le> b1" by (simp add: second_ok_def)
  then show ?thesis by (simp add: rune4_def)
next
  case False
  with assms have "1 \<le> b0 - 0xF0" by simp
  then show ?thesis by (simp add: rune4_def)
qed

text \<open>\<open>utf8.DecodeRuneInString\<close>: the code point and the number of bytes it takes.\<close>

fun decode_rune :: "string \<Rightarrow> nat \<times> nat" where
  "decode_rune [] = (rune_error, 0)"
| "decode_rune (c0 # s) =
     (let b0 = byte c0; bad = (rune_error, 1) in
      if b0 < 0x80 then (b0, 1)
      else if b0 < 0xC2 then bad
      else if b0 < 0xE0 then
        (case s of
           c1 # _ \<Rightarrow> if is_cont (byte c1) then (rune2 b0 (byte c1), 2) else bad
         | _ \<Rightarrow> bad)
      else if b0 < 0xF0 then
        (case s of
           c1 # c2 # _ \<Rightarrow>
             if second_ok b0 (byte c1) \<and> is_cont (byte c2)
             then (rune3 b0 (byte c1) (byte c2), 3) else bad
         | _ \<Rightarrow> bad)
      else if b0 < 0xF5 then
        (case s of
           c1 # c2 # c3 # _ \<Rightarrow>
             if second_ok b0 (byte c1) \<and> is_cont (byte c2) \<and> is_cont (byte c3)
             then (rune4 b0 (byte c1) (byte c2) (byte c3), 4) else bad
         | _ \<Rightarrow> bad)
      else bad)"

declare decode_rune.simps(2) [simp del]

lemma decode_rune_ascii: "byte c < 0x80 \<Longrightarrow> decode_rune (c # s) = (byte c, 1)"
  by (simp add: decode_rune.simps(2))

lemma decode_rune_width: "0 < snd (decode_rune (c # s))"
  by (simp add: decode_rune.simps(2) Let_def split: list.split)

lemma decode_rune_high:
  assumes "\<not> byte c < 0x80"
  shows "0x80 \<le> fst (decode_rune (c # s))"
  using assms
  by (auto simp: decode_rune.simps(2) Let_def rune_error_def
      intro: rune2_high rune3_high rune4_high split: list.split)

subsection \<open>The range loop\<close>

text \<open>
  \<open>for index, character := range value\<close>: the pairs of byte index and rune, in order.
\<close>

function runes :: "nat \<Rightarrow> string \<Rightarrow> (nat \<times> nat) list" where
  "runes i [] = []"
| "runes i (c # s) =
     (let (r, w) = decode_rune (c # s) in (i, r) # runes (i + w) (drop w (c # s)))"
  by pat_completeness auto
termination
proof (relation "measure (\<lambda>(i, s). length s)")
  fix i c s x r w
  assume "x = decode_rune (c # s)" and "(r, w) = x"
  then have "0 < w" using decode_rune_width [of c s] by (metis snd_conv)
  then show "((i + w, drop w (c # s)), i, c # s) \<in> measure (\<lambda>(i, s). length s)"
    by simp
qed simp

declare runes.simps(2) [simp del]

text \<open>
  A loop that accepts only ASCII runes, and may look at the byte index, is a check of each byte at
  its own position: a non-ASCII byte starts a rune of at least U+0080, which the loop refuses.
\<close>

lemma runes_ascii_only:
  assumes ascii: "\<And>i r. P i r \<Longrightarrow> r < 0x80"
  shows "list_all (\<lambda>(i, r). P i r) (runes i s) \<longleftrightarrow> (\<forall>k < length s. P (i + k) (byte (s ! k)))"
proof (induction i s rule: runes.induct)
  case (1 i)
  show ?case by simp
next
  case (2 i c s)
  show ?case
  proof (cases "byte c < 0x80")
    case True
    then have d: "decode_rune (c # s) = (byte c, 1)" by (rule decode_rune_ascii)
    have "list_all (\<lambda>(i, r). P i r) (runes (i + 1) s)
        \<longleftrightarrow> (\<forall>k < length s. P (i + 1 + k) (byte (s ! k)))"
      using 2 [OF d [symmetric] refl] by simp
    with d show ?thesis
      by (simp add: runes.simps(2) all_lt_Suc_conv)
  next
    case False
    obtain r w where d: "decode_rune (c # s) = (r, w)" by force
    with False have "\<not> r < 0x80" using decode_rune_high [of c s] by simp
    then have "\<not> P i r" and "\<not> P i (byte c)" using ascii False by blast+
    with d show ?thesis by (auto simp: runes.simps(2))
  qed
qed

lemma runes_ascii_list_all:
  assumes "\<And>r. P r \<Longrightarrow> r < 0x80"
  shows "list_all (\<lambda>(i, r). P r) (runes i s) \<longleftrightarrow> list_all (\<lambda>c. P (byte c)) s"
  using runes_ascii_only [of "\<lambda>i r. P r" i s] assms by (auto simp: list_all_length)

subsection \<open>Case folding\<close>

definition lower_char :: "char \<Rightarrow> char" where
  "lower_char c = (if 0x41 \<le> byte c \<and> byte c \<le> 0x5A then char_of (byte c + 32) else c)"

text \<open>
  \<open>strings.EqualFold(s, t)\<close> for a constant \<open>t\<close> of ASCII letters without K and S: no other letter has
  a non-ASCII character in its simple folding orbit, so the comparison is ASCII case folding.
\<close>

definition equal_fold :: "string \<Rightarrow> string \<Rightarrow> bool" where
  "equal_fold s t \<longleftrightarrow> map lower_char s = map lower_char t"

subsection \<open>strconv.Atoi\<close>

definition is_digit :: "char \<Rightarrow> bool" where
  "is_digit c \<longleftrightarrow> 0x30 \<le> byte c \<and> byte c \<le> 0x39"

fun digits_value :: "nat \<Rightarrow> string \<Rightarrow> nat option" where
  "digits_value n [] = Some n"
| "digits_value n (c # cs) =
     (if is_digit c then digits_value (10 * n + (byte c - 0x30)) cs else None)"

definition max_int64 :: int where "max_int64 = 9223372036854775807"
definition min_int64 :: int where "min_int64 = - 9223372036854775808"

text \<open>An optional sign, at least one decimal digit, nothing else, within the range of \<open>int64\<close>.\<close>

definition atoi :: "string \<Rightarrow> int option" where
  "atoi s =
     (let neg = has_prefix s ''-''; t = (if neg \<or> has_prefix s ''+'' then tl s else s) in
      if t = [] then None
      else case digits_value 0 t of
             None \<Rightarrow> None
           | Some n \<Rightarrow>
               (let v = (if neg then - int n else int n) in
                if min_int64 \<le> v \<and> v \<le> max_int64 then Some v else None))"

lemma atoi_range: "atoi s = Some v \<Longrightarrow> min_int64 \<le> v \<and> v \<le> max_int64"
  by (auto simp: atoi_def Let_def split: if_splits option.splits)

text \<open>Rendering a natural number in decimal, and reading it back.\<close>

fun decimal :: "nat \<Rightarrow> string" where
  "decimal n = (if n < 10 then [char_of (0x30 + n)] else decimal (n div 10) @ [char_of (0x30 + n mod 10)])"

declare decimal.simps [simp del]

lemma digits_value_append:
  "digits_value n (a @ b) = (case digits_value n a of None \<Rightarrow> None | Some m \<Rightarrow> digits_value m b)"
  by (induction a arbitrary: n) auto

lemma digit_char [simp]: "n < 10 \<Longrightarrow> is_digit (char_of (0x30 + n)) \<and> byte (char_of (0x30 + n)) = 0x30 + n"
  by (simp add: is_digit_def)

lemma digits_value_decimal: "digits_value 0 (decimal n) = Some n"
proof (induction n rule: decimal.induct)
  case (1 n)
  show ?case
  proof (cases "n < 10")
    case True
    then show ?thesis by (simp add: decimal.simps [of n])
  next
    case False
    with 1 have "digits_value 0 (decimal (n div 10)) = Some (n div 10)" by simp
    with False show ?thesis
      by (simp add: decimal.simps [of n] digits_value_append)
  qed
qed

lemma decimal_digits: "list_all is_digit (decimal n)"
proof (induction n rule: decimal.induct)
  case (1 n)
  then show ?case by (cases "n < 10") (simp_all add: decimal.simps [of n])
qed

lemma decimal_nonempty [simp]: "decimal n \<noteq> []"
  by (simp add: decimal.simps [of n])

lemma atoi_decimal:
  assumes "int n \<le> max_int64"
  shows "atoi (decimal n) = Some (int n)"
proof -
  obtain c cs where d: "decimal n = c # cs" by (cases "decimal n") simp_all
  then have "is_digit c" using decimal_digits [of n] by simp
  then have "\<not> has_prefix (decimal n) ''-''" and "\<not> has_prefix (decimal n) ''+''"
    by (auto simp: d has_prefix_def is_digit_def)
  then show ?thesis
    using assms digits_value_decimal [of n] by (simp add: atoi_def min_int64_def)
qed

end
