(* ===== verification/Go_Url.thy ===== *)
theory Go_Url
  imports Go_Encoding Go_Runes
begin

text \<open>
  \<open>net/url\<close> as the repository uses it: \<open>url.Parse\<close> and \<open>url.ParseRequestURI\<close>, with the parts of
  the result that the callers look at. A bracketed IP literal in the host is parsed by the function
  \<open>ipl\<close>, a parameter: its rules (zones, which addresses are admitted) differ between Go releases and
  no caller depends on them.
\<close>

record url =
  u_scheme :: string
  u_user :: bool          \<comment> \<open>\<open>User != nil\<close>\<close>
  u_host :: string
  u_path :: string
  u_raw_query :: string
  u_fragment :: string

definition empty_url :: url where
  "empty_url = \<lparr>u_scheme = [], u_user = False, u_host = [], u_path = [], u_raw_query = [], u_fragment = []\<rparr>"

definition is_alpha :: "char \<Rightarrow> bool" where
  "is_alpha c \<longleftrightarrow> (0x41 \<le> byte c \<and> byte c \<le> 0x5A) \<or> (0x61 \<le> byte c \<and> byte c \<le> 0x7A)"

text \<open>\<open>stringContainsCTLByte\<close>.\<close>

definition has_ctl :: "string \<Rightarrow> bool" where
  "has_ctl s \<longleftrightarrow> list_ex (\<lambda>c. byte c < 0x20 \<or> byte c = 0x7F) s"

text \<open>
  \<open>getScheme\<close>: \<open>None\<close> is the error "missing protocol scheme"; otherwise the scheme and the rest. The
  flag says whether the current byte is the first one, \<open>acc\<close> holds the bytes read so far in reverse.
\<close>

fun get_scheme_from :: "string \<Rightarrow> string \<Rightarrow> string \<Rightarrow> (string \<times> string) option" where
  "get_scheme_from raw acc [] = Some ([], raw)"
| "get_scheme_from raw acc (c # cs) =
     (if is_alpha c then get_scheme_from raw (c # acc) cs
      else if is_digit c \<or> c \<in> {CHR ''+'', CHR ''-'', CHR ''.''} then
        (if acc = [] then Some ([], raw) else get_scheme_from raw (c # acc) cs)
      else if c = CHR '':'' then (if acc = [] then None else Some (rev acc, cs))
      else Some ([], raw))"

definition get_scheme :: "string \<Rightarrow> (string \<times> string) option" where
  "get_scheme raw = get_scheme_from raw [] raw"

text \<open>
  \<open>unescape\<close> for a path, for the user information (both only decode \<open>%XX\<close>) and for a host, where
  an escape may only encode a non-ASCII byte or the percent sign and a bare ASCII byte must not need
  escaping.
\<close>

definition host_byte :: "char \<Rightarrow> bool" where
  "host_byte c \<longleftrightarrow> is_alpha c \<or> is_digit c \<or> 0x80 \<le> byte c
     \<or> c \<in> set ''!$&()*+,;=:[]<>-_.~'' \<or> c = CHR 0x27 \<or> c = CHR 0x22"

fun unescape :: "bool \<Rightarrow> string \<Rightarrow> string option" where
  "unescape host [] = Some []"
| "unescape host (c # s) =
     (if c = CHR ''%'' then
        (case s of
           a # b # r \<Rightarrow>
             do { x \<leftarrow> hex_value a; y \<leftarrow> hex_value b;
                  if host \<and> x < 8 \<and> \<not> (a = CHR ''2'' \<and> b = CHR ''5'') then None
                  else do { t \<leftarrow> unescape host r; Some (char_of (16 * x + y) # t) } }
         | _ \<Rightarrow> None)
      else if host \<and> \<not> host_byte c then None
      else do { t \<leftarrow> unescape host s; Some (c # t) })"

text \<open>\<open>validOptionalPort\<close>.\<close>

definition valid_optional_port :: "string \<Rightarrow> bool" where
  "valid_optional_port p \<longleftrightarrow> (case p of [] \<Rightarrow> True | c # ds \<Rightarrow> c = CHR '':'' \<and> list_all is_digit ds)"

definition parse_host :: "(string \<Rightarrow> string option) \<Rightarrow> string \<Rightarrow> string option" where
  "parse_host ipl h =
     (if CHR ''['' \<in> set h then ipl h
      else case cut_last CHR '':'' h of
             None \<Rightarrow> unescape True h
           | Some (_, port) \<Rightarrow>
               if valid_optional_port (CHR '':'' # port) then unescape True h else None)"

definition valid_userinfo :: "string \<Rightarrow> bool" where
  "valid_userinfo u \<longleftrightarrow>
     list_all (\<lambda>(i, r). (0x41 \<le> r \<and> r \<le> 0x5A) \<or> (0x61 \<le> r \<and> r \<le> 0x7A) \<or> (0x30 \<le> r \<and> r \<le> 0x39)
        \<or> r \<in> {0x2D, 0x2E, 0x5F, 0x3A, 0x7E, 0x21, 0x24, 0x26, 0x27, 0x28, 0x29, 0x2A, 0x2B, 0x2C,
              0x3B, 0x3D, 0x25, 0x40})
       (runes 0 u)"

text \<open>\<open>parseAuthority\<close>: whether there is user information, and the host.\<close>

definition parse_authority :: "(string \<Rightarrow> string option) \<Rightarrow> string \<Rightarrow> (bool \<times> string) option" where
  "parse_authority ipl a =
     (case cut_last CHR ''@'' a of
        None \<Rightarrow> map_option (\<lambda>h. (False, h)) (parse_host ipl a)
      | Some (info, h) \<Rightarrow>
          do { host \<leftarrow> parse_host ipl h;
               if \<not> valid_userinfo info then None
               else case cut_at CHR '':'' info of
                      (name, None) \<Rightarrow> do { _ \<leftarrow> unescape False name; Some (True, host) }
                    | (name, Some pw) \<Rightarrow>
                        do { _ \<leftarrow> unescape False name; _ \<leftarrow> unescape False pw; Some (True, host) } })"

text \<open>
  \<open>parse\<close> after the scheme and the query have been cut off: opaque forms, the authority, the path.
\<close>

definition parse_rest :: "(string \<Rightarrow> string option) \<Rightarrow> bool \<Rightarrow> url \<Rightarrow> string \<Rightarrow> url option" where
  "parse_rest ipl via u rest =
     (if \<not> has_prefix rest ''/'' \<and> u_scheme u \<noteq> [] then Some u
      else if \<not> has_prefix rest ''/'' \<and> via then None
      else if \<not> has_prefix rest ''/'' \<and> CHR '':'' \<in> set (fst (cut_at CHR ''/'' rest)) then None
      else if (u_scheme u \<noteq> [] \<or> (\<not> via \<and> \<not> has_prefix rest ''///'')) \<and> has_prefix rest ''//'' then
        (let (a, p) = cut_at CHR ''/'' (drop 2 rest);
             path = (case p of None \<Rightarrow> [] | Some t \<Rightarrow> CHR ''/'' # t) in
         do { (usr, h) \<leftarrow> parse_authority ipl a;
              pth \<leftarrow> unescape False path;
              Some (u\<lparr>u_user := usr, u_host := h, u_path := pth\<rparr>) })
      else do { pth \<leftarrow> unescape False rest; Some (u\<lparr>u_path := pth\<rparr>) })"

definition parse_common :: "(string \<Rightarrow> string option) \<Rightarrow> bool \<Rightarrow> string \<Rightarrow> url option" where
  "parse_common ipl via raw =
     (if has_ctl raw then None
      else if raw = [] \<and> via then None
      else if raw = ''*'' then Some (empty_url\<lparr>u_path := ''*''\<rparr>)
      else case get_scheme raw of
             None \<Rightarrow> None
           | Some (scheme, rest) \<Rightarrow>
               (let (r, q) = cut_at CHR ''?'' rest;
                    query = (case q of None \<Rightarrow> [] | Some t \<Rightarrow> t) in
                parse_rest ipl via
                  (empty_url\<lparr>u_scheme := map lower_char scheme, u_raw_query := query\<rparr>) r))"

text \<open>
  \<open>url.ParseRequestURI\<close> takes the text as it stands: a \<open>#\<close> is an ordinary byte of the path.
  \<open>url.Parse\<close> first cuts the fragment off.
\<close>

definition parse_request_uri :: "(string \<Rightarrow> string option) \<Rightarrow> string \<Rightarrow> url option" where
  "parse_request_uri ipl raw = parse_common ipl True raw"

definition url_parse :: "(string \<Rightarrow> string option) \<Rightarrow> string \<Rightarrow> url option" where
  "url_parse ipl raw =
     (case cut_at CHR ''#'' raw of
        (u, frag) \<Rightarrow>
          do { p \<leftarrow> parse_common ipl False u;
               case frag of
                 None \<Rightarrow> Some p
               | Some f \<Rightarrow> do { t \<leftarrow> unescape False f; Some (p\<lparr>u_fragment := t\<rparr>) } })"

subsection \<open>Facts the callers use\<close>

text \<open>The fragment of a \<open>ParseRequestURI\<close> result is always empty.\<close>

lemma parse_rest_fragment: "parse_rest ipl via u r = Some p \<Longrightarrow> u_fragment p = u_fragment u"
  by (auto simp: parse_rest_def Let_def split: if_splits prod.splits Option.bind_splits)

lemma parse_request_uri_fragment: "parse_request_uri ipl raw = Some p \<Longrightarrow> u_fragment p = []"
  by (auto simp: parse_request_uri_def parse_common_def empty_url_def Let_def
      split: if_splits option.splits prod.splits dest!: parse_rest_fragment)

text \<open>Text that is plain in a path and in a host: letters, digits, dots, hyphens, underscores.\<close>

definition plain :: "char \<Rightarrow> bool" where
  "plain c \<longleftrightarrow> is_alpha c \<or> is_digit c \<or> c \<in> {CHR ''.'', CHR ''-'', CHR ''_''}"

lemma plain_graphic: "plain c \<Longrightarrow> graphic c"
  by (auto simp: plain_def is_alpha_def is_digit_def graphic_def)

lemma plain_host_byte: "plain c \<Longrightarrow> host_byte c"
  by (auto simp: plain_def host_byte_def)

lemma plain_not:
  "plain c \<Longrightarrow> c \<noteq> CHR ''/'' \<and> c \<noteq> CHR ''%'' \<and> c \<noteq> CHR ''@'' \<and> c \<noteq> CHR '':'' \<and> c \<noteq> CHR ''?''
     \<and> c \<noteq> CHR ''#'' \<and> c \<noteq> CHR ''[''"
  by (auto simp: plain_def is_alpha_def is_digit_def)

lemma unescape_path: "CHR ''%'' \<notin> set s \<Longrightarrow> unescape False s = Some s"
  by (induction s) auto

lemma unescape_plain_host: "list_all plain s \<Longrightarrow> unescape True s = Some s"
  by (induction s) (auto dest: plain_not plain_host_byte)

lemma list_all_plain_notin:
  "list_all plain s \<Longrightarrow> \<not> plain c \<Longrightarrow> c \<notin> set s"
  by (auto simp: list_all_iff)

lemma parse_authority_plain:
  assumes "list_all plain h"
  shows "parse_authority ipl h = Some (False, h)"
proof -
  have "CHR ''@'' \<notin> set h" "CHR '':'' \<notin> set h" "CHR ''['' \<notin> set h"
    using assms by (auto simp: list_all_iff dest: plain_not)
  then show ?thesis
    using assms by (simp add: parse_authority_def parse_host_def cut_last_notin unescape_plain_host)
qed

text \<open>A location of the form \<open>s3://bucket/path\<close> with plain bucket name and a path without \<open>%\<close>, \<open>?\<close> or \<open>#\<close>.\<close>

lemma get_scheme_s3: "get_scheme (''s3:'' @ r) = Some (''s3'', r)"
  by (simp add: get_scheme_def is_alpha_def is_digit_def)

definition plain_path :: "string \<Rightarrow> bool" where
  "plain_path s \<longleftrightarrow> list_all (\<lambda>c. plain c \<or> c = CHR ''/'') s"

lemma parse_common_s3:
  assumes "list_all plain b" and "plain_path t"
  shows "parse_common ipl via (''s3://'' @ b @ ''/'' @ t)
    = Some (empty_url\<lparr>u_scheme := ''s3'', u_host := b, u_path := ''/'' @ t\<rparr>)"
proof -
  let ?raw = "''s3://'' @ b @ ''/'' @ t"
  let ?r = "''//'' @ b @ ''/'' @ t"
  have g: "\<forall>c \<in> set b. plain c" "\<forall>c \<in> set t. plain c \<or> c = CHR ''/''"
    using assms by (auto simp: list_all_iff plain_path_def)
  have slash_graphic: "graphic CHR ''/''" by (simp add: graphic_def)
  have "\<forall>c \<in> set b. graphic c" "\<forall>c \<in> set t. graphic c"
    using g slash_graphic plain_graphic by blast+
  then have "list_all graphic ?raw"
    by (auto simp: list_all_iff graphic_def)
  then have ctl: "\<not> has_ctl ?raw"
    unfolding has_ctl_def list_ex_iff list_all_iff graphic_def by fastforce
  have q: "cut_at CHR ''?'' ?r = (?r, None)"
    using g by (intro cut_at_notin) (auto dest: plain_not)
  have slash: "CHR ''/'' \<notin> set b"
    using g by (auto dest: plain_not)
  have p: "unescape False (''/'' @ t) = Some (''/'' @ t)"
    using g by (intro unescape_path) (auto dest: plain_not)
  have "get_scheme ?raw = Some (''s3'', ?r)"
    using get_scheme_s3 [of ?r] by simp
  moreover have "map lower_char ''s3'' = ''s3''"
    by (simp add: lower_char_def)
  moreover have "parse_rest ipl via (empty_url\<lparr>u_scheme := ''s3''\<rparr>) ?r
      = Some (empty_url\<lparr>u_scheme := ''s3'', u_host := b, u_path := ''/'' @ t\<rparr>)"
    using slash p parse_authority_plain [OF assms(1), of ipl] cut_at_append [OF slash, of t]
    by (simp add: parse_rest_def has_prefix_def empty_url_def)
  ultimately show ?thesis
    using ctl q by (simp add: parse_common_def empty_url_def)
qed

end
