(* ===== verification/Go_Json.thy ===== *)
theory Go_Json
  imports Go_Encoding Go_Runes "HOL-Library.Char_ord" "HOL-Library.List_Lexorder"
begin

text \<open>
  \<open>encoding/json\<close> as the repository uses it. A text is scanned into a syntax tree whose strings and
  numbers are the literals of the text; decoding a string literal is \<open>unquote\<close>, as in Go. The tree
  stands for a \<open>json.RawMessage\<close>, for the input of a struct decoder and, after \<open>norm\<close>, for the
  generic value (\<open>map[string]any\<close>) that Go marshals with sorted keys.
\<close>

datatype json =
    JNull
  | JBool bool
  | JNum string
  | JStr string
  | JArr "json list"
  | JObj "(string \<times> json) list"

abbreviation dquote :: char where "dquote \<equiv> CHR 0x22"
abbreviation backslash :: char where "backslash \<equiv> CHR 0x5C"

subsection \<open>Scanning\<close>

definition is_ws :: "char \<Rightarrow> bool" where
  "is_ws c \<longleftrightarrow> c = CHR 0x20 \<or> c = CHR 0x09 \<or> c = CHR 0x0A \<or> c = CHR 0x0D"

definition skip_ws :: "string \<Rightarrow> string" where
  "skip_ws s = dropWhile is_ws s"

definition escape_chars :: string where
  "escape_chars = [dquote, backslash, CHR ''/'', CHR ''b'', CHR ''f'', CHR ''n'', CHR ''r'', CHR ''t'']"

definition is_hex :: "char \<Rightarrow> bool" where
  "is_hex c \<longleftrightarrow> hex_value c \<noteq> None"

text \<open>The length of the escape after a backslash, if it is one.\<close>

definition escape_length :: "string \<Rightarrow> nat option" where
  "escape_length s =
     (case s of
        [] \<Rightarrow> None
      | e # r \<Rightarrow>
          if e = CHR ''u'' then (if 4 \<le> length r \<and> list_all is_hex (take 4 r) then Some 5 else None)
          else if e \<in> set escape_chars then Some 1
          else None)"

text \<open>The literal after an opening quote, up to its closing quote, and the rest.\<close>

function scan_string :: "string \<Rightarrow> (string \<times> string) option" where
  "scan_string [] = None"
| "scan_string (c # s) =
     (if c = dquote then Some ([], s)
      else if c = backslash then
        (case escape_length s of
           None \<Rightarrow> None
         | Some k \<Rightarrow> map_option (\<lambda>(lit, rest). (c # take k s @ lit, rest)) (scan_string (drop k s)))
      else if byte c < 0x20 then None
      else map_option (\<lambda>(lit, rest). (c # lit, rest)) (scan_string s))"
  by pat_completeness auto
termination by (relation "measure length") auto

declare scan_string.simps(2) [simp del]

text \<open>The parts of a number literal.\<close>

definition scan_int :: "string \<Rightarrow> (string \<times> string) option" where
  "scan_int s =
     (case s of
        c # r \<Rightarrow>
          if c = CHR ''0'' then Some ([c], r)
          else if is_digit c then Some (takeWhile is_digit s, dropWhile is_digit s)
          else None
      | [] \<Rightarrow> None)"

definition scan_frac :: "string \<Rightarrow> (string \<times> string) option" where
  "scan_frac s =
     (if has_prefix s ''.'' then
        (if takeWhile is_digit (tl s) = [] then None
         else Some (CHR ''.'' # takeWhile is_digit (tl s), dropWhile is_digit (tl s)))
      else Some ([], s))"

definition scan_exp :: "string \<Rightarrow> (string \<times> string) option" where
  "scan_exp s =
     (if has_prefix s ''e'' \<or> has_prefix s ''E'' then
        (let r = tl s;
             sg = (if has_prefix r ''+'' \<or> has_prefix r ''-'' then take 1 r else []);
             t = drop (length sg) r in
         if takeWhile is_digit t = [] then None
         else Some (take 1 s @ sg @ takeWhile is_digit t, dropWhile is_digit t))
      else Some ([], s))"

definition scan_number :: "string \<Rightarrow> (string \<times> string) option" where
  "scan_number s =
     (let sg = (if has_prefix s ''-'' then ''-'' else []) in
      do { (i, r1) \<leftarrow> scan_int (drop (length sg) s);
           (f, r2) \<leftarrow> scan_frac r1;
           (e, r3) \<leftarrow> scan_exp r2;
           Some (sg @ i @ f @ e, r3) })"

definition scan_word :: "string \<Rightarrow> json \<Rightarrow> string \<Rightarrow> (json \<times> string) option" where
  "scan_word w v s = (if has_prefix s w then Some (v, drop (length w) s) else None)"

text \<open>
  The value grammar. The first argument is fuel, the second the nesting that is still allowed
  (Go stops at 10000 open brackets); \<open>json_fuel\<close> below is enough fuel for any text, which
  \<open>json_fuel_enough\<close> in \<open>Go_JsonCodec\<close> shows.
\<close>

fun parse_value :: "nat \<Rightarrow> nat \<Rightarrow> string \<Rightarrow> (json \<times> string) option"
  and parse_elems :: "nat \<Rightarrow> nat \<Rightarrow> string \<Rightarrow> (json list \<times> string) option"
  and parse_members :: "nat \<Rightarrow> nat \<Rightarrow> string \<Rightarrow> ((string \<times> json) list \<times> string) option" where
  "parse_value 0 d s = None"
| "parse_value (Suc n) d s =
     (case skip_ws s of
        [] \<Rightarrow> None
      | c # r \<Rightarrow>
          if c = CHR ''{'' then
            (if d = 0 then None
             else if has_prefix (skip_ws r) ''}'' then Some (JObj [], tl (skip_ws r))
             else map_option (\<lambda>(ms, t). (JObj ms, t)) (parse_members n (d - 1) r))
          else if c = CHR ''['' then
            (if d = 0 then None
             else if has_prefix (skip_ws r) '']'' then Some (JArr [], tl (skip_ws r))
             else map_option (\<lambda>(vs, t). (JArr vs, t)) (parse_elems n (d - 1) r))
          else if c = dquote then map_option (\<lambda>(lit, t). (JStr lit, t)) (scan_string r)
          else if c = CHR ''t'' then scan_word ''true'' (JBool True) (c # r)
          else if c = CHR ''f'' then scan_word ''false'' (JBool False) (c # r)
          else if c = CHR ''n'' then scan_word ''null'' JNull (c # r)
          else map_option (\<lambda>(lit, t). (JNum lit, t)) (scan_number (c # r)))"
| "parse_elems 0 d s = None"
| "parse_elems (Suc n) d s =
     do { (v, r) \<leftarrow> parse_value n d s;
          (case skip_ws r of
             c # t \<Rightarrow>
               if c = CHR '','' then map_option (\<lambda>(vs, u). (v # vs, u)) (parse_elems n d t)
               else if c = CHR '']'' then Some ([v], t)
               else None
           | [] \<Rightarrow> None) }"
| "parse_members 0 d s = None"
| "parse_members (Suc n) d s =
     (case skip_ws s of
        q # r \<Rightarrow>
          if q \<noteq> dquote then None
          else do { (k, r1) \<leftarrow> scan_string r;
                    if \<not> has_prefix (skip_ws r1) '':'' then None
                    else do { (v, r2) \<leftarrow> parse_value n d (tl (skip_ws r1));
                              (case skip_ws r2 of
                                 c # t \<Rightarrow>
                                   if c = CHR '','' then
                                     map_option (\<lambda>(ms, u). ((k, v) # ms, u)) (parse_members n d t)
                                   else if c = CHR ''}'' then Some ([(k, v)], t)
                                   else None
                               | [] \<Rightarrow> None) } }
      | [] \<Rightarrow> None)"

definition json_fuel :: "string \<Rightarrow> nat" where
  "json_fuel s = 2 * length s + 2"

definition max_depth :: nat where "max_depth = 10000"

text \<open>
  \<open>Decoder.Decode\<close> reads the first value and leaves the rest; \<open>Unmarshal\<close> and \<open>json.Valid\<close> allow
  only white space after it.
\<close>

definition json_first :: "string \<Rightarrow> json option" where
  "json_first s = map_option fst (parse_value (json_fuel s) max_depth s)"

definition json_all :: "string \<Rightarrow> json option" where
  "json_all s =
     (case parse_value (json_fuel s) max_depth s of
        None \<Rightarrow> None
      | Some (v, r) \<Rightarrow> if skip_ws r = [] then Some v else None)"

subsection \<open>String literals\<close>

text \<open>\<open>utf8.EncodeRune\<close>.\<close>

definition encode_rune :: "nat \<Rightarrow> string" where
  "encode_rune r0 =
     (let r = (if 0x10FFFF < r0 \<or> (0xD800 \<le> r0 \<and> r0 \<le> 0xDFFF) then rune_error else r0) in
      if r < 0x80 then [char_of r]
      else if r < 0x800 then [char_of (0xC0 + r div 64), char_of (0x80 + r mod 64)]
      else if r < 0x10000 then
        [char_of (0xE0 + r div 4096), char_of (0x80 + r div 64 mod 64), char_of (0x80 + r mod 64)]
      else [char_of (0xF0 + r div 262144), char_of (0x80 + r div 4096 mod 64),
            char_of (0x80 + r div 64 mod 64), char_of (0x80 + r mod 64)])"

definition hex4 :: "string \<Rightarrow> nat option" where
  "hex4 s =
     (case s of
        a # b # c # d # _ \<Rightarrow>
          do { w \<leftarrow> hex_value a; x \<leftarrow> hex_value b; y \<leftarrow> hex_value c; z \<leftarrow> hex_value d;
               Some (4096 * w + 256 * x + 16 * y + z) }
      | _ \<Rightarrow> None)"

text \<open>\<open>getu4\<close> at a \<open>\u\<close> escape.\<close>

definition getu4 :: "string \<Rightarrow> nat option" where
  "getu4 s = (if has_prefix s [backslash, CHR ''u''] then hex4 (drop 2 s) else None)"

definition simple_escape :: "char \<Rightarrow> char" where
  "simple_escape e =
     (if e = CHR ''b'' then CHR 0x08 else if e = CHR ''f'' then CHR 0x0C
      else if e = CHR ''n'' then CHR 0x0A else if e = CHR ''r'' then CHR 0x0D
      else if e = CHR ''t'' then CHR 0x09 else e)"

text \<open>
  \<open>unquoteBytes\<close> on a literal the scanner accepted: escapes are resolved, surrogate pairs combined,
  and what is not UTF-8 becomes U+FFFD.
\<close>

function unquote :: "string \<Rightarrow> string" where
  "unquote [] = []"
| "unquote (c # s) =
     (if c = backslash then
        (case s of
           [] \<Rightarrow> []
         | e # t \<Rightarrow>
             if e = CHR ''u'' then
               (case hex4 t of
                  None \<Rightarrow> []
                | Some u \<Rightarrow>
                    if 0xD800 \<le> u \<and> u < 0xE000 then
                      (case getu4 (drop 4 t) of
                         Some l \<Rightarrow>
                           if u < 0xDC00 \<and> 0xDC00 \<le> l \<and> l < 0xE000 then
                             encode_rune (0x10000 + (u - 0xD800) * 1024 + (l - 0xDC00))
                               @ unquote (drop 10 t)
                           else encode_rune rune_error @ unquote (drop 4 t)
                       | None \<Rightarrow> encode_rune rune_error @ unquote (drop 4 t))
                    else encode_rune u @ unquote (drop 4 t))
             else simple_escape e # unquote t)
      else if byte c < 0x80 then c # unquote s
      else (let (r, w) = decode_rune (c # s) in encode_rune r @ unquote (drop (w - 1) s)))"
  by pat_completeness auto
termination by (relation "measure length") auto

declare unquote.simps(2) [simp del]

definition quote_ascii :: "char \<Rightarrow> string" where
  "quote_ascii c =
     (if c = dquote \<or> c = backslash then [backslash, c]
      else if c = CHR 0x08 then [backslash, CHR ''b'']
      else if c = CHR 0x0C then [backslash, CHR ''f'']
      else if c = CHR 0x0A then [backslash, CHR ''n'']
      else if c = CHR 0x0D then [backslash, CHR ''r'']
      else if c = CHR 0x09 then [backslash, CHR ''t'']
      else if byte c < 0x20 \<or> c = CHR ''<'' \<or> c = CHR ''>'' \<or> c = CHR ''&'' then
        [backslash, CHR ''u'', CHR ''0'', CHR ''0'', hex_digit (byte c div 16), hex_digit (byte c mod 16)]
      else [c])"

text \<open>\<open>appendString\<close> with HTML escaping, without the surrounding quotes.\<close>

function quote :: "string \<Rightarrow> string" where
  "quote [] = []"
| "quote (c # s) =
     (if byte c < 0x80 then quote_ascii c @ quote s
      else (let (r, w) = decode_rune (c # s) in
            (if r = rune_error \<and> w = 1 then [backslash] @ ''ufffd''
             else if r = 0x2028 then [backslash] @ ''u2028''
             else if r = 0x2029 then [backslash] @ ''u2029''
             else take w (c # s)) @ quote (drop (w - 1) s)))"
  by pat_completeness auto
termination by (relation "measure length") auto

declare quote.simps(2) [simp del]

subsection \<open>Rendering\<close>

fun render :: "json \<Rightarrow> string" where
  "render JNull = ''null''"
| "render (JBool b) = (if b then ''true'' else ''false'')"
| "render (JNum n) = n"
| "render (JStr l) = dquote # l @ [dquote]"
| "render (JArr vs) = ''['' @ join_with '','' (map render vs) @ '']''"
| "render (JObj ms) =
     ''{'' @ join_with '','' (map (\<lambda>(k, v). dquote # k @ [dquote, CHR '':''] @ render v) ms) @ ''}''"

definition jstr :: "string \<Rightarrow> json" where
  "jstr s = JStr (quote s)"

subsection \<open>Generic values\<close>

text \<open>
  Decoding an object into a Go map keeps the last value of a repeated key, and marshalling the map
  sorts the keys: \<open>upsert\<close> keeps an association list sorted by key.
\<close>

fun upsert :: "string \<Rightarrow> 'a \<Rightarrow> (string \<times> 'a) list \<Rightarrow> (string \<times> 'a) list" where
  "upsert k v [] = [(k, v)]"
| "upsert k v ((k', v') # r) =
     (if k < k' then (k, v) # (k', v') # r
      else if k = k' then (k, v) # r
      else (k', v') # upsert k v r)"

definition go_map :: "(string \<times> 'a) list \<Rightarrow> (string \<times> 'a) list" where
  "go_map ms = foldl (\<lambda>m (k, v). upsert k v m) [] ms"

primrec norm :: "json \<Rightarrow> json" where
  "norm JNull = JNull"
| "norm (JBool b) = JBool b"
| "norm (JNum n) = JNum n"
| "norm (JStr l) = JStr (quote (unquote l))"
| "norm (JArr vs) = JArr (map norm vs)"
| "norm (JObj ms) =
     JObj (map (\<lambda>(k, v). (quote k, v)) (go_map (map (\<lambda>(k, v). (unquote k, v)) (map (map_prod id norm) ms))))"

lemma map_of_upsert: "map_of (upsert k v m) = (map_of m)(k \<mapsto> v)"
  by (induction k v m rule: upsert.induct) auto

lemma keys_upsert: "fst ` set (upsert k v m) = insert k (fst ` set m)"
  by (induction k v m rule: upsert.induct) (simp_all add: insert_commute)

definition sorted_keys :: "(string \<times> 'a) list \<Rightarrow> bool" where
  "sorted_keys m \<longleftrightarrow> sorted_wrt (<) (map fst m)"

lemma sorted_keys_Cons: "sorted_keys ((k, v) # m) \<longleftrightarrow> (\<forall>k' \<in> fst ` set m. k < k') \<and> sorted_keys m"
  by (simp add: sorted_keys_def)

lemma sorted_keys_upsert: "sorted_keys m \<Longrightarrow> sorted_keys (upsert k v m)"
proof (induction k v m rule: upsert.induct)
  case (2 k v k' v' r)
  consider "k < k'" | "k = k'" | "k' < k" by (rule linorder_cases)
  then show ?case
    using 2 by cases (auto simp: sorted_keys_Cons keys_upsert simp del: set_map)
qed (simp add: sorted_keys_def)

lemma go_map_snoc: "go_map (ms @ [(k, v)]) = upsert k v (go_map ms)"
  by (simp add: go_map_def)

lemma go_map_Nil [simp]: "go_map [] = []"
  by (simp add: go_map_def)

lemma sorted_keys_go_map: "sorted_keys (go_map ms)"
proof (induction ms rule: rev_induct)
  case (snoc x ms)
  then show ?case by (cases x) (simp add: go_map_snoc sorted_keys_upsert)
qed (simp add: sorted_keys_def)

lemma map_of_go_map: "map_of (go_map ms) = map_of (rev ms)"
proof (induction ms rule: rev_induct)
  case (snoc x ms)
  then show ?case by (cases x) (simp add: go_map_snoc map_of_upsert)
qed simp

text \<open>A sorted association list is determined by the map it stands for.\<close>

lemma sorted_keys_unique:
  "sorted_keys a \<Longrightarrow> sorted_keys b \<Longrightarrow> map_of a = map_of b \<Longrightarrow> a = b"
proof (induction a arbitrary: b)
  case Nil
  then show ?case by (metis map_of_eq_empty_iff)
next
  case (Cons x a)
  obtain k v where x: "x = (k, v)" by force
  have "b \<noteq> []" using Cons.prems(3) by (metis list.distinct(1) map_of_eq_empty_iff)
  then obtain k' v' b' where b: "b = (k', v') # b'" by (metis list.exhaust surj_pair)
  have dom: "fst ` set (x # a) = fst ` set b"
    using Cons.prems(3) by (metis dom_map_of_conv_image_fst)
  have ka: "\<forall>y \<in> fst ` set a. k < y" and kb: "\<forall>y \<in> fst ` set b'. k' < y"
    and sa: "sorted_keys a" and sb: "sorted_keys b'"
    using Cons.prems x b by (simp_all add: sorted_keys_Cons)
  have "k = k'"
    using dom ka kb x b by (metis (no_types, lifting) fst_conv image_insert insertE insertI1
        list.simps(15) less_asym)
  moreover from this have "v = v'"
    using Cons.prems(3) x b by (metis map_of_Cons_code(2) option.inject)
  moreover have "map_of a = map_of b'"
  proof
    fix y
    show "map_of a y = map_of b' y"
    proof (cases "y = k")
      case True
      then have "map_of a y = None" "map_of b' y = None"
        using ka kb \<open>k = k'\<close> by (auto simp: map_of_eq_None_iff)
      then show ?thesis by simp
    next
      case False
      then show ?thesis
        using fun_cong [OF Cons.prems(3), of y] x b \<open>k = k'\<close> by simp
    qed
  qed
  ultimately show ?case using Cons.IH [OF sa sb] x b by simp
qed

text \<open>
  The generic value of an object depends on the last value of each key only, neither on the order of
  the members nor on repeated keys.
\<close>

lemma go_map_cong: "map_of (rev a) = map_of (rev b) \<Longrightarrow> go_map a = go_map b"
  by (rule sorted_keys_unique) (simp_all add: sorted_keys_go_map map_of_go_map)

lemma set_upsert: "set (upsert k v m) \<subseteq> insert (k, v) (set m)"
  by (induction k v m rule: upsert.induct) auto

lemma set_go_map: "set (go_map ms) \<subseteq> set ms"
proof (induction ms rule: rev_induct)
  case (snoc kv ms)
  then show ?case using set_upsert [of "fst kv" "snd kv" "go_map ms"]
    by (cases kv) (auto simp: go_map_snoc)
qed simp

subsection \<open>Struct decoding\<close>

text \<open>
  A key of an object selects the field with its exact name, or else one whose name it equals under
  case folding (\<open>foldName\<close>; U+017F and U+212A fold to S and K, no other non-ASCII letter folds to an
  ASCII one).
\<close>

fun fold_name :: "string \<Rightarrow> string" where
  "fold_name [] = []"
| "fold_name (c # s) =
     (if c = CHR 0xC5 \<and> has_prefix s [CHR 0xBF] then CHR ''s'' # fold_name (drop 1 s)
      else if c = CHR 0xE2 \<and> has_prefix s [CHR 0x84, CHR 0xAA] then CHR ''k'' # fold_name (drop 2 s)
      else lower_char c # fold_name s)"

definition field_of :: "string list \<Rightarrow> string \<Rightarrow> string option" where
  "field_of names k =
     (if k \<in> set names then Some k else find (\<lambda>n. fold_name n = fold_name k) names)"

text \<open>
  Decoding an object into a struct of string fields: a string sets its field, null leaves it, any
  other value is an error; an unknown key is an error if \<open>strict\<close> (\<open>DisallowUnknownFields\<close>). The
  result maps a field to its value, the empty string where nothing was set.
\<close>

fun decode_fields ::
  "bool \<Rightarrow> string list \<Rightarrow> (string \<times> json) list \<Rightarrow> (string \<Rightarrow> string) \<Rightarrow> (string \<Rightarrow> string) option" where
  "decode_fields strict names [] m = Some m"
| "decode_fields strict names ((k, v) # ms) m =
     (case field_of names (unquote k) of
        None \<Rightarrow> if strict then None else decode_fields strict names ms m
      | Some f \<Rightarrow>
          (case v of
             JStr l \<Rightarrow> decode_fields strict names ms (m(f := unquote l))
           | JNull \<Rightarrow> decode_fields strict names ms m
           | _ \<Rightarrow> None))"

definition decode_strings :: "bool \<Rightarrow> string list \<Rightarrow> json \<Rightarrow> (string \<Rightarrow> string) option" where
  "decode_strings strict names v =
     (case v of
        JObj ms \<Rightarrow> decode_fields strict names ms (\<lambda>_. [])
      | JNull \<Rightarrow> Some (\<lambda>_. [])
      | _ \<Rightarrow> None)"

end
