(* ===== verification/Go_Time.thy ===== *)
theory Go_Time
  imports Go_Runes "HOL-Library.Monad_Syntax"
begin

text \<open>
  \<open>time.Time\<close>: the repository compares instants (\<open>Equal\<close>, \<open>IsZero\<close>) and normalises to UTC before it
  stores or sends a time, so a time is its instant, in nanoseconds since the Unix epoch. This theory
  has \<open>time.Parse(time.RFC3339, _)\<close> with its leniencies (one-digit hours, a comma before the
  fraction, offsets up to 24:60), \<open>IsZero\<close> and the RFC 3339 rendering of \<open>MarshalJSON\<close>.
\<close>

type_synonym time = int

definition nano :: int where "nano = 1000000000"

subsection \<open>The proleptic Gregorian calendar\<close>

definition is_leap :: "int \<Rightarrow> bool" where
  "is_leap y \<longleftrightarrow> y mod 4 = 0 \<and> (y mod 100 \<noteq> 0 \<or> y mod 400 = 0)"

definition days_in :: "int \<Rightarrow> int \<Rightarrow> int" where
  "days_in m y =
     (if m = 2 then (if is_leap y then 29 else 28)
      else if m = 4 \<or> m = 6 \<or> m = 9 \<or> m = 11 then 30 else 31)"

text \<open>Days from 0000-01-01 to the first day of year \<open>y\<close>, and from the first day of the year to that of a month.\<close>

definition year_days :: "int \<Rightarrow> int" where
  "year_days y = 365 * y + (y + 3) div 4 - (y + 99) div 100 + (y + 399) div 400"

definition month_days :: "int \<Rightarrow> int \<Rightarrow> int" where
  "month_days m y =
     (if m = 1 then 0 else if m = 2 then 31
      else (if m = 3 then 59 else if m = 4 then 90 else if m = 5 then 120 else if m = 6 then 151
            else if m = 7 then 181 else if m = 8 then 212 else if m = 9 then 243
            else if m = 10 then 273 else if m = 11 then 304 else 334) + (if is_leap y then 1 else 0))"

definition epoch_days :: int where "epoch_days = 719528"

definition days_from_civil :: "int \<Rightarrow> int \<Rightarrow> int \<Rightarrow> int" where
  "days_from_civil y m d = year_days y + month_days m y + (d - 1) - epoch_days"

lemma epoch_days_eq: "days_from_civil 1970 1 1 = 0"
  by (simp add: days_from_civil_def year_days_def month_days_def epoch_days_def)

subsection \<open>Parsing\<close>

text \<open>\<open>getnum\<close>: one or two digits, two if \<open>fixed\<close>.\<close>

definition digit_of :: "char \<Rightarrow> int" where
  "digit_of c = int (byte c) - 0x30"

fun getnum :: "bool \<Rightarrow> string \<Rightarrow> (int \<times> string) option" where
  "getnum fixed [] = None"
| "getnum fixed [a] = (if is_digit a \<and> \<not> fixed then Some (digit_of a, []) else None)"
| "getnum fixed (a # b # s) =
     (if \<not> is_digit a then None
      else if is_digit b then Some (10 * digit_of a + digit_of b, s)
      else if fixed then None
      else Some (digit_of a, b # s))"

text \<open>A number of the layout with its range.\<close>

definition getnum_in :: "bool \<Rightarrow> int \<Rightarrow> int \<Rightarrow> string \<Rightarrow> (int \<times> string) option" where
  "getnum_in fixed lo hi s =
     do { (n, r) \<leftarrow> getnum fixed s; if lo \<le> n \<and> n \<le> hi then Some (n, r) else None }"

definition expect :: "char \<Rightarrow> string \<Rightarrow> string option" where
  "expect c s = (case s of x # r \<Rightarrow> if x = c then Some r else None | [] \<Rightarrow> None)"

definition long_year :: "string \<Rightarrow> (int \<times> string) option" where
  "long_year s =
     (if 4 \<le> length s \<and> list_all is_digit (take 4 s)
      then map_option (\<lambda>n. (int n, drop 4 s)) (digits_value 0 (take 4 s)) else None)"

text \<open>The optional fraction after the seconds: up to nine digits count, further digits are skipped.\<close>

definition fraction :: "string \<Rightarrow> int \<times> string" where
  "fraction s =
     (case s of
        p # d # r \<Rightarrow>
          if (p = CHR ''.'' \<or> p = CHR '','') \<and> is_digit d then
            (let ds = takeWhile is_digit (d # r); n = take 9 ds in
             (case digits_value 0 n of Some v \<Rightarrow> int v * 10 ^ (9 - length n) | None \<Rightarrow> 0,
              dropWhile is_digit (d # r)))
          else (0, s)
      | _ \<Rightarrow> (0, s))"

text \<open>The offset in seconds: \<open>Z\<close>, or a sign, two digits, a colon, two digits.\<close>

definition zone :: "string \<Rightarrow> (int \<times> string) option" where
  "zone s =
     (if has_prefix s ''Z'' then Some (0, tl s)
      else case s of
        sg # h1 # h2 # col # m1 # m2 # r \<Rightarrow>
          if col \<noteq> CHR '':'' then None
          else do { (hr, _) \<leftarrow> getnum_in True 0 24 [h1, h2];
                    (mm, _) \<leftarrow> getnum_in True 0 60 [m1, m2];
                    let off = (hr * 60 + mm) * 60;
                    if sg = CHR ''+'' then Some (off, r)
                    else if sg = CHR ''-'' then Some (- off, r)
                    else None }
      | _ \<Rightarrow> None)"

definition parse_rfc3339 :: "string \<Rightarrow> time option" where
  "parse_rfc3339 s =
     do { (y, s) \<leftarrow> long_year s;
          s \<leftarrow> expect CHR ''-'' s;
          (mo, s) \<leftarrow> getnum_in True 1 12 s;
          s \<leftarrow> expect CHR ''-'' s;
          (d, s) \<leftarrow> getnum_in True 0 99 s;
          s \<leftarrow> expect CHR ''T'' s;
          (h, s) \<leftarrow> getnum_in False 0 23 s;
          s \<leftarrow> expect CHR '':'' s;
          (mi, s) \<leftarrow> getnum_in True 0 59 s;
          s \<leftarrow> expect CHR '':'' s;
          (sec, s) \<leftarrow> getnum_in True 0 59 s;
          let (ns, s) = fraction s;
          (off, s) \<leftarrow> zone s;
          if s \<noteq> [] \<or> d < 1 \<or> days_in mo y < d then None
          else Some ((days_from_civil y mo d * 86400 + h * 3600 + mi * 60 + sec - off) * nano + ns) }"

text \<open>\<open>IsZero\<close>: January 1, year 1, 00:00:00 UTC.\<close>

definition zero_time :: time where
  "zero_time = days_from_civil 1 1 1 * 86400 * nano"

definition is_zero :: "time \<Rightarrow> bool" where
  "is_zero t \<longleftrightarrow> t = zero_time"

subsection \<open>Rendering\<close>

definition year_of_day :: "int \<Rightarrow> int" where
  "year_of_day n =
     (let y = n * 400 div 146097 in
      if year_days (y + 1) \<le> n then y + 1 else if n < year_days y then y - 1 else y)"

fun month_from :: "nat \<Rightarrow> int \<Rightarrow> int \<Rightarrow> int \<Rightarrow> int \<times> int" where
  "month_from 0 m y k = (m, k)"
| "month_from (Suc f) m y k =
     (if k < days_in m y then (m, k) else month_from f (m + 1) y (k - days_in m y))"

text \<open>Year, month and day of a day counted from the epoch.\<close>

definition civil_from_days :: "int \<Rightarrow> int \<times> int \<times> int" where
  "civil_from_days z =
     (let n = z + epoch_days; y = year_of_day n; (m, k) = month_from 11 1 y (n - year_days y)
      in (y, m, k + 1))"

definition pad_left :: "nat \<Rightarrow> string \<Rightarrow> string" where
  "pad_left w s = replicate (w - length s) (CHR ''0'') @ s"

definition two :: "int \<Rightarrow> string" where
  "two n = pad_left 2 (decimal (nat n))"

text \<open>The fraction without its trailing zeros, empty when it is zero.\<close>

definition nanos :: "int \<Rightarrow> string" where
  "nanos n = (if n = 0 then []
     else CHR ''.'' # rev (dropWhile (\<lambda>c. c = CHR ''0'') (rev (pad_left 9 (decimal (nat n))))))"

text \<open>\<open>MarshalJSON\<close> of a UTC time: \<open>None\<close> when the year does not have four digits.\<close>

definition marshal_time :: "time \<Rightarrow> string option" where
  "marshal_time t =
     (let ns = t mod nano; secs = t div nano; sod = secs mod 86400;
          (y, m, d) = civil_from_days (secs div 86400) in
      if y < 0 \<or> 9999 < y then None
      else Some (pad_left 4 (decimal (nat y)) @ ''-'' @ two m @ ''-'' @ two d @ ''T''
             @ two (sod div 3600) @ '':'' @ two (sod mod 3600 div 60) @ '':'' @ two (sod mod 60)
             @ nanos ns @ ''Z''))"

end
