(* ===== verification/Go_JsonDecode.thy ===== *)
theory Go_JsonDecode
  imports Go_Json Go_Time
begin

text \<open>
  Decoding a JSON value into Go data, beyond the structs of strings of \<open>Go_Json\<close>: structs with fields
  of any type, slices, maps, \<open>time.Time\<close>, \<open>json.Number\<close> and \<open>json.RawMessage\<close>. A decoder takes the
  value and what the destination holds, and gives what it holds afterwards: Go decodes in place, so a
  key that occurs twice decodes twice, \<open>null\<close> leaves most destinations alone, and the elements of a
  slice are reused. \<^theory_text>\<open>None\<close> is an error; the destination is then never read.
\<close>

type_synonym 'a decoder = "json \<Rightarrow> 'a \<Rightarrow> 'a option"

subsection \<open>Structs\<close>

text \<open>
  The members of the object in their order: a key that selects a field is decoded into it by \<open>f\<close>, any
  other is an error if \<open>strict\<close> (\<open>DisallowUnknownFields\<close>).
\<close>

fun decode_members ::
  "bool \<Rightarrow> string list \<Rightarrow> (string \<Rightarrow> 'a decoder) \<Rightarrow> (string \<times> json) list \<Rightarrow> 'a \<Rightarrow> 'a option" where
  "decode_members strict names f [] s = Some s"
| "decode_members strict names f ((k, v) # ms) s =
     (case field_of names (unquote k) of
        None \<Rightarrow> if strict then None else decode_members strict names f ms s
      | Some n \<Rightarrow>
          (case f n v s of
             None \<Rightarrow> None
           | Some s' \<Rightarrow> decode_members strict names f ms s'))"

definition decode_struct :: "bool \<Rightarrow> string list \<Rightarrow> (string \<Rightarrow> 'a decoder) \<Rightarrow> 'a decoder" where
  "decode_struct strict names f v s =
     (case v of
        JObj ms \<Rightarrow> decode_members strict names f ms s
      | JNull \<Rightarrow> Some s
      | _ \<Rightarrow> None)"

text \<open>A field of a struct: its decoder, how to read it and how to replace it.\<close>

definition field :: "'b decoder \<Rightarrow> ('a \<Rightarrow> 'b) \<Rightarrow> ('b \<Rightarrow> 'a \<Rightarrow> 'a) \<Rightarrow> 'a decoder" where
  "field dec rd wr v s = map_option (\<lambda>x. wr x s) (dec v (rd s))"

subsection \<open>Strings, numbers, times, raw messages\<close>

definition decode_string :: "string decoder" where
  "decode_string v s =
     (case v of JStr l \<Rightarrow> Some (unquote l) | JNull \<Rightarrow> Some s | _ \<Rightarrow> None)"

definition valid_number :: "string \<Rightarrow> bool" where
  "valid_number s \<longleftrightarrow> (\<exists>n. scan_number s = Some (n, []))"

lemma valid_number_code [code]:
  "valid_number s = (case scan_number s of Some (_, r) \<Rightarrow> r = [] | None \<Rightarrow> False)"
  by (auto simp: valid_number_def split: option.split)

text \<open>\<open>json.Number\<close>: the literal of a number, or a string that holds one.\<close>

definition decode_number :: "string decoder" where
  "decode_number v s =
     (case v of
        JNum l \<Rightarrow> Some l
      | JStr l \<Rightarrow> if valid_number (unquote l) then Some (unquote l) else None
      | JNull \<Rightarrow> Some s
      | _ \<Rightarrow> None)"

text \<open>\<open>time.Time\<close> reads the bytes between the quotes, escapes and all.\<close>

definition decode_time :: "time decoder" where
  "decode_time v t =
     (case v of JStr l \<Rightarrow> parse_rfc3339 l | JNull \<Rightarrow> Some t | _ \<Rightarrow> None)"

text \<open>A \<open>json.RawMessage\<close> is its value; \<^theory_text>\<open>None\<close> is the nil slice of a field that did not occur.\<close>

definition decode_raw :: "json option decoder" where
  "decode_raw v s = Some (Some v)"

subsection \<open>Slices and maps\<close>

text \<open>
  A slice is its elements together with the elements of its backing array past its length, which a
  later decode reuses as the initial values of the elements it adds.
\<close>

type_synonym 'a slice = "'a list \<times> 'a list"

fun decode_elems :: "'a decoder \<Rightarrow> 'a \<Rightarrow> json list \<Rightarrow> 'a list \<Rightarrow> 'a slice option" where
  "decode_elems dec zero [] backing = Some ([], backing)"
| "decode_elems dec zero (v # vs) backing =
     (case dec v (case backing of [] \<Rightarrow> zero | y # _ \<Rightarrow> y) of
        None \<Rightarrow> None
      | Some x \<Rightarrow> map_option (\<lambda>(xs, spare). (x # xs, spare)) (decode_elems dec zero vs (tl backing)))"

definition decode_slice :: "'a decoder \<Rightarrow> 'a \<Rightarrow> 'a slice decoder" where
  "decode_slice dec zero v s =
     (case v of
        JArr [] \<Rightarrow> Some ([], [])
      | JArr vs \<Rightarrow> decode_elems dec zero vs (fst s @ snd s)
      | JNull \<Rightarrow> Some ([], [])
      | _ \<Rightarrow> None)"

text \<open>A map with string keys: every value is decoded into a zero element and replaces the old one.\<close>

fun decode_entries ::
  "'a decoder \<Rightarrow> 'a \<Rightarrow> (string \<times> json) list \<Rightarrow> (string \<times> 'a) list \<Rightarrow> (string \<times> 'a) list option" where
  "decode_entries dec zero [] m = Some m"
| "decode_entries dec zero ((k, v) # ms) m =
     (case dec v zero of
        None \<Rightarrow> None
      | Some x \<Rightarrow> decode_entries dec zero ms (upsert (unquote k) x m))"

definition decode_map :: "'a decoder \<Rightarrow> 'a \<Rightarrow> (string \<times> 'a) list decoder" where
  "decode_map dec zero v m =
     (case v of
        JObj ms \<Rightarrow> decode_entries dec zero ms m
      | JNull \<Rightarrow> Some []
      | _ \<Rightarrow> None)"

subsection \<open>What decoding gives\<close>

lemma decode_elems_length: "decode_elems dec z vs b = Some (xs, r) \<Longrightarrow> length xs = length vs"
  by (induction vs arbitrary: b xs) (auto split: option.splits)

text \<open>The elements of an array decode in their order; with a fresh slice each starts from zero.\<close>

lemma decode_elems_fresh:
  "decode_elems dec z vs [] = Some (xs, r) \<Longrightarrow> list_all2 (\<lambda>v x. dec v z = Some x) vs xs"
  by (induction vs arbitrary: xs) (auto split: option.splits)

lemma decode_slice_fresh:
  "decode_slice dec z (JArr vs) ([], []) = Some (xs, r) \<Longrightarrow> list_all2 (\<lambda>v x. dec v z = Some x) vs xs"
  by (cases vs) (auto simp: decode_slice_def dest: decode_elems_fresh split: option.splits)

text \<open>Decoding an object whose keys are names of fields, each once, decodes field by field.\<close>

lemma decode_members_Cons:
  "k \<in> set names \<Longrightarrow> unquote k = k \<Longrightarrow>
     decode_members strict names f ((k, v) # ms) s =
       (case f k v s of None \<Rightarrow> None | Some s' \<Rightarrow> decode_members strict names f ms s')"
  by (simp add: field_of_def)

lemma decode_members_append:
  "decode_members strict names f (a @ b) s =
     (case decode_members strict names f a s of
        None \<Rightarrow> None | Some s' \<Rightarrow> decode_members strict names f b s')"
  by (induction a arbitrary: s) (auto split: option.split)

text \<open>
  An unknown member: refused by a strict decoder, skipped by any other. So a strict decoder accepts
  only objects whose every key selects a field.
\<close>

lemma decode_members_strict:
  "decode_members True names f ms s = Some s' \<Longrightarrow> k \<in> fst ` set ms \<Longrightarrow> field_of names (unquote k) \<noteq> None"
  by (induction ms arbitrary: s) (force split: option.splits prod.splits)+

end
