(* ===== verification/Evidence_Model.thy ===== *)
theory Evidence_Model
  imports Go_Url Go_JsonDecode
begin

text \<open>
  The domain model of \<open>internal/evidence/model.go\<close>: the create and validation requests, the stored
  package, and their strict validation. Every check is in the order of the code, each failure with
  the error text of the code; \<^theory_text>\<open>None\<close> is the nil error.
\<close>

subsection \<open>Constants and data\<close>

definition StatusReceived :: string where "StatusReceived = ''received''"
definition StatusValidated :: string where "StatusValidated = ''validated''"
definition StatusRejected :: string where "StatusRejected = ''rejected''"

lemmas status_defs = StatusReceived_def StatusValidated_def StatusRejected_def

lemma status_distinct [simp]:
  "StatusReceived \<noteq> StatusValidated" "StatusValidated \<noteq> StatusReceived"
  "StatusReceived \<noteq> StatusRejected" "StatusRejected \<noteq> StatusReceived"
  "StatusValidated \<noteq> StatusRejected" "StatusRejected \<noteq> StatusValidated"
  by (simp_all add: status_defs)

definition valid_classifications :: "string list" where
  "valid_classifications = [''public'', ''internal'', ''confidential'', ''restricted'', ''highly_restricted'']"

record create_request =
  cr_idempotency_key :: string
  cr_tenant_id :: string
  cr_external_reference :: string
  cr_evidence_type :: string
  cr_content_sha256 :: string
  cr_content_location :: string
  cr_received_at :: time
  cr_classification :: string
  cr_correlation_id :: string

record package =
  p_evidence_package_id :: string
  p_idempotency_key :: string
  p_tenant_id :: string
  p_external_reference :: string
  p_evidence_type :: string
  p_content_sha256 :: string
  p_content_location :: string
  p_received_at :: time
  p_classification :: string
  p_correlation_id :: string
  p_created_at :: time
  p_validation_status :: string

record validation_request =
  v_validation_status :: string
  v_reason_code :: string
  v_actor_subject_reference :: string
  v_occurred_at :: time
  v_correlation_id :: string

subsection \<open>Field checks\<close>

definition uuid_dash :: "nat \<Rightarrow> bool" where
  "uuid_dash i \<longleftrightarrow> i = 8 \<or> i = 13 \<or> i = 18 \<or> i = 23"

definition hex_rune :: "nat \<Rightarrow> bool" where
  "hex_rune r \<longleftrightarrow> (0x30 \<le> r \<and> r \<le> 0x39) \<or> (0x61 \<le> r \<and> r \<le> 0x66) \<or> (0x41 \<le> r \<and> r \<le> 0x46)"

text \<open>\<open>isUUID\<close>: the length in bytes, then the range loop over the runes.\<close>

definition is_uuid :: "string \<Rightarrow> bool" where
  "is_uuid value \<longleftrightarrow>
     length value = 36 \<and>
     list_all (\<lambda>(index, character). if uuid_dash index then character = 0x2D else hex_rune character)
       (runes 0 value)"

text \<open>\<open>validSHA256\<close>: 64 bytes that decode as hex and re-encode to themselves.\<close>

definition valid_sha256 :: "string \<Rightarrow> bool" where
  "valid_sha256 value \<longleftrightarrow>
     length value = 32 * 2 \<and>
     (case hex_decode value of None \<Rightarrow> False | Some decoded \<Rightarrow> hex_encode decoded = value)"

definition validate_content_location ::
  "(string \<Rightarrow> string option) \<Rightarrow> string \<Rightarrow> go_error option" where
  "validate_content_location ipl value =
     (case parse_request_uri ipl value of
        None \<Rightarrow> Some (Error ''content_location must be an absolute object-storage or HTTPS URL'')
      | Some parsed \<Rightarrow>
          if u_scheme parsed = [] \<or> u_host parsed = []
          then Some (Error ''content_location must be an absolute object-storage or HTTPS URL'')
          else if u_user parsed \<or> u_raw_query parsed \<noteq> [] \<or> u_fragment parsed \<noteq> []
          then Some (Error ''content_location must not contain credentials, query parameters or fragments'')
          else if u_scheme parsed \<noteq> ''https'' \<and> u_scheme parsed \<noteq> ''s3''
          then Some (Error ''content_location must use https or s3'')
          else None)"

text \<open>The check \<open>strings.TrimSpace(s) == "" || len(s) > max\<close> that the text fields share.\<close>

definition blank_or_longer :: "nat \<Rightarrow> string \<Rightarrow> bool" where
  "blank_or_longer max_len s \<longleftrightarrow> trim_space s = [] \<or> max_len < length s"

subsection \<open>Validate\<close>

definition create_validate ::
  "(string \<Rightarrow> string option) \<Rightarrow> create_request \<Rightarrow> go_error option" where
  "create_validate ipl r =
     (if \<not> is_uuid (cr_idempotency_key r) then Some (Error ''idempotency_key must be a UUID'')
      else if blank_or_longer 128 (cr_tenant_id r)
      then Some (Error ''tenant_id is required and must not exceed 128 characters'')
      else if \<not> is_uuid (cr_correlation_id r) then Some (Error ''correlation_id must be a UUID'')
      else if blank_or_longer 512 (cr_external_reference r)
      then Some (Error ''external_reference is required and must not exceed 512 characters'')
      else if blank_or_longer 128 (cr_evidence_type r)
      then Some (Error ''evidence_type is required and must not exceed 128 characters'')
      else if \<not> valid_sha256 (cr_content_sha256 r)
      then Some (Error ''content_sha256 must be a lower-case SHA-256 hexadecimal digest'')
      else case validate_content_location ipl (cr_content_location r) of
             Some err \<Rightarrow> Some err
           | None \<Rightarrow>
               if is_zero (cr_received_at r) then Some (Error ''received_at is required'')
               else if cr_classification r \<notin> set valid_classifications
               then Some (Error ''classification is not an approved value'')
               else None)"

definition validation_validate :: "validation_request \<Rightarrow> go_error option" where
  "validation_validate r =
     (if v_validation_status r \<noteq> StatusValidated \<and> v_validation_status r \<noteq> StatusRejected
      then Some (Error ''validation_status must be validated or rejected'')
      else if blank_or_longer 128 (v_reason_code r)
      then Some (Error ''reason_code is required and must not exceed 128 characters'')
      else if blank_or_longer 512 (v_actor_subject_reference r)
      then Some (Error ''actor_subject_reference is required and must not exceed 512 characters'')
      else if is_zero (v_occurred_at r) then Some (Error ''occurred_at is required'')
      else if \<not> is_uuid (v_correlation_id r) then Some (Error ''correlation_id must be a UUID'')
      else None)"

subsection \<open>DecodeCreateRequest\<close>

definition create_fields :: "string list" where
  "create_fields = [''idempotency_key'', ''tenant_id'', ''external_reference'', ''evidence_type'',
     ''content_sha256'', ''content_location'', ''received_at'', ''classification'', ''correlation_id'']"

definition empty_create_request :: create_request where
  "empty_create_request = \<lparr>cr_idempotency_key = [], cr_tenant_id = [], cr_external_reference = [],
     cr_evidence_type = [], cr_content_sha256 = [], cr_content_location = [], cr_received_at = zero_time,
     cr_classification = [], cr_correlation_id = []\<rparr>"

definition create_field :: "string \<Rightarrow> create_request decoder" where
  "create_field n =
     (if n = ''idempotency_key'' then
        field decode_string cr_idempotency_key (\<lambda>x. cr_idempotency_key_update (\<lambda>_. x))
      else if n = ''tenant_id'' then
        field decode_string cr_tenant_id (\<lambda>x. cr_tenant_id_update (\<lambda>_. x))
      else if n = ''external_reference'' then
        field decode_string cr_external_reference (\<lambda>x. cr_external_reference_update (\<lambda>_. x))
      else if n = ''evidence_type'' then
        field decode_string cr_evidence_type (\<lambda>x. cr_evidence_type_update (\<lambda>_. x))
      else if n = ''content_sha256'' then
        field decode_string cr_content_sha256 (\<lambda>x. cr_content_sha256_update (\<lambda>_. x))
      else if n = ''content_location'' then
        field decode_string cr_content_location (\<lambda>x. cr_content_location_update (\<lambda>_. x))
      else if n = ''received_at'' then
        field decode_time cr_received_at (\<lambda>x. cr_received_at_update (\<lambda>_. x))
      else if n = ''classification'' then
        field decode_string cr_classification (\<lambda>x. cr_classification_update (\<lambda>_. x))
      else field decode_string cr_correlation_id (\<lambda>x. cr_correlation_id_update (\<lambda>_. x)))"

text \<open>The first JSON value of the body, strictly; what follows it is not looked at.\<close>

definition decode_create_request ::
  "(string \<Rightarrow> string option) \<Rightarrow> string \<Rightarrow> create_request result" where
  "decode_create_request ipl body =
     (case Option.bind (json_first body)
             (\<lambda>v. decode_struct True create_fields create_field v empty_create_request) of
        None \<Rightarrow> Inl (Wrap ''decode evidence package request'' (External ''json''))
      | Some request \<Rightarrow>
          (case create_validate ipl request of
             Some err \<Rightarrow> Inl err
           | None \<Rightarrow> Inr request))"

subsection \<open>What the field checks accept\<close>

text \<open>The shape of a UUID, byte by byte: the reference the loop is compared with.\<close>

definition uuid_shape :: "string \<Rightarrow> bool" where
  "uuid_shape s \<longleftrightarrow> length s = 36 \<and>
     (\<forall>i < 36. if uuid_dash i then s ! i = CHR ''-'' else hex_value (s ! i) \<noteq> None)"

lemma hex_rune_byte: "hex_rune (byte c) \<longleftrightarrow> hex_value c \<noteq> None"
  by (auto simp: hex_rune_def hex_value_def Let_def)

lemma byte_dash: "byte c = 0x2D \<longleftrightarrow> c = CHR ''-''"
proof -
  have "byte CHR ''-'' = 0x2D" by simp
  then show ?thesis by (metis of_char_eq_iff)
qed

text \<open>
  \<open>isUUID\<close>, a loop over the runes of the value that compares byte indices, accepts exactly the
  strings of 36 bytes with hyphens at positions 8, 13, 18 and 23 and a hexadecimal digit of either
  case everywhere else: no multi-byte rune slips through.
\<close>

lemma is_uuid_iff_shape: "is_uuid s = uuid_shape s"
proof -
  let ?P = "\<lambda>i r. if uuid_dash i then r = 0x2D else hex_rune r"
  have "?P i r \<Longrightarrow> r < 0x80" for i r
    by (auto simp: hex_rune_def split: if_splits)
  from runes_ascii_only [of ?P, OF this]
  have "list_all (\<lambda>(i, r). ?P i r) (runes 0 s) \<longleftrightarrow> (\<forall>k < length s. ?P k (byte (s ! k)))"
    by simp
  then show ?thesis
    by (auto simp: is_uuid_def uuid_shape_def hex_rune_byte byte_dash)
qed

text \<open>
  \<open>validSHA256\<close>, which decodes the value and re-encodes it, accepts exactly the strings of 64
  lower-case hexadecimal digits.
\<close>

lemma valid_sha256_iff: "valid_sha256 s \<longleftrightarrow> length s = 64 \<and> list_all lower_hex s"
proof -
  have "(case hex_decode s of None \<Rightarrow> False | Some b \<Rightarrow> hex_encode b = s)
      \<longleftrightarrow> (\<exists>b. hex_decode s = Some b \<and> hex_encode b = s)"
    by (auto split: option.split)
  then show ?thesis
    by (auto simp: valid_sha256_def hex_lower_iff)
qed

lemma uuid_shape_char: "uuid_shape s \<Longrightarrow> i < 36 \<Longrightarrow> s ! i = CHR ''-'' \<or> hex_value (s ! i) \<noteq> None"
  by (auto simp: uuid_shape_def split: if_splits)

lemma hex_value_plain: "hex_value c \<noteq> None \<Longrightarrow> plain c"
  by (auto simp: hex_value_def plain_def is_alpha_def is_digit_def Let_def split: if_splits)

lemma uuid_shape_plain: "uuid_shape s \<Longrightarrow> list_all plain s"
  by (metis (no_types, lifting) byte_dash hex_value_plain insertCI list_all_length plain_def
      uuid_shape_char uuid_shape_def)

lemma is_uuid_plain: "is_uuid s \<Longrightarrow> list_all plain s"
  by (simp add: is_uuid_iff_shape uuid_shape_plain)

subsection \<open>What the validation accepts\<close>

text \<open>An accepted location: absolute, https or s3, with no credentials and no query.\<close>

lemma validate_content_location_None:
  "validate_content_location ipl l = None \<longleftrightarrow>
     (\<exists>u. parse_request_uri ipl l = Some u \<and> u_host u \<noteq> [] \<and> \<not> u_user u \<and> u_raw_query u = []
        \<and> (u_scheme u = ''https'' \<or> u_scheme u = ''s3''))"
  by (auto simp: validate_content_location_def dest: parse_request_uri_fragment
      split: option.splits if_splits)

text \<open>
  The fragment check of \<open>validateContentLocation\<close> never fires: \<open>url.ParseRequestURI\<close> leaves the
  fragment empty and takes \<open>#\<close> as a byte of the path, so a location with a fragment is accepted
  although the error text says it must not contain one.
\<close>

theorem content_location_fragment_accepted:
  "validate_content_location ipl ''https://object.example.invalid/document#page'' = None"
  by (simp add: validate_content_location_None parse_request_uri_def parse_common_def has_ctl_def
      get_scheme_def is_alpha_def parse_rest_def has_prefix_def parse_authority_def cut_last_def
      parse_host_def host_byte_def is_digit_def lower_char_def empty_url_def)

text \<open>The conditions a create request must meet, and those of a validation request.\<close>

definition create_wf :: "(string \<Rightarrow> string option) \<Rightarrow> create_request \<Rightarrow> bool" where
  "create_wf ipl r \<longleftrightarrow>
     uuid_shape (cr_idempotency_key r) \<and> uuid_shape (cr_correlation_id r) \<and>
     \<not> blank_or_longer 128 (cr_tenant_id r) \<and> \<not> blank_or_longer 512 (cr_external_reference r) \<and>
     \<not> blank_or_longer 128 (cr_evidence_type r) \<and>
     length (cr_content_sha256 r) = 64 \<and> list_all lower_hex (cr_content_sha256 r) \<and>
     validate_content_location ipl (cr_content_location r) = None \<and>
     cr_received_at r \<noteq> zero_time \<and> cr_classification r \<in> set valid_classifications"

definition validation_wf :: "validation_request \<Rightarrow> bool" where
  "validation_wf r \<longleftrightarrow>
     v_validation_status r \<in> {StatusValidated, StatusRejected} \<and>
     \<not> blank_or_longer 128 (v_reason_code r) \<and> \<not> blank_or_longer 512 (v_actor_subject_reference r) \<and>
     v_occurred_at r \<noteq> zero_time \<and> uuid_shape (v_correlation_id r)"

lemma create_validate_wf: "create_validate ipl r = None \<longleftrightarrow> create_wf ipl r"
  by (auto simp: create_validate_def create_wf_def is_uuid_iff_shape valid_sha256_iff is_zero_def
      split: option.splits)

lemma validation_validate_wf: "validation_validate r = None \<longleftrightarrow> validation_wf r"
  by (auto simp: validation_validate_def validation_wf_def is_uuid_iff_shape is_zero_def)

lemma not_blank_or_longer: "\<not> blank_or_longer n s \<longleftrightarrow> trim_space s \<noteq> [] \<and> length s \<le> n"
  by (auto simp: blank_or_longer_def)

lemma classification_cases:
  "c \<in> set valid_classifications \<longleftrightarrow>
     c \<in> {''public'', ''internal'', ''confidential'', ''restricted'', ''highly_restricted''}"
  by (simp add: valid_classifications_def)

text \<open>
  (C40) \<open>CreateRequest.Validate\<close> accepts a request exactly if both identifiers have the shape of a UUID;
  tenant, reference and type are not blank and at most 128, 512 and 128 bytes long; the digest is 64
  lower-case hexadecimal digits; the location is a URL with scheme https or s3 and a host, with no
  user information and no query; the time is set; and the classification is one of the five.
\<close>

theorem create_validate_iff:
  "create_validate ipl r = None \<longleftrightarrow>
     uuid_shape (cr_idempotency_key r) \<and> uuid_shape (cr_correlation_id r) \<and>
     (trim_space (cr_tenant_id r) \<noteq> [] \<and> length (cr_tenant_id r) \<le> 128) \<and>
     (trim_space (cr_external_reference r) \<noteq> [] \<and> length (cr_external_reference r) \<le> 512) \<and>
     (trim_space (cr_evidence_type r) \<noteq> [] \<and> length (cr_evidence_type r) \<le> 128) \<and>
     (length (cr_content_sha256 r) = 64 \<and> list_all lower_hex (cr_content_sha256 r)) \<and>
     (\<exists>u. parse_request_uri ipl (cr_content_location r) = Some u \<and>
        (u_scheme u = ''https'' \<or> u_scheme u = ''s3'') \<and> u_host u \<noteq> [] \<and> \<not> u_user u \<and> u_raw_query u = []) \<and>
     cr_received_at r \<noteq> zero_time \<and>
     cr_classification r \<in> {''public'', ''internal'', ''confidential'', ''restricted'', ''highly_restricted''}"
  (is "_ \<longleftrightarrow> ?spec")
proof -
  have "create_validate ipl r = None \<longleftrightarrow> create_wf ipl r" by (rule create_validate_wf)
  also have "\<dots> \<longleftrightarrow> ?spec"
    unfolding create_wf_def not_blank_or_longer classification_cases validate_content_location_None by metis
  finally show ?thesis .
qed

text \<open>
  \<open>ValidationRequest.Validate\<close> returns nil exactly for the well-formed decisions; in particular
  only the two terminal states can be recorded.
\<close>

theorem validation_validate_iff: "validation_validate r = None \<longleftrightarrow> validation_wf r"
  by (rule validation_validate_wf)

end
