(* ===== verification/Evidence_Schema.thy ===== *)
theory Evidence_Schema
  imports Evidence_Model Go_Json
begin

text \<open>
  The PostgreSQL schema of \<open>db/migrations/0001..0004\<close> and the statements that run against it: the
  tables, their CHECK, key and foreign-key constraints, the partial unique index on terminal
  decisions, the immutability trigger and the row-level security of the outbox.

  A statement runs against a database state and gives an error or the new state. The conversion of
  Go values into column values is done by the driver and the server, which are not in the
  repository: it is the parameter \<open>driver\<close>. Transactions run one after the other, so a statement
  sees the state its transaction has reached.
\<close>

subsection \<open>Tables\<close>

text \<open>A row of \<open>evidence_packages\<close> has the columns of \<open>package\<close>.\<close>

record history_row =
  h_validation_history_id :: string
  h_evidence_package_id :: string
  h_prior_validation_status :: "string option"
  h_validation_status :: string
  h_reason_code :: string
  h_actor_subject_reference :: string
  h_occurred_at :: time
  h_correlation_id :: string

record outbox_row =
  o_event_id :: string
  o_evidence_package_id :: string
  o_topic :: string
  o_event_type :: string
  o_payload :: json
  o_created_at :: time
  o_published_at :: "time option"

record database =
  evidence_packages :: "package list"
  evidence_validation_history :: "history_row list"
  evidence_outbox :: "outbox_row list"

definition empty_database :: database where
  "empty_database = \<lparr>evidence_packages = [], evidence_validation_history = [], evidence_outbox = []\<rparr>"

text \<open>
  How the driver and the server store a value: \<open>d_uuid\<close> the canonical text of a UUID parameter,
  \<open>d_storable\<close> whether a text can be stored (it then comes back unchanged), \<open>d_time\<close> a \<open>timestamptz\<close>
  (its precision is below that of Go), \<open>d_jsonb\<close> the value a JSONB column gives back. \<^theory_text>\<open>None\<close> is a
  value that cannot be stored.
\<close>

record driver =
  d_uuid :: "string \<Rightarrow> string option"
  d_storable :: "string \<Rightarrow> bool"
  d_time :: "time \<Rightarrow> time"
  d_jsonb :: "json \<Rightarrow> json option"

definition text_param :: "driver \<Rightarrow> string \<Rightarrow> string option" where
  "text_param d s = (if d_storable d s then Some s else None)"

text \<open>
  What PostgreSQL documents of UUIDs: the text it gives back is the canonical form of the value, 36
  characters with hyphens in the fixed places, and is its own canonical form.
\<close>

definition driver_laws :: "driver \<Rightarrow> bool" where
  "driver_laws d \<longleftrightarrow> (\<forall>u v. d_uuid d u = Some v \<longrightarrow> uuid_shape v \<and> d_uuid d v = Some v)"

subsection \<open>Constraints\<close>

text \<open>\<open>length(trim(x)) > 0\<close>: SQL's \<open>trim\<close> removes spaces only, unlike \<open>strings.TrimSpace\<close>.\<close>

definition sql_not_blank :: "string \<Rightarrow> bool" where
  "sql_not_blank s \<longleftrightarrow> list_ex (\<lambda>c. c \<noteq> CHR '' '') s"

definition status_allowed :: "string \<Rightarrow> bool" where
  "status_allowed s \<longleftrightarrow> s \<in> {''received'', ''validated'', ''rejected''}"

definition terminal_status :: "string \<Rightarrow> bool" where
  "terminal_status s \<longleftrightarrow> s \<in> {''validated'', ''rejected''}"

definition package_checks :: "package \<Rightarrow> bool" where
  "package_checks p \<longleftrightarrow>
     sql_not_blank (p_external_reference p) \<and>
     sql_not_blank (p_evidence_type p) \<and>
     sql_not_blank (p_content_location p) \<and>
     (length (p_content_sha256 p) = 64 \<and> list_all lower_hex (p_content_sha256 p)) \<and>
     status_allowed (p_validation_status p) \<and>
     p_classification p \<in> {''public'', ''internal'', ''confidential'', ''restricted'', ''highly_restricted''} \<and>
     sql_not_blank (p_tenant_id p)"

definition history_checks :: "history_row \<Rightarrow> bool" where
  "history_checks h \<longleftrightarrow>
     status_allowed (h_validation_status h) \<and>
     sql_not_blank (h_reason_code h) \<and>
     sql_not_blank (h_actor_subject_reference h)"

definition outbox_checks :: "outbox_row \<Rightarrow> bool" where
  "outbox_checks r \<longleftrightarrow>
     o_topic r \<in> {''evidence.package.v1'', ''evidence.validation.v1''} \<and>
     o_event_type r \<in> {''evidence.package.received'', ''evidence.validation.recorded''}"

definition package_exists :: "database \<Rightarrow> string \<Rightarrow> bool" where
  "package_exists db i \<longleftrightarrow> i \<in> p_evidence_package_id ` set (evidence_packages db)"

text \<open>\<open>evidence_packages_tenant_idempotency_unique\<close>.\<close>

definition idempotency_taken :: "database \<Rightarrow> string \<Rightarrow> string \<Rightarrow> bool" where
  "idempotency_taken db tenant key \<longleftrightarrow>
     list_ex (\<lambda>p. p_tenant_id p = tenant \<and> p_idempotency_key p = key) (evidence_packages db)"

text \<open>\<open>evidence_validation_history_one_terminal_decision\<close>, the partial unique index of 0002.\<close>

definition terminal_decision_exists :: "database \<Rightarrow> string \<Rightarrow> bool" where
  "terminal_decision_exists db i \<longleftrightarrow>
     list_ex (\<lambda>h. h_evidence_package_id h = i \<and> terminal_status (h_validation_status h))
       (evidence_validation_history db)"

subsection \<open>Statements\<close>

abbreviation violation :: "string \<Rightarrow> 'a result" where
  "violation m \<equiv> Inl (External m)"

text \<open>
  \<open>INSERT ... ON CONFLICT (tenant_id, idempotency_key) DO NOTHING RETURNING\<close>: the row checks come
  first, then the conflict target (no row returned), then the primary key.
\<close>

definition insert_package :: "database \<Rightarrow> package \<Rightarrow> (database \<times> package option) result" where
  "insert_package db p =
     (if \<not> package_checks p then violation ''check constraint''
      else if idempotency_taken db (p_tenant_id p) (p_idempotency_key p) then Inr (db, None)
      else if package_exists db (p_evidence_package_id p) then violation ''evidence_packages_pkey''
      else Inr (db\<lparr>evidence_packages := evidence_packages db @ [p]\<rparr>, Some p))"

definition insert_history :: "database \<Rightarrow> history_row \<Rightarrow> database result" where
  "insert_history db h =
     (if \<not> history_checks h then violation ''check constraint''
      else if h_validation_history_id h \<in> h_validation_history_id ` set (evidence_validation_history db)
      then violation ''evidence_validation_history_pkey''
      else if terminal_status (h_validation_status h)
           \<and> terminal_decision_exists db (h_evidence_package_id h)
      then violation ''evidence_validation_history_one_terminal_decision''
      else if \<not> package_exists db (h_evidence_package_id h) then violation ''foreign key''
      else Inr (db\<lparr>evidence_validation_history := evidence_validation_history db @ [h]\<rparr>))"

text \<open>The outbox is under forced row-level security: only a session with the service flag may write.\<close>

definition insert_outbox :: "bool \<Rightarrow> database \<Rightarrow> outbox_row \<Rightarrow> database result" where
  "insert_outbox service db r =
     (if \<not> service then violation ''row-level security policy''
      else if \<not> outbox_checks r then violation ''check constraint''
      else if o_event_id r \<in> o_event_id ` set (evidence_outbox db) then violation ''evidence_outbox_pkey''
      else if \<not> package_exists db (o_evidence_package_id r) then violation ''foreign key''
      else Inr (db\<lparr>evidence_outbox := evidence_outbox db @ [r]\<rparr>))"

datatype trigger_op = TG_UPDATE | TG_DELETE

text \<open>
  \<open>prevent_evidence_package_mutation\<close> as migration 0004 leaves it: \<^theory_text>\<open>True\<close> when the row operation may
  go on, \<^theory_text>\<open>False\<close> when it raises.
\<close>

definition mutation_allowed :: "trigger_op \<Rightarrow> package \<Rightarrow> package \<Rightarrow> bool" where
  "mutation_allowed op old new \<longleftrightarrow>
     op = TG_UPDATE \<and>
     p_validation_status old = ''received'' \<and>
     p_validation_status new \<in> {''validated'', ''rejected''} \<and>
     p_evidence_package_id new = p_evidence_package_id old \<and>
     p_idempotency_key new = p_idempotency_key old \<and>
     p_tenant_id new = p_tenant_id old \<and>
     p_external_reference new = p_external_reference old \<and>
     p_evidence_type new = p_evidence_type old \<and>
     p_content_sha256 new = p_content_sha256 old \<and>
     p_content_location new = p_content_location old \<and>
     p_received_at new = p_received_at old \<and>
     p_classification new = p_classification old \<and>
     p_correlation_id new = p_correlation_id old \<and>
     p_created_at new = p_created_at old"

text \<open>An UPDATE of the rows that satisfy \<open>sel\<close>: the trigger and the checks run for each of them.\<close>

definition update_packages ::
  "database \<Rightarrow> (package \<Rightarrow> bool) \<Rightarrow> (package \<Rightarrow> package) \<Rightarrow> database result" where
  "update_packages db sel f =
     (if list_ex (\<lambda>p. sel p \<and> \<not> mutation_allowed TG_UPDATE p (f p)) (evidence_packages db)
      then violation ''evidence_packages rows are immutable except the terminal validation_status transition; create validation history instead''
      else if list_ex (\<lambda>p. sel p \<and> \<not> package_checks (f p)) (evidence_packages db)
      then violation ''check constraint''
      else Inr (db\<lparr>evidence_packages := map (\<lambda>p. if sel p then f p else p) (evidence_packages db)\<rparr>))"

text \<open>A DELETE: the trigger raises for every row there is to delete.\<close>

definition delete_packages :: "database \<Rightarrow> (package \<Rightarrow> bool) \<Rightarrow> database result" where
  "delete_packages db sel =
     (if list_ex (\<lambda>p. sel p \<and> \<not> mutation_allowed TG_DELETE p p) (evidence_packages db)
      then violation ''evidence_packages rows are immutable except the terminal validation_status transition; create validation history instead''
      else Inr (db\<lparr>evidence_packages := filter (\<lambda>p. \<not> sel p) (evidence_packages db)\<rparr>))"

text \<open>The publisher's \<open>UPDATE evidence_outbox SET published_at = now()\<close>, under the same policy.\<close>

definition mark_published :: "bool \<Rightarrow> database \<Rightarrow> string \<Rightarrow> time \<Rightarrow> database" where
  "mark_published service db i now =
     (if service then db\<lparr>evidence_outbox := map (\<lambda>r.
        if o_event_id r = i \<and> o_published_at r = None then r\<lparr>o_published_at := Some now\<rparr> else r)
        (evidence_outbox db)\<rparr> else db)"

subsection \<open>What the constraints give\<close>

lemmas [schema_simps] = insert_package_def insert_history_def insert_outbox_def update_packages_def
  mutation_allowed_def package_exists_def idempotency_taken_def terminal_decision_exists_def

lemma status_allowed_iff: "status_allowed s \<longleftrightarrow> s = StatusReceived \<or> terminal_status s"
  by (auto simp: status_allowed_def terminal_status_def status_defs)

lemma terminal_status_iff: "terminal_status s \<longleftrightarrow> s = StatusValidated \<or> s = StatusRejected"
  by (auto simp: terminal_status_def status_defs)

lemma received_not_terminal [simp]: "\<not> terminal_status StatusReceived"
  by (simp add: terminal_status_iff)

text \<open>A text that Go's \<open>TrimSpace\<close> does not blank has a character that SQL's \<open>trim\<close> keeps.\<close>

lemma has_prefix_one: "has_prefix (c # s) [c]"
  by (simp add: has_prefix_def)

lemma trim_with_step:
  "find (has_prefix (c # s)) encs = Some [c'] \<Longrightarrow> trim_with encs (c # s) = trim_with encs s"
  by (simp add: trim_with.simps [of encs "c # s"])

lemma trim_with_spaces: "list_all (\<lambda>c. c = CHR '' '') s \<Longrightarrow> trim_with space_runes s = []"
proof (induction s)
  case Nil
  then show ?case using trim_with_length [of space_runes "[]"] by simp
next
  case (Cons c s)
  then have "find (has_prefix (c # s)) space_runes = Some [CHR '' '']"
    using has_prefix_one [of c s] by (simp add: space_runes_def)
  from trim_with_step [OF this] show ?case using Cons by simp
qed

lemma trim_space_spaces:
  assumes "list_all (\<lambda>c. c = CHR '' '') s"
  shows "trim_space s = []"
proof -
  have "trim_space s = rev (trim_with (map rev space_runes) [])"
    unfolding trim_space_def trim_with_spaces [OF assms] by simp
  then show ?thesis using trim_with_length [of "map rev space_runes" "[]"] by simp
qed

lemma not_sql_not_blank: "\<not> sql_not_blank s \<longleftrightarrow> list_all (\<lambda>c. c = CHR '' '') s"
  by (auto simp: sql_not_blank_def list_ex_iff list_all_iff)

lemma sql_not_blank_trim: "trim_space s \<noteq> [] \<Longrightarrow> sql_not_blank s"
  using trim_space_spaces not_sql_not_blank by blast

lemma sql_not_blank_field: "\<not> blank_or_longer n s \<Longrightarrow> sql_not_blank s"
  by (simp add: blank_or_longer_def sql_not_blank_trim)

lemma get_scheme_space: "get_scheme (CHR '' '' # t) = Some ([], CHR '' '' # t)"
  by (simp add: get_scheme_def is_alpha_def is_digit_def)

lemma parse_request_uri_space: "parse_request_uri ipl (CHR '' '' # t) = None"
proof -
  obtain r q where "cut_at CHR ''?'' (CHR '' '' # t) = (CHR '' '' # r, q)"
    by (cases "cut_at CHR ''?'' t") simp
  then show ?thesis
    by (simp add: parse_request_uri_def parse_common_def get_scheme_space parse_rest_def
        has_prefix_def empty_url_def)
qed

lemma location_not_blank:
  assumes "validate_content_location ipl l = None"
  shows "sql_not_blank l"
proof -
  obtain u where u: "parse_request_uri ipl l = Some u"
    using assms by (auto simp: validate_content_location_None)
  then obtain c t where l: "l = c # t"
    by (cases l) (auto simp: parse_request_uri_def parse_common_def has_ctl_def)
  with u have "c \<noteq> CHR '' ''" by (auto simp: parse_request_uri_space)
  then show ?thesis by (simp add: sql_not_blank_def l)
qed

lemma uuid_shape_not_blank: "uuid_shape u \<Longrightarrow> trim_space u \<noteq> []"
proof -
  assume u: "uuid_shape u"
  have "graphic c" if "plain c" for c
    using that by (auto simp: plain_def graphic_def is_alpha_def is_digit_def)
  then have "list_all graphic u" using uuid_shape_plain [OF u] by (auto simp: list_all_iff)
  then show "trim_space u \<noteq> []" using u by (auto simp: trim_space_all_graphic uuid_shape_def)
qed

text \<open>The history of a package, the rows of the outbox about it.\<close>

definition history_of :: "database \<Rightarrow> string \<Rightarrow> history_row list" where
  "history_of db i = filter (\<lambda>h. h_evidence_package_id h = i) (evidence_validation_history db)"

definition outbox_of :: "database \<Rightarrow> string \<Rightarrow> outbox_row list" where
  "outbox_of db i = filter (\<lambda>r. o_evidence_package_id r = i) (evidence_outbox db)"

lemma terminal_decision_exists_iff:
  "terminal_decision_exists db i \<longleftrightarrow> (\<exists>h \<in> set (history_of db i). terminal_status (h_validation_status h))"
  by (auto simp: terminal_decision_exists_def history_of_def list_ex_iff)

text \<open>
  A DELETE on \<open>evidence_packages\<close> never removes a row: the trigger raises for every row there is
  to delete, so a DELETE that succeeds has found none.
\<close>

theorem delete_packages_no_effect:
  assumes "delete_packages db sel = Inr db'"
  shows "db' = db"
proof -
  have "\<forall>p \<in> set (evidence_packages db). \<not> sel p"
    using assms by (auto simp: delete_packages_def mutation_allowed_def list_ex_iff split: if_splits)
  then have "filter (\<lambda>p. \<not> sel p) (evidence_packages db) = evidence_packages db" by simp
  then show ?thesis using assms by (simp add: delete_packages_def split: if_splits)
qed

text \<open>
  (C39) Whatever an UPDATE on \<open>evidence_packages\<close> tries to assign, the row it leaves is the old one,
  or the old one moved from received to a terminal status with no other column changed.
\<close>

theorem update_packages_immutable:
  assumes "update_packages db sel f = Inr db'"
  shows "\<exists>g. evidence_packages db' = map g (evidence_packages db) \<and>
    (\<forall>p. p \<in> set (evidence_packages db) \<longrightarrow>
       g p = p \<or> (p_validation_status p = StatusReceived \<and>
         (\<exists>s. terminal_status s \<and> g p = p\<lparr>p_validation_status := s\<rparr>)))"
proof (intro exI conjI allI impI)
  let ?g = "\<lambda>p. if sel p then f p else p"
  show "evidence_packages db' = map ?g (evidence_packages db)"
    using assms by (auto simp: update_packages_def split: if_splits)
  fix p assume "p \<in> set (evidence_packages db)"
  then have "sel p \<Longrightarrow> mutation_allowed TG_UPDATE p (f p)"
    using assms by (auto simp: update_packages_def list_ex_iff split: if_splits)
  then have "sel p \<Longrightarrow> p_validation_status p = StatusReceived \<and>
      terminal_status (p_validation_status (f p)) \<and>
      f p = p\<lparr>p_validation_status := p_validation_status (f p)\<rparr>"
    by (cases p, cases "f p") (auto simp: mutation_allowed_def terminal_status_def status_defs)
  then show "?g p = p \<or> (p_validation_status p = StatusReceived \<and>
         (\<exists>s. terminal_status s \<and> ?g p = p\<lparr>p_validation_status := s\<rparr>))"
    by (cases "sel p") auto
qed

end
