(* ===== verification/Go_JsonCodec.thy ===== *)
theory Go_JsonCodec
  imports Go_Json
begin

text \<open>
  Facts about the JSON model: rendering and parsing are inverse on well-formed trees, quoting yields
  a literal the scanner reads back whole, unquoting undoes quoting on UTF-8 text, and the fuel of the
  parser is enough for every text.
\<close>

subsection \<open>Scanning stops at a delimiter\<close>

definition value_end :: "string \<Rightarrow> bool" where
  "value_end r \<longleftrightarrow> r = [] \<or> hd r \<in> {CHR '','', CHR '']'', CHR ''}''}"

lemma value_end_simps [simp]:
  "value_end []" "value_end (CHR '','' # r)" "value_end (CHR '']'' # r)" "value_end (CHR ''}'' # r)"
  by (simp_all add: value_end_def)

lemma value_end_not:
  assumes "value_end r"
  shows "takeWhile is_digit r = []" "dropWhile is_digit r = r"
    "\<not> has_prefix r ''.''" "\<not> has_prefix r ''e''" "\<not> has_prefix r ''E''"
  using assms by (cases r; auto simp: value_end_def has_prefix_def is_digit_def)+

lemma digits_append:
  assumes "value_end r"
  shows "takeWhile is_digit (s @ r) = takeWhile is_digit s"
    and "dropWhile is_digit (s @ r) = dropWhile is_digit s @ r"
  using value_end_not [OF assms] by (induction s) auto

lemma has_prefix_single_append:
  "\<not> has_prefix r [c] \<Longrightarrow> has_prefix (s @ r) [c] = has_prefix s [c]"
  by (cases s) (auto simp: has_prefix_def)

lemma has_prefix_single: "has_prefix s [c] \<longleftrightarrow> (\<exists>t. s = c # t)"
  by (cases s) (auto simp: has_prefix_def)

lemma scan_int_append:
  "scan_int s = Some (i, t) \<Longrightarrow> value_end r \<Longrightarrow> scan_int (s @ r) = Some (i, t @ r)"
  using digits_append [of r s] by (cases s) (auto simp: scan_int_def split: if_splits)

lemma scan_frac_append:
  "scan_frac s = Some (f, t) \<Longrightarrow> value_end r \<Longrightarrow> scan_frac (s @ r) = Some (f, t @ r)"
  using digits_append [of r "tl s"] value_end_not [of r] has_prefix_single_append [of r _ s]
  by (auto simp: scan_frac_def has_prefix_single split: if_splits)

lemma scan_exp_append:
  assumes "scan_exp s = Some (e, t)" and "value_end r"
  shows "scan_exp (s @ r) = Some (e, t @ r)"
proof (cases s)
  case Nil
  with assms show ?thesis using value_end_not [of r] by (auto simp: scan_exp_def has_prefix_def)
next
  case (Cons c s')
  have pm: "has_prefix (s' @ r) [x] = has_prefix s' [x]" if "x \<in> {CHR ''+'', CHR ''-''}" for x
    using assms(2) that by (intro has_prefix_single_append) (cases r; auto simp: value_end_def has_prefix_def)
  show ?thesis
  proof (cases s')
    case Nil
    with Cons assms show ?thesis
      by (auto simp: scan_exp_def has_prefix_def split: if_splits)
  next
    case (Cons d s'')
    with \<open>s = c # s'\<close> assms show ?thesis
      using digits_append [OF assms(2), of s''] digits_append [OF assms(2), of "d # s''"]
      by (auto simp: scan_exp_def has_prefix_def Let_def split: if_splits)
  qed
qed

definition ok_num :: "string \<Rightarrow> bool" where
  "ok_num n \<longleftrightarrow> scan_number n = Some (n, [])"

lemma scan_number_append:
  assumes "ok_num n" and "value_end r"
  shows "scan_number (n @ r) = Some (n, r)"
proof -
  let ?sg = "if has_prefix n ''-'' then ''-'' else []"
  have "n \<noteq> []" using assms(1) by (auto simp: ok_num_def scan_number_def has_prefix_def scan_int_def)
  then have "has_prefix (n @ r) ''-'' = has_prefix n ''-''"
    by (cases n) (auto simp: has_prefix_def)
  moreover have "drop (length ?sg) (n @ r) = drop (length ?sg) n @ r"
    using \<open>n \<noteq> []\<close> by (cases n) auto
  moreover obtain i r1 f r2 e where "scan_int (drop (length ?sg) n) = Some (i, r1)"
    "scan_frac r1 = Some (f, r2)" "scan_exp r2 = Some (e, [])" "?sg @ i @ f @ e = n"
    using assms(1) by (auto simp: ok_num_def scan_number_def Let_def split: Option.bind_splits prod.splits)
  ultimately show ?thesis
    using assms(2)
    by (simp add: scan_number_def Let_def scan_int_append scan_frac_append scan_exp_append)
qed

subsection \<open>String literals\<close>

text \<open>A literal the scanner reads up to the closing quote.\<close>

definition ok_lit :: "string \<Rightarrow> bool" where
  "ok_lit l \<longleftrightarrow> scan_string (l @ [dquote]) = Some (l, [])"

lemma escape_length_append:
  "escape_length s = Some k \<Longrightarrow> escape_length (s @ t) = Some k \<and> k \<le> length s"
  by (cases s) (auto simp: escape_length_def split: if_splits)

lemma scan_string_append: "scan_string s = Some (l, t) \<Longrightarrow> scan_string (s @ r) = Some (l, t @ r)"
proof (induction s arbitrary: l t rule: scan_string.induct)
  case (2 c s)
  show ?case
  proof (cases "c = dquote")
    case True
    with 2(3) show ?thesis by (simp add: scan_string.simps(2))
  next
    case nq: False
    show ?thesis
    proof (cases "c = backslash")
      case True
      with 2(3) nq obtain k l' where k: "escape_length s = Some k"
        and "scan_string (drop k s) = Some (l', t)" and "l = c # take k s @ l'"
        by (auto simp: scan_string.simps(2) split: option.splits)
      with 2(1) [OF nq True k] escape_length_append [OF k, of r] True nq
      show ?thesis by (simp add: scan_string.simps(2))
    next
      case False
      with 2(2-3) nq show ?thesis
        by (auto simp: scan_string.simps(2) split: if_splits)
    qed
  qed
qed simp

lemma ok_lit_scan: "ok_lit l \<Longrightarrow> scan_string (l @ dquote # r) = Some (l, r)"
  using scan_string_append [of "l @ [dquote]" l "[]" r] by (simp add: ok_lit_def)

lemma ok_lit_Nil [simp]: "ok_lit []"
  by (simp add: ok_lit_def scan_string.simps(2))

lemma ok_lit_Cons:
  assumes "c \<noteq> dquote" and "c \<noteq> backslash" and "0x20 \<le> byte c" and "ok_lit l"
  shows "ok_lit (c # l)"
  using assms by (simp add: ok_lit_def scan_string.simps(2))

lemma ok_lit_escape:
  assumes "escape_length (e @ l) = Some (length e)" and "ok_lit l"
  shows "ok_lit (backslash # e @ l)"
proof -
  have "escape_length (e @ l @ [dquote]) = Some (length e)"
    using escape_length_append [OF assms(1), of "[dquote]"] by simp
  then show ?thesis using assms(2) by (simp add: ok_lit_def scan_string.simps(2))
qed

subsection \<open>Parsing what was rendered\<close>

text \<open>Trees whose literals the scanner accepts and whose nesting is at most \<open>d\<close>.\<close>

fun wf_json :: "nat \<Rightarrow> json \<Rightarrow> bool" where
  "wf_json d JNull = True"
| "wf_json d (JBool b) = True"
| "wf_json d (JNum n) = ok_num n"
| "wf_json d (JStr l) = ok_lit l"
| "wf_json 0 (JArr vs) = False"
| "wf_json (Suc d) (JArr vs) = list_all (wf_json d) vs"
| "wf_json 0 (JObj ms) = False"
| "wf_json (Suc d) (JObj ms) = list_all (\<lambda>(k, v). ok_lit k \<and> wf_json d v) ms"

lemma ok_num_head: "ok_num n \<Longrightarrow> \<exists>c t. n = c # t \<and> (is_digit c \<or> c = CHR ''-'')"
  by (cases n) (auto simp: ok_num_def scan_number_def scan_int_def has_prefix_def is_digit_def
      split: if_splits)

lemma render_head:
  "wf_json d j \<Longrightarrow> \<exists>c t. render j = c # t \<and> \<not> is_ws c \<and> c \<noteq> CHR '']'' \<and> c \<noteq> CHR ''}''"
  using ok_num_head by (cases j) (fastforce simp: is_ws_def is_digit_def)+

lemma skip_ws_no: "\<not> is_ws c \<Longrightarrow> skip_ws (c # s) = c # s"
  by (simp add: skip_ws_def)

lemma skip_ws_render: "wf_json d j \<Longrightarrow> skip_ws (render j @ r) = render j @ r"
  using render_head [of d j] by (auto simp: skip_ws_no)

lemma join_Cons: "ps \<noteq> [] \<Longrightarrow> join_with sep (p # ps) = p @ sep @ join_with sep ps"
  by (cases ps) auto

lemma join_head:
  "ps \<noteq> [] \<Longrightarrow> hd ps = c # t \<Longrightarrow> \<exists>u. join_with sep ps = c # u"
  by (cases ps; cases "tl ps") auto

definition value_ok :: "json \<Rightarrow> bool" where
  "value_ok j \<longleftrightarrow> (\<forall>n d r. wf_json d j \<longrightarrow> value_end r \<longrightarrow> 2 * length (render j) \<le> n \<longrightarrow>
     parse_value n d (render j @ r) = Some (j, r))"

lemma value_okD:
  "value_ok j \<Longrightarrow> wf_json d j \<Longrightarrow> value_end r \<Longrightarrow> 2 * length (render j) \<le> n \<Longrightarrow>
     parse_value n d (render j @ r) = Some (j, r)"
  by (auto simp: value_ok_def)

lemma parse_elems_render:
  assumes "vs \<noteq> []" and "\<forall>v \<in> set vs. value_ok v \<and> wf_json d v"
    and "2 * length (join_with '','' (map render vs)) + 1 \<le> n"
  shows "parse_elems n d (join_with '','' (map render vs) @ '']'' @ r) = Some (vs, r)"
  using assms
proof (induction vs arbitrary: n)
  case (Cons v vs)
  then obtain m where n: "n = Suc m" by (cases n) auto
  have v: "value_ok v" "wf_json d v" using Cons.prems by auto
  show ?case
  proof (cases "vs = []")
    case True
    with Cons.prems n v show ?thesis
      by (simp add: value_okD skip_ws_no is_ws_def)
  next
    case False
    let ?t = "join_with '','' (map render vs)"
    have j: "join_with '','' (map render (v # vs)) = render v @ '','' @ ?t"
      using False by (simp add: join_Cons)
    have len: "2 * (length (render v) + 1 + length ?t) \<le> m"
      using Cons.prems(3) unfolding j n by simp
    then have "parse_elems m d (?t @ '']'' @ r) = Some (vs, r)"
      using Cons.prems(2) False by (intro Cons.IH) auto
    moreover have "parse_value m d (render v @ '','' @ ?t @ '']'' @ r) = Some (v, '','' @ ?t @ '']'' @ r)"
      using len by (intro value_okD v) auto
    ultimately show ?thesis
      unfolding j n by (simp add: skip_ws_no is_ws_def)
  qed
qed simp

abbreviation render_member :: "string \<times> json \<Rightarrow> string" where
  "render_member \<equiv> \<lambda>(k, v). dquote # k @ [dquote, CHR '':''] @ render v"

lemma parse_members_render:
  assumes "ms \<noteq> []" and "\<forall>(k, v) \<in> set ms. ok_lit k \<and> value_ok v \<and> wf_json d v"
    and "2 * length (join_with '','' (map render_member ms)) + 1 \<le> n"
  shows "parse_members n d (join_with '','' (map render_member ms) @ ''}'' @ r) = Some (ms, r)"
  using assms
proof (induction ms arbitrary: n)
  case (Cons x ms)
  obtain k v where x: "x = (k, v)" by force
  obtain m where n: "n = Suc m" using Cons.prems by (cases n) auto
  have v: "value_ok v" "wf_json d v" and k: "ok_lit k" using Cons.prems x by auto
  have q: "\<not> is_ws dquote" "\<not> is_ws CHR '':''" "\<not> is_ws CHR '',''" "\<not> is_ws CHR ''}''"
    by (simp_all add: is_ws_def)
  show ?case
  proof (cases "ms = []")
    case True
    with Cons.prems n v k x q show ?thesis
      by (simp add: value_okD skip_ws_no ok_lit_scan has_prefix_def)
  next
    case False
    let ?t = "join_with '','' (map render_member ms)"
    have j: "join_with '','' (map render_member (x # ms)) = render_member x @ '','' @ ?t"
      using False by (simp add: join_Cons)
    have len: "2 * (length (render_member x) + 1 + length ?t) \<le> m"
      using Cons.prems(3) unfolding j n by simp
    then have "parse_members m d (?t @ ''}'' @ r) = Some (ms, r)"
      using Cons.prems(2) False by (intro Cons.IH) auto
    moreover have "parse_value m d (render v @ '','' @ ?t @ ''}'' @ r) = Some (v, '','' @ ?t @ ''}'' @ r)"
      using len x by (intro value_okD v) auto
    ultimately show ?thesis
      unfolding j [unfolded x] n x using q k by (simp add: skip_ws_no ok_lit_scan has_prefix_def)
  qed
qed simp

lemma parse_value_Suc: "2 * length (render j) \<le> n \<Longrightarrow> wf_json d j \<Longrightarrow> \<exists>m. n = Suc m"
  using render_head [of d j] by (cases n) auto

lemma value_okI:
  assumes "\<And>m d r. wf_json d j \<Longrightarrow> value_end r \<Longrightarrow> 2 * length (render j) \<le> Suc m \<Longrightarrow>
     parse_value (Suc m) d (render j @ r) = Some (j, r)"
  shows "value_ok j"
  unfolding value_ok_def using assms parse_value_Suc by metis

lemma value_ok_leaf:
  "value_ok JNull" "value_ok (JBool b)" "value_ok (JNum n)" "value_ok (JStr l)"
proof -
  show "value_ok JNull" "value_ok (JBool b)"
    by (rule value_okI; auto simp: skip_ws_no is_ws_def scan_word_def has_prefix_def)+
  show "value_ok (JStr l)"
    by (rule value_okI) (simp add: skip_ws_no is_ws_def ok_lit_scan)
  show "value_ok (JNum n)"
  proof (rule value_okI)
    fix m d r
    assume "wf_json d (JNum n)" and r: "value_end r"
    then have n: "ok_num n" by simp
    then obtain c t where "n = c # t" and c: "is_digit c \<or> c = CHR ''-''" using ok_num_head by blast
    moreover from c have "c \<notin> {CHR ''{'', CHR ''['', dquote, CHR ''t'', CHR ''f'', CHR ''n''}" "\<not> is_ws c"
      by (auto simp: is_ws_def is_digit_def)
    ultimately show "parse_value (Suc m) d (render (JNum n) @ r) = Some (JNum n, r)"
      using scan_number_append [OF n r]
      by (simp add: skip_ws_no)
  qed
qed

lemma value_ok_arr:
  assumes "\<And>v. v \<in> set vs \<Longrightarrow> value_ok v"
  shows "value_ok (JArr vs)"
proof (rule value_okI)
  fix m d r
  assume wf: "wf_json d (JArr vs)" and len: "2 * length (render (JArr vs)) \<le> Suc m"
  then obtain d' where d: "d = Suc d'" by (cases d) auto
  with wf have wf': "\<forall>v \<in> set vs. value_ok v \<and> wf_json d' v"
    using assms by (auto simp: list_all_iff)
  show "parse_value (Suc m) d (render (JArr vs) @ r) = Some (JArr vs, r)"
  proof (cases vs)
    case Nil
    then show ?thesis using d by (simp add: skip_ws_no is_ws_def has_prefix_def)
  next
    case (Cons v vs')
    then obtain c t where "render v = c # t" "\<not> is_ws c" "c \<noteq> CHR '']''"
      using wf' render_head [of d' v] by auto
    moreover from this obtain u where "join_with '','' (map render vs) = c # u"
      using Cons join_head [of "map render vs" c t] by auto
    ultimately have "\<not> has_prefix (skip_ws (join_with '','' (map render vs) @ '']'' @ r)) '']''"
      by (simp add: skip_ws_no has_prefix_def)
    moreover have "parse_elems m d' (join_with '','' (map render vs) @ '']'' @ r) = Some (vs, r)"
      using wf' len Cons by (intro parse_elems_render) auto
    ultimately show ?thesis using d by (simp add: skip_ws_no is_ws_def)
  qed
qed

lemma value_ok_obj:
  assumes "\<And>k v. (k, v) \<in> set ms \<Longrightarrow> value_ok v"
  shows "value_ok (JObj ms)"
proof (rule value_okI)
  fix m d r
  assume wf: "wf_json d (JObj ms)" and len: "2 * length (render (JObj ms)) \<le> Suc m"
  then obtain d' where d: "d = Suc d'" by (cases d) auto
  with wf have wf': "\<forall>(k, v) \<in> set ms. ok_lit k \<and> value_ok v \<and> wf_json d' v"
    using assms by (auto simp: list_all_iff)
  show "parse_value (Suc m) d (render (JObj ms) @ r) = Some (JObj ms, r)"
  proof (cases ms)
    case Nil
    then show ?thesis using d by (simp add: skip_ws_no is_ws_def has_prefix_def)
  next
    case (Cons x ms')
    then obtain u where "join_with '','' (map render_member ms) = dquote # u"
      using join_head [of "map render_member ms"] by (cases x) auto
    then have "\<not> has_prefix (skip_ws (join_with '','' (map render_member ms) @ ''}'' @ r)) ''}''"
      by (simp add: skip_ws_no is_ws_def has_prefix_def)
    moreover have "parse_members m d' (join_with '','' (map render_member ms) @ ''}'' @ r) = Some (ms, r)"
      using wf' len Cons by (intro parse_members_render) auto
    ultimately show ?thesis using d by (simp add: skip_ws_no is_ws_def)
  qed
qed

lemma value_ok_all: "value_ok j"
proof (induction j)
  case (JArr vs)
  then show ?case by (rule value_ok_arr)
next
  case (JObj ms)
  show ?case
  proof (rule value_ok_obj)
    fix k v
    assume "(k, v) \<in> set ms"
    then show "value_ok v" using JObj [of "(k, v)" v] by simp
  qed
qed (rule value_ok_leaf)+

text \<open>Rendering is undone by parsing, whatever fits the depth Go admits.\<close>

lemma json_all_render: "wf_json max_depth j \<Longrightarrow> json_all (render j) = Some j"
  using value_okD [OF value_ok_all, of max_depth j "[]" "json_fuel (render j)"]
  by (simp add: json_all_def json_fuel_def skip_ws_def)

lemma json_first_render:
  "wf_json max_depth j \<Longrightarrow> value_end r \<Longrightarrow> json_first (render j @ r) = Some j"
  using value_okD [OF value_ok_all, of max_depth j r "json_fuel (render j @ r)"]
  by (simp add: json_first_def json_fuel_def)

subsection \<open>UTF-8 and string literals\<close>

text \<open>The forms of a rune that is not ASCII.\<close>

lemma decode_rune_cases:
  assumes "decode_rune (c # s) = (r, w)" and "\<not> byte c < 0x80"
  obtains (bad) "r = rune_error" "w = 1"
  | (two) c1 t where "s = c1 # t" "0xC2 \<le> byte c" "byte c < 0xE0" "is_cont (byte c1)"
      "r = rune2 (byte c) (byte c1)" "w = 2"
  | (three) c1 c2 t where "s = c1 # c2 # t" "0xE0 \<le> byte c" "byte c < 0xF0" "second_ok (byte c) (byte c1)"
      "is_cont (byte c2)" "r = rune3 (byte c) (byte c1) (byte c2)" "w = 3"
  | (four) c1 c2 c3 t where "s = c1 # c2 # c3 # t" "0xF0 \<le> byte c" "byte c < 0xF5" "second_ok (byte c) (byte c1)"
      "is_cont (byte c2)" "is_cont (byte c3)" "r = rune4 (byte c) (byte c1) (byte c2) (byte c3)" "w = 4"
proof -
  consider "byte c < 0xC2" | "0xC2 \<le> byte c" "byte c < 0xE0" | "0xE0 \<le> byte c" "byte c < 0xF0"
    | "0xF0 \<le> byte c" "byte c < 0xF5" | "0xF5 \<le> byte c" by linarith
  then show thesis
  proof cases
    case 1
    then show ?thesis using assms bad by (simp add: decode_rune.simps(2) Let_def)
  next
    case 2
    then have "(case s of c1 # _ \<Rightarrow> if is_cont (byte c1) then (rune2 (byte c) (byte c1), 2) else (rune_error, 1)
         | _ \<Rightarrow> (rune_error, 1)) = (r, w)"
      using assms by (simp add: decode_rune.simps(2) Let_def del: One_nat_def)
    then show ?thesis using 2 bad two by (cases s) (simp_all split: if_splits)
  next
    case 3
    then have "(case s of c1 # c2 # _ \<Rightarrow> if second_ok (byte c) (byte c1) \<and> is_cont (byte c2)
          then (rune3 (byte c) (byte c1) (byte c2), 3) else (rune_error, 1)
         | _ \<Rightarrow> (rune_error, 1)) = (r, w)"
      using assms by (simp add: decode_rune.simps(2) Let_def del: One_nat_def)
    then show ?thesis using 3 bad three by (simp split: if_splits list.splits)
  next
    case 4
    then have "(case s of c1 # c2 # c3 # _ \<Rightarrow> if second_ok (byte c) (byte c1) \<and> is_cont (byte c2) \<and> is_cont (byte c3)
          then (rune4 (byte c) (byte c1) (byte c2) (byte c3), 4) else (rune_error, 1)
         | _ \<Rightarrow> (rune_error, 1)) = (r, w)"
      using assms by (simp add: decode_rune.simps(2) Let_def del: One_nat_def)
    then show ?thesis using 4 bad four by (simp split: if_splits list.splits)
  next
    case 5
    then show ?thesis using assms bad by (simp add: decode_rune.simps(2) Let_def)
  qed
qed

lemma second_ok_cont: "second_ok b0 b1 \<Longrightarrow> is_cont b1"
  by (auto simp: second_ok_def is_cont_def split: if_splits)

lemma decode_rune_bytes:
  assumes "decode_rune (c # s) = (r, w)" and "\<not> byte c < 0x80"
  shows "list_all (\<lambda>x. 0x80 \<le> byte x) (take w (c # s))"
  using assms(2)
  by (cases rule: decode_rune_cases [OF assms]) (auto simp: is_cont_def dest!: second_ok_cont)

lemma ok_lit_high: "list_all (\<lambda>x. 0x80 \<le> byte x) xs \<Longrightarrow> ok_lit l \<Longrightarrow> ok_lit (xs @ l)"
proof (induction xs)
  case (Cons x xs)
  then have "x \<noteq> dquote" "x \<noteq> backslash" by auto
  then show ?case using Cons by (simp add: ok_lit_Cons)
qed simp


lemma rune2_encode:
  assumes "0xC2 \<le> b0" "b0 < 0xE0" "is_cont b1"
  shows "encode_rune (rune2 b0 b1) = [char_of b0, char_of b1]"
proof -
  obtain x where x: "b0 = 0xC0 + x" "2 \<le> x" "x < 0x20" using assms by (auto simp: le_iff_add)
  obtain y where y: "b1 = 0x80 + y" "y < 64" using assms by (auto simp: is_cont_def le_iff_add)
  have r: "rune2 b0 b1 = x * 64 + y" using x y by (simp add: rune2_def)
  have "0x80 \<le> x * 64 + y" "x * 64 + y < 0x800" using x y by auto
  then show ?thesis using x y unfolding r by (simp add: encode_rune_def Let_def)
qed

text \<open>The 6-bit groups of a number.\<close>

lemma groups:
  fixes x y z :: nat
  assumes "z < 64"
  shows "(x * 64 + z) mod 64 = z" "(x * 64 + z) div 64 = x"
  using assms by simp_all

lemma rune3_horner:
  fixes x y z :: nat
  shows "x * 4096 + y * 64 + z = (x * 64 + y) * 64 + z"
  by simp

lemma rune4_horner:
  fixes w x y z :: nat
  shows "w * 262144 + x * 4096 + y * 64 + z = ((w * 64 + x) * 64 + y) * 64 + z"
  by simp

lemma div_groups:
  fixes r :: nat
  shows "r div 4096 = r div 64 div 64" "r div 262144 = r div 64 div 64 div 64"
  by (simp_all add: div_mult2_eq [symmetric])

lemma rune3_encode:
  assumes "0xE0 \<le> b0" "b0 < 0xF0" "second_ok b0 b1" "is_cont b2"
  shows "encode_rune (rune3 b0 b1 b2) = [char_of b0, char_of b1, char_of b2]"
proof -
  obtain x where x: "b0 = 0xE0 + x" "x < 16" using assms by (auto simp: le_iff_add)
  obtain y where y: "b1 = 0x80 + y" "y < 64"
    using second_ok_cont [OF assms(3)] by (auto simp: is_cont_def le_iff_add)
  obtain z where z: "b2 = 0x80 + z" "z < 64" using assms by (auto simp: is_cont_def le_iff_add)
  define r where "r = (x * 64 + y) * 64 + z"
  have r: "rune3 b0 b1 b2 = r" using x y z by (simp add: rune3_def r_def)
  have s: "x = 0 \<Longrightarrow> 32 \<le> y" "x = 13 \<Longrightarrow> y < 32"
    using assms(3) x y by (auto simp: second_ok_def split: if_splits)
  have lo: "0x800 \<le> r" using s(1) by (cases "x = 0") (auto simp: r_def)
  have hi: "r < 0x10000" using x y z by (auto simp: r_def)
  have su: "\<not> (0xD800 \<le> r \<and> r \<le> 0xDFFF)"
  proof -
    consider "x \<le> 12" | "x = 13" | "14 \<le> x" by linarith
    then show ?thesis using s(2) y z by cases (auto simp: r_def)
  qed
  have "r mod 64 = z" "r div 64 = x * 64 + y" unfolding r_def by (rule groups [OF z(2)])+
  moreover have "(x * 64 + y) mod 64 = y" "(x * 64 + y) div 64 = x" by (rule groups [OF y(2)])+
  moreover have "(0x10FFFF < r \<or> (0xD800 \<le> r \<and> r \<le> 0xDFFF)) = False" using su hi by auto
  ultimately show ?thesis
    using lo hi x(1) y(1) z(1) unfolding r encode_rune_def by (simp only: if_False Let_def div_groups) simp
qed

lemma rune4_encode:
  assumes "0xF0 \<le> b0" "b0 < 0xF5" "second_ok b0 b1" "is_cont b2" "is_cont b3"
  shows "encode_rune (rune4 b0 b1 b2 b3) = [char_of b0, char_of b1, char_of b2, char_of b3]"
proof -
  obtain w where w: "b0 = 0xF0 + w" "w < 5" using assms by (auto simp: le_iff_add)
  obtain x where x: "b1 = 0x80 + x" "x < 64"
    using second_ok_cont [OF assms(3)] by (auto simp: is_cont_def le_iff_add)
  obtain y where y: "b2 = 0x80 + y" "y < 64" using assms by (auto simp: is_cont_def le_iff_add)
  obtain z where z: "b3 = 0x80 + z" "z < 64" using assms by (auto simp: is_cont_def le_iff_add)
  define r where "r = ((w * 64 + x) * 64 + y) * 64 + z"
  have r: "rune4 b0 b1 b2 b3 = r" using w x y z by (simp add: rune4_def r_def)
  have s: "w = 0 \<Longrightarrow> 16 \<le> x" "w = 4 \<Longrightarrow> x < 16"
    using assms(3) w x by (auto simp: second_ok_def split: if_splits)
  have lo: "0x10000 \<le> r" using s(1) by (cases "w = 0") (auto simp: r_def)
  have hi: "r \<le> 0x10FFFF"
    using s(2) w x y z by (cases "w = 4") (auto simp: r_def)
  have "r mod 64 = z" "r div 64 = (w * 64 + x) * 64 + y" unfolding r_def by (rule groups [OF z(2)])+
  moreover have "((w * 64 + x) * 64 + y) mod 64 = y" "((w * 64 + x) * 64 + y) div 64 = w * 64 + x"
    by (rule groups [OF y(2)])+
  moreover have "(w * 64 + x) mod 64 = x" "(w * 64 + x) div 64 = w" by (rule groups [OF x(2)])+
  ultimately show ?thesis
    using lo hi w(1) x(1) y(1) z(1) unfolding r by (simp add: encode_rune_def Let_def div_groups)
qed


text \<open>What was decoded without an error is encoded back to the bytes it came from.\<close>

lemma decode_rune_exact:
  assumes "decode_rune (c # s) = (r, w)" and "\<not> byte c < 0x80" and "\<not> (r = rune_error \<and> w = 1)"
  shows "encode_rune r = take w (c # s)" and "w \<le> Suc (length s)"
    and "decode_rune (take w (c # s) @ t) = (r, w)"
proof -
  have "encode_rune r = take w (c # s) \<and> w \<le> Suc (length s) \<and> decode_rune (take w (c # s) @ t) = (r, w)"
    using assms(1,2)
  proof (cases rule: decode_rune_cases)
    case bad
    then show ?thesis using assms(3) by simp
  next
    case two
    then show ?thesis by (simp add: rune2_encode decode_rune.simps(2))
  next
    case three
    then show ?thesis by (simp add: rune3_encode decode_rune.simps(2))
  next
    case four
    then show ?thesis by (simp add: rune4_encode decode_rune.simps(2))
  qed
  then show "encode_rune r = take w (c # s)" and "w \<le> Suc (length s)"
    and "decode_rune (take w (c # s) @ t) = (r, w)" by simp_all
qed

text \<open>\<open>utf8.ValidString\<close>.\<close>

function utf8 :: "string \<Rightarrow> bool" where
  "utf8 [] = True"
| "utf8 (c # s) =
     (let (r, w) = decode_rune (c # s) in \<not> (r = rune_error \<and> w = 1) \<and> utf8 (drop (w - 1) s))"
  by pat_completeness auto
termination by (relation "measure length") auto

declare utf8.simps(2) [simp del]

lemma escape_length_u:
  "escape_length (CHR ''u'' # a # b # c # d # l) =
     (if is_hex a \<and> is_hex b \<and> is_hex c \<and> is_hex d then Some 5 else None)"
  by (simp add: escape_length_def escape_chars_def)

lemma is_hex_digit: "n < 16 \<Longrightarrow> is_hex (hex_digit n)"
  by (simp add: is_hex_def hex_value_digit)

lemma ok_lit_u:
  assumes "is_hex a" "is_hex b" "is_hex c" "is_hex d" "ok_lit l"
  shows "ok_lit (backslash # CHR ''u'' # a # b # c # d # l)"
  using ok_lit_escape [of "[CHR ''u'', a, b, c, d]" l] assms by (simp add: escape_length_u)

lemma ok_lit_simple:
  assumes "e \<in> set escape_chars" "ok_lit l"
  shows "ok_lit (backslash # e # l)"
proof -
  have "e \<noteq> CHR ''u''" using assms(1) by (auto simp: escape_chars_def)
  then show ?thesis using ok_lit_escape [of "[e]" l] assms by (simp add: escape_length_def)
qed

lemma ok_lit_control:
  assumes "m < 16" "n < 16" "ok_lit l"
  shows "ok_lit (backslash # CHR ''u'' # CHR ''0'' # CHR ''0'' # hex_digit m # hex_digit n # l)"
proof -
  have "is_hex CHR ''0''" by (simp add: is_hex_def hex_value_def)
  then show ?thesis using assms by (simp add: ok_lit_u is_hex_digit)
qed

lemma ok_lit_quote_ascii:
  assumes "byte c < 0x80" and l: "ok_lit l"
  shows "ok_lit (quote_ascii c @ l)"
proof -
  have e: "ok_lit (backslash # e # l)" if "e \<in> set escape_chars" for e
    using ok_lit_simple that l .
  have es: "ok_lit (backslash # dquote # l)" "ok_lit (backslash # backslash # l)"
    "ok_lit (backslash # CHR ''b'' # l)" "ok_lit (backslash # CHR ''f'' # l)"
    "ok_lit (backslash # CHR ''n'' # l)" "ok_lit (backslash # CHR ''r'' # l)"
    "ok_lit (backslash # CHR ''t'' # l)"
    by (rule e, simp add: escape_chars_def)+
  have u: "ok_lit (backslash # CHR ''u'' # CHR ''0'' # CHR ''0''
       # hex_digit (byte c div 16) # hex_digit (byte c mod 16) # l)"
    using ok_lit_control [of "byte c div 16" "byte c mod 16" l] assms by simp
  have p: "c \<noteq> dquote \<Longrightarrow> c \<noteq> backslash \<Longrightarrow> \<not> byte c < 0x20 \<Longrightarrow> ok_lit (c # l)"
    using ok_lit_Cons [of c l] l by simp
  show ?thesis
    unfolding quote_ascii_def using es u p by (auto split: if_split simp del: of_char_eq_iff)
qed

lemma ok_lit_quote: "ok_lit (quote s)"
proof (induction s rule: quote.induct)
  case (2 c s)
  show ?case
  proof (cases "byte c < 0x80")
    case True
    then show ?thesis using 2(1) by (simp add: quote.simps(2) ok_lit_quote_ascii)
  next
    case False
    obtain r w where d: "decode_rune (c # s) = (r, w)" by (cases "decode_rune (c # s)")
    have ih: "ok_lit (quote (drop (w - 1) s))" using 2(2) [OF False d [symmetric] refl] .
    have hx: "is_hex CHR ''f''" "is_hex CHR ''d''" "is_hex CHR ''2''" "is_hex CHR ''0''" "is_hex CHR ''8''" "is_hex CHR ''9''"
      by (simp_all add: is_hex_def hex_value_def)
    show ?thesis
    proof (cases "r = rune_error \<and> w = 1")
      case True
      then show ?thesis using ih False d by (simp add: quote.simps(2) ok_lit_u hx)
    next
      case ok: False
      have "quote (c # s) = (if r = 0x2028 then [backslash] @ ''u2028''
          else if r = 0x2029 then [backslash] @ ''u2029'' else take w (c # s)) @ quote (drop (w - 1) s)"
        using False d ok by (auto simp: quote.simps(2))
      then show ?thesis
        using ok_lit_high [OF decode_rune_bytes [OF d False] ih] ih by (simp add: ok_lit_u hx)
    qed
  qed
qed simp

lemma unquote_u:
  assumes "hex4 [a, b, c, d] = Some u" and "\<not> (0xD800 \<le> u \<and> u < 0xE000)"
  shows "unquote (backslash # CHR ''u'' # a # b # c # d # l) = encode_rune u @ unquote l"
proof -
  have "hex4 (a # b # c # d # l) = Some u" using assms(1) by (simp add: hex4_def)
  then show ?thesis using assms(2) by (auto simp: unquote.simps(2))
qed

lemma unquote_simple:
  "e \<noteq> CHR ''u'' \<Longrightarrow> unquote (backslash # e # l) = simple_escape e # unquote l"
  by (simp add: unquote.simps(2))

lemma hex4_byte:
  "m < 16 \<Longrightarrow> n < 16 \<Longrightarrow> hex4 [CHR ''0'', CHR ''0'', hex_digit m, hex_digit n] = Some (16 * m + n)"
proof -
  have "hex_value CHR ''0'' = Some 0" by (simp add: hex_value_def)
  then show "m < 16 \<Longrightarrow> n < 16 \<Longrightarrow> ?thesis" by (simp add: hex4_def hex_value_digit)
qed

lemma unquote_quote_ascii:
  assumes "byte c < 0x80"
  shows "unquote (quote_ascii c @ l) = c # unquote l"
proof -
  have "16 * (byte c div 16) + byte c mod 16 = byte c" by simp
  moreover have "encode_rune (byte c) = [c]" using assms by (simp add: encode_rune_def)
  ultimately have u: "unquote (backslash # CHR ''u'' # CHR ''0'' # CHR ''0''
       # hex_digit (byte c div 16) # hex_digit (byte c mod 16) # l) = c # unquote l"
    using unquote_u [OF hex4_byte [of "byte c div 16" "byte c mod 16"]] assms by simp
  have p: "c \<noteq> backslash \<Longrightarrow> unquote (c # l) = c # unquote l"
    using assms by (simp add: unquote.simps(2))
  have es: "unquote (backslash # dquote # l) = dquote # unquote l"
    "unquote (backslash # backslash # l) = backslash # unquote l"
    "unquote (backslash # CHR ''b'' # l) = CHR 0x08 # unquote l"
    "unquote (backslash # CHR ''f'' # l) = CHR 0x0C # unquote l"
    "unquote (backslash # CHR ''n'' # l) = CHR 0x0A # unquote l"
    "unquote (backslash # CHR ''r'' # l) = CHR 0x0D # unquote l"
    "unquote (backslash # CHR ''t'' # l) = CHR 0x09 # unquote l"
    by (simp_all add: unquote_simple simple_escape_def)
  show ?thesis
    unfolding quote_ascii_def using es u p by (auto split: if_split simp del: of_char_eq_iff)
qed

lemma unquote_high:
  assumes "decode_rune (c # s) = (r, w)" and hi: "\<not> byte c < 0x80" and "\<not> (r = rune_error \<and> w = 1)"
  shows "unquote (take w (c # s) @ l) = take w (c # s) @ unquote l"
proof -
  note ex = decode_rune_exact [OF assms]
  have w: "0 < w" using decode_rune_width [of c s] assms(1) by simp
  then obtain t where t: "take w (c # s) = c # t" by (cases w) auto
  have "length (take w (c # s)) = w" using ex(2) by simp
  then have lt: "length t = w - 1" using t by simp
  have "c \<noteq> backslash" using hi by auto
  moreover have "decode_rune (c # t @ l) = (r, w)" using ex(3) [of l] t by simp
  ultimately have "unquote (c # t @ l) = encode_rune r @ unquote l"
    using hi lt by (simp add: unquote.simps(2))
  then show ?thesis using ex(1) t by simp
qed

lemma unquote_quote: "utf8 s \<Longrightarrow> unquote (quote s) = s"
proof (induction s rule: quote.induct)
  case (2 c s)
  show ?case
  proof (cases "byte c < 0x80")
    case True
    then have "utf8 s" using 2(3) by (simp add: utf8.simps(2) decode_rune_ascii)
    then show ?thesis using 2(1) True by (simp add: quote.simps(2) unquote_quote_ascii)
  next
    case False
    obtain r w where d: "decode_rune (c # s) = (r, w)" by (cases "decode_rune (c # s)")
    then have ok: "\<not> (r = rune_error \<and> w = 1)" and u: "utf8 (drop (w - 1) s)"
      using 2(3) by (auto simp: utf8.simps(2))
    have ih: "unquote (quote (drop (w - 1) s)) = drop (w - 1) s" using 2(2) [OF False d [symmetric] refl u] .
    have "0 < w" using decode_rune_width [of c s] d by simp
    then have split: "take w (c # s) @ drop (w - 1) s = c # s" by (cases w) simp_all
    have h: "hex4 ''2028'' = Some 0x2028" "hex4 ''2029'' = Some 0x2029"
      by (simp_all add: hex4_def hex_value_def)
    have "quote (c # s) = (if r = 0x2028 then [backslash] @ ''u2028''
          else if r = 0x2029 then [backslash] @ ''u2029'' else take w (c # s)) @ quote (drop (w - 1) s)"
      using False d ok by (auto simp: quote.simps(2))
    then have "unquote (quote (c # s)) = encode_rune r @ drop (w - 1) s"
      using unquote_u [OF h(1)] unquote_u [OF h(2)] unquote_high [OF d False ok] decode_rune_exact(1) [OF d False ok] ih
      by auto
    then show ?thesis using split decode_rune_exact(1) [OF d False ok] by simp
  qed
qed simp

lemma quote_unquote_quote: "utf8 s \<Longrightarrow> quote (unquote (quote s)) = quote s"
  by (simp add: unquote_quote)

lemma norm_jstr: "utf8 s \<Longrightarrow> norm (jstr s) = jstr s"
  by (simp add: jstr_def unquote_quote)

lemma wf_json_jstr [simp]: "wf_json d (jstr s)"
  by (simp add: jstr_def ok_lit_quote)

lemma utf8_ascii: "list_all (\<lambda>c. byte c < 0x80) s \<Longrightarrow> utf8 s"
  by (induction s) (simp_all add: utf8.simps(2) decode_rune_ascii rune_error_def)

subsection \<open>Normal forms are well formed\<close>

text \<open>Trees without numbers, and trees that nest at most \<open>d\<close> deep.\<close>

fun number_free :: "json \<Rightarrow> bool" where
  "number_free (JNum n) = False"
| "number_free (JArr vs) = list_all number_free vs"
| "number_free (JObj ms) = list_all (\<lambda>(k, v). number_free v) ms"
| "number_free _ = True"

fun fits :: "nat \<Rightarrow> json \<Rightarrow> bool" where
  "fits d (JArr vs) \<longleftrightarrow> 0 < d \<and> list_all (fits (d - 1)) vs"
| "fits d (JObj ms) \<longleftrightarrow> 0 < d \<and> list_all (\<lambda>(k, v). fits (d - 1) v) ms"
| "fits d _ \<longleftrightarrow> True"

lemma fits_mono: "fits d j \<Longrightarrow> d \<le> d' \<Longrightarrow> fits d' j"
proof (induction d j arbitrary: d' rule: fits.induct)
  case (1 d vs)
  then show ?case by (auto simp: list_all_iff)
next
  case (2 d ms)
  have "fits (d' - 1) v" if "(k, v) \<in> set ms" for k v
    using 2(1) [OF that refl, of "d' - 1"] 2(2,3) that by (auto simp: list_all_iff)
  then show ?case using 2(2,3) by (auto simp: list_all_iff)
qed simp_all

text \<open>Normalising quotes every literal afresh, so only the numbers and the depth matter.\<close>

lemma wf_json_norm: "number_free j \<Longrightarrow> fits d j \<Longrightarrow> wf_json d (norm j)"
proof (induction j arbitrary: d)
  case (JArr vs)
  then obtain n where "d = Suc n" by (cases d) auto
  then show ?case using JArr by (auto simp: list_all_iff)
next
  case (JObj ms)
  then obtain n where n: "d = Suc n" by (cases d) auto
  have "ok_lit (quote k) \<and> wf_json n v"
    if "(k, v) \<in> set (go_map (map (\<lambda>(k, v). (unquote k, v)) (map (map_prod id norm) ms)))" for k v
  proof -
    have "(k, v) \<in> set (map (\<lambda>(k, v). (unquote k, v)) (map (map_prod id norm) ms))"
      using that set_go_map by blast
    then obtain k' w where w: "(k', w) \<in> set ms" "v = norm w" by auto
    then have "wf_json n (norm w)"
      using JObj.IH [of "(k', w)" w n] JObj.prems n by (auto simp: list_all_iff)
    then show ?thesis using w(2) by (simp add: ok_lit_quote)
  qed
  then show ?case unfolding n by (auto simp: list_all_iff)
qed (simp_all add: ok_lit_quote)

subsection \<open>The fuel of the parser\<close>

lemma skip_ws_length: "length (skip_ws s) \<le> length s"
  by (simp add: skip_ws_def length_dropWhile_le)

lemma scan_string_length: "scan_string s = Some (lit, r) \<Longrightarrow> length r \<le> length s"
proof (induction s arbitrary: lit rule: scan_string.induct)
  case (2 c s)
  have "length (drop k s) \<le> length s" for k by simp
  then show ?case
    using "2.prems" "2.IH" by (fastforce simp: scan_string.simps(2) intro: le_trans split: if_splits option.splits)
qed simp

lemma scan_int_length: "scan_int s = Some (i, r) \<Longrightarrow> length r \<le> length s"
  using length_dropWhile_le [of is_digit s] by (auto simp: scan_int_def split: list.splits if_splits)

lemma scan_frac_length: "scan_frac s = Some (i, r) \<Longrightarrow> length r \<le> length s"
  using length_dropWhile_le [of is_digit "tl s"] by (auto simp: scan_frac_def split: if_splits)

lemma scan_exp_length: "scan_exp s = Some (i, r) \<Longrightarrow> length r \<le> length s"
proof -
  have "length (dropWhile is_digit (drop k (tl s))) \<le> length s" for k
    using length_dropWhile_le [of is_digit "drop k (tl s)"] by simp
  note len = this this [of 0, simplified]
  show "scan_exp s = Some (i, r) \<Longrightarrow> length r \<le> length s"
    using len by (auto simp: scan_exp_def Let_def split: if_splits)
qed

lemma scan_number_length:
  assumes "scan_number s = Some (i, r)"
  shows "length r \<le> length s"
proof -
  obtain k i r1 f r2 e where "scan_int (drop k s) = Some (i, r1)" "scan_frac r1 = Some (f, r2)" "scan_exp r2 = Some (e, r)"
    using assms by (auto simp: scan_number_def Let_def split: Option.bind_splits prod.splits)
  then show ?thesis using scan_int_length scan_frac_length scan_exp_length by (metis length_drop diff_le_self le_trans)
qed

lemma scan_word_length: "scan_word w v s = Some (x, r) \<Longrightarrow> length r \<le> length s"
  by (auto simp: scan_word_def split: if_splits)

lemmas scan_lengths = scan_string_length scan_number_length scan_word_length skip_ws_length

text \<open>Parsing consumes text.\<close>

lemma skip_ws_Cons: "skip_ws s = c # r \<Longrightarrow> Suc (length r) \<le> length s"
  by (metis length_Cons skip_ws_length)

lemma parse_length:
  "parse_value n d s = Some (v, r) \<Longrightarrow> length r \<le> length s"
  "parse_elems n d s = Some (vs, r) \<Longrightarrow> length r \<le> length s"
  "parse_members n d s = Some (ms, r) \<Longrightarrow> length r \<le> length s"
proof (induction n d s and n d s and n d s arbitrary: v r and vs r and ms r
    rule: parse_value_parse_elems_parse_members.induct)
  case (2 n d s)
  obtain c t where s: "skip_ws s = c # t" using "2.prems" by (auto split: list.splits)
  have tl: "length (tl (skip_ws t)) \<le> length t" using skip_ws_length [of t] by simp
  have "length r \<le> Suc (length t)"
    using "2.prems" tl "2.IH" [OF s] scan_string_length [of t] scan_number_length [of "c # t"]
      scan_word_length [of _ _ "c # t"]
    by (fastforce simp: s le_SucI split: if_splits)
  then show ?case using skip_ws_Cons [OF s] by simp
next
  case (4 n d s)
  obtain v t where v: "parse_value n d s = Some (v, t)" using "4.prems" by (auto split: Option.bind_splits)
  obtain c u where u: "skip_ws t = c # u" using "4.prems" v by (auto split: list.splits)
  have "length r \<le> length u" using "4.prems" "4.IH"(2) [OF v refl u] by (auto simp: v u split: if_splits)
  then show ?case using "4.IH"(1) [OF v] skip_ws_Cons [OF u] by simp
next
  case (6 n d s)
  obtain t where q: "skip_ws s = dquote # t" using "6.prems" by (auto split: list.splits if_splits)
  obtain k r1 where k: "scan_string t = Some (k, r1)" "has_prefix (skip_ws r1) '':''"
    using "6.prems" q by (auto split: Option.bind_splits if_splits)
  obtain v r2 where v: "parse_value n d (tl (skip_ws r1)) = Some (v, r2)"
    using "6.prems" q k by (auto split: Option.bind_splits)
  obtain c u where u: "skip_ws r2 = c # u" using "6.prems" q k v by (auto split: list.splits)
  have "length r \<le> length u" using "6.prems" "6.IH"(2) [OF q _ k(1) refl _ v refl u] by (auto simp: q k v u split: if_splits)
  moreover have "length r2 \<le> length (tl (skip_ws r1))" using "6.IH"(1) [OF q _ k(1) refl _ v] k(2) by simp
  ultimately show ?case
    using skip_ws_Cons [OF u] skip_ws_Cons [OF q] scan_string_length [OF k(1)] skip_ws_length [of r1] by simp
qed simp_all

text \<open>Each step uses its recursive calls on shorter texts only.\<close>

lemma parse_value_cong:
  assumes "\<And>d t. length t < length s \<Longrightarrow> parse_members m d t = parse_members n d t"
    and "\<And>d t. length t < length s \<Longrightarrow> parse_elems m d t = parse_elems n d t"
  shows "parse_value (Suc m) d s = parse_value (Suc n) d s"
proof (cases "skip_ws s")
  case (Cons c t)
  then have "length t < length s" using skip_ws_Cons by (simp add: Suc_le_eq)
  then show ?thesis by (simp only: parse_value.simps(2) assms Cons list.case)
qed simp

lemma parse_elems_cong:
  assumes "parse_value m d s = parse_value n d s"
    and "\<And>t. length t < length s \<Longrightarrow> parse_elems m d t = parse_elems n d t"
  shows "parse_elems (Suc m) d s = parse_elems (Suc n) d s"
proof (cases "parse_value n d s")
  case (Some p)
  obtain x t where p: "p = (x, t)" by force
  have "parse_elems m d u = parse_elems n d u" if u: "skip_ws t = c # u" for c u
    using skip_ws_Cons [OF u] parse_length(1) [OF Some [unfolded p]] by (intro assms(2)) simp
  then show ?thesis using assms(1) Some p by (simp split: list.splits)
qed (simp add: assms(1))

lemma parse_members_cong:
  assumes "\<And>t. length t < length s \<Longrightarrow> parse_value m d t = parse_value n d t"
    and "\<And>t. length t < length s \<Longrightarrow> parse_members m d t = parse_members n d t"
  shows "parse_members (Suc m) d s = parse_members (Suc n) d s"
proof (cases "\<exists>t k r1. skip_ws s = dquote # t \<and> scan_string t = Some (k, r1) \<and> has_prefix (skip_ws r1) '':''")
  case False
  then show ?thesis by (auto split: list.splits Option.bind_splits)
next
  case True
  then obtain t k r1 where q: "skip_ws s = dquote # t" and k: "scan_string t = Some (k, r1)" "has_prefix (skip_ws r1) '':''"
    by blast
  have len: "length (tl (skip_ws r1)) < length s"
    using skip_ws_Cons [OF q] scan_string_length [OF k(1)] skip_ws_length [of r1] by simp
  note v = assms(1) [OF len]
  show ?thesis
  proof (cases "parse_value n d (tl (skip_ws r1))")
    case (Some p)
    obtain x r2 where p: "p = (x, r2)" by force
    have "parse_members m d u = parse_members n d u" if u: "skip_ws r2 = c # u" for c u
      using skip_ws_Cons [OF u] parse_length(1) [OF Some [unfolded p]] len by (intro assms(2)) simp
    then show ?thesis using v Some p by (simp add: q k split: list.splits)
  qed (simp add: q k v)
qed

text \<open>With enough fuel the result does not depend on it.\<close>

lemma parse_fuel:
  "(2 * length s < m \<longrightarrow> 2 * length s < n \<longrightarrow> parse_value m d s = parse_value n d s) \<and>
   (Suc (2 * length s) < m \<longrightarrow> Suc (2 * length s) < n \<longrightarrow>
      parse_elems m d s = parse_elems n d s \<and> parse_members m d s = parse_members n d s)"
proof (induction m arbitrary: n d s)
  case (Suc m)
  show ?case
  proof (cases n)
    case n: (Suc n')
    have shorter: "parse_elems m e t = parse_elems n' e t \<and> parse_members m e t = parse_members n' e t"
      if "length t < length s" "2 * length s < Suc m" "2 * length s < n" for e t
      using Suc.IH [of t n' e] that n by simp
    have here: "parse_value m d s = parse_value n' d s" "length t < length s \<Longrightarrow> parse_value m d t = parse_value n' d t"
      if "Suc (2 * length s) < Suc m" "Suc (2 * length s) < n" for t
      using Suc.IH [of s n' d] Suc.IH [of t n' d] that n by simp_all
    show ?thesis
      using shorter here unfolding n
      by (auto intro!: parse_value_cong parse_elems_cong parse_members_cong simp del: parse_value.simps
          parse_elems.simps parse_members.simps)
  qed simp
qed simp

text \<open>So \<open>json_fuel\<close> is enough for any text: a value that is not parsed is not one.\<close>

lemma json_fuel_enough: "json_fuel s \<le> n \<Longrightarrow> parse_value n d s = parse_value (json_fuel s) d s"
  using parse_fuel [of s n "json_fuel s" d] by (simp add: json_fuel_def)

end
