(* ===== verification/Event_Signing.thy ===== *)
theory Event_Signing
  imports Go_JsonCodec Go_Time
begin

text \<open>
  \<open>internal/events/signing.go\<close> and the envelope type of \<open>envelope.go\<close>: loading the Ed25519 key, the
  JWS over the canonical envelope, and its verification. Ed25519 and the RFC 8785 canonicaliser are
  parameters (\<open>libs\<close>); everything around them (encodings, JSON, the header checks) is the code.
  The quoted argument of a \<open>%q\<close> verb is left out of error texts.
\<close>

record libs =
  l_new_key :: "string \<Rightarrow> string"                      \<comment> \<open>\<open>ed25519.NewKeyFromSeed\<close>\<close>
  l_sign :: "string \<Rightarrow> string \<Rightarrow> string"               \<comment> \<open>\<open>ed25519.Sign\<close>: private key, message\<close>
  l_verify :: "string \<Rightarrow> string \<Rightarrow> string \<Rightarrow> bool"     \<comment> \<open>\<open>ed25519.Verify\<close>: public key, message, signature\<close>
  l_jcs :: "string \<Rightarrow> string option"                   \<comment> \<open>\<open>jsoncanonicalizer.Transform\<close>\<close>

text \<open>
  The documented behaviour of Ed25519: a key from a seed has 64 bytes, its second half is the public
  key, and the signatures it makes verify under that public key.
\<close>

definition ed25519_laws :: "libs \<Rightarrow> bool" where
  "ed25519_laws L \<longleftrightarrow>
     (\<forall>seed. length seed = 32 \<longrightarrow>
        length (l_new_key L seed) = 64 \<and>
        (\<forall>m. l_verify L (drop 32 (l_new_key L seed)) m (l_sign L (l_new_key L seed) m)))"

subsection \<open>Keys\<close>

text \<open>\<open>ParsePrivateKey\<close>: the first decoder that yields 32 or 64 bytes decides.\<close>

definition key_decoders :: "(string \<Rightarrow> string option) list" where
  "key_decoders = [b64_decode True False, b64_decode True True, b64_decode False False,
     b64_decode False True, hex_decode]"

fun try_decoders :: "libs \<Rightarrow> (string \<Rightarrow> string option) list \<Rightarrow> string \<Rightarrow> string result" where
  "try_decoders L [] encoded =
     Inl (Error ''envelope signing private key must be base64 or hex of 32 or 64 bytes'')"
| "try_decoders L (dec # ds) encoded =
     (case dec encoded of
        None \<Rightarrow> try_decoders L ds encoded
      | Some raw \<Rightarrow>
          if length raw = 32 then Inr (l_new_key L raw)
          else if length raw = 64 then Inr raw
          else try_decoders L ds encoded)"

definition parse_private_key :: "libs \<Rightarrow> string \<Rightarrow> string result" where
  "parse_private_key L encoded0 =
     (let encoded = trim_space encoded0 in
      if encoded = [] then Inl (Error ''envelope signing private key is empty'')
      else try_decoders L key_decoders encoded)"

record signer =
  s_private_key :: string
  s_kid :: string

definition key_id_prefix :: string where "key_id_prefix = ''maritime-evidence-''"

text \<open>\<open>privateKey.Public()\<close>: the second half of the 64 bytes.\<close>

definition public_key :: "string \<Rightarrow> string" where
  "public_key sk = drop 32 sk"

definition new_signer :: "string \<Rightarrow> string \<Rightarrow> signer result" where
  "new_signer private_key key_epoch0 =
     (if length private_key \<noteq> 64 then Inl (Error ''envelope signing private key must be 64 bytes'')
      else if length (public_key private_key) \<noteq> 32
      then Inl (Error ''envelope signing private key has no valid public half'')
      else let key_epoch = trim_space key_epoch0 in
        if key_epoch = [] then Inl (Error ''envelope signing key epoch is required'')
        else if \<not> list_all (\<lambda>(i, digit). 0x30 \<le> digit \<and> digit \<le> 0x39) (runes 0 key_epoch)
        then Inl (Error ''envelope signing key epoch must be decimal digits'')
        else Inr \<lparr>s_private_key = private_key, s_kid = key_id_prefix @ key_epoch\<rparr>)"

definition valid_key_id :: "string \<Rightarrow> bool" where
  "valid_key_id kid \<longleftrightarrow>
     \<not> (kid = [] \<or> 128 < length kid \<or> trim_space kid \<noteq> kid) \<and>
     list_all (\<lambda>(i, c). 0x21 \<le> c \<and> c \<le> 0x7E) (runes 0 kid)"

definition new_signer_with_key_id :: "string \<Rightarrow> string \<Rightarrow> signer result" where
  "new_signer_with_key_id private_key kid =
     (if length private_key \<noteq> 64 then Inl (Error ''envelope signing private key must be 64 bytes'')
      else if length (public_key private_key) \<noteq> 32
      then Inl (Error ''envelope signing private key has no valid public half'')
      else if \<not> valid_key_id kid
      then Inl (Error ''JWS kid must be canonical printable text of at most 128 characters'')
      else Inr \<lparr>s_private_key = private_key, s_kid = kid\<rparr>)"

text \<open>\<open>SignerFromEnv\<close> over the environment's variables; an unset variable is the empty string.\<close>

definition signing_key_env :: string where
  "signing_key_env = ''EVIDENCE_ENVELOPE_SIGNING_PRIVATE_KEY''"
definition signing_key_epoch_env :: string where
  "signing_key_epoch_env = ''EVIDENCE_ENVELOPE_SIGNING_KEY_EPOCH''"

definition signer_from_env :: "libs \<Rightarrow> (string \<Rightarrow> string) \<Rightarrow> signer result" where
  "signer_from_env L env =
     (if env signing_key_env = [] then Inl (Error (signing_key_env @ '' must be set''))
      else case parse_private_key L (env signing_key_env) of
             Inl err \<Rightarrow> Inl (Wrap signing_key_env err)
           | Inr private_key \<Rightarrow>
               if env signing_key_epoch_env = []
               then Inl (Error (signing_key_epoch_env @ '' must be set''))
               else case new_signer private_key (env signing_key_epoch_env) of
                      Inl err \<Rightarrow> Inl (Wrap signing_key_epoch_env err)
                    | Inr signer \<Rightarrow> Inr signer)"

definition signer_public_key :: "signer \<Rightarrow> string" where
  "signer_public_key s = public_key (s_private_key s)"

subsection \<open>The envelope\<close>

record provenance =
  pr_principal_id :: string
  pr_principal_role :: string
  pr_signature :: string
  pr_ledger_commit_hash :: string

text \<open>\<open>FHIR\<close> is a raw JSON message, held as its syntax tree.\<close>

record envelope =
  e_envelope_version :: string
  e_event_id :: string
  e_event_type :: string
  e_occurred_at :: time
  e_producer :: string
  e_correlation_id :: string
  e_classification :: string
  e_fhir :: json
  e_provenance :: provenance

definition provenance_json :: "provenance \<Rightarrow> json" where
  "provenance_json p =
     JObj ([(''principalId'', jstr (pr_principal_id p)), (''principalRole'', jstr (pr_principal_role p)),
            (''signature'', jstr (pr_signature p))]
       @ (if pr_ledger_commit_hash p = [] then []
          else [(''ledgerCommitHash'', jstr (pr_ledger_commit_hash p))]))"

text \<open>\<open>json.Marshal\<close> of the envelope; it fails when the year of \<open>occurredAt\<close> is out of range.\<close>

definition marshal_envelope :: "envelope \<Rightarrow> json result" where
  "marshal_envelope e =
     (case marshal_time (e_occurred_at e) of
        None \<Rightarrow> Inl (External ''Time.MarshalJSON: year outside of range [0,9999]'')
      | Some t \<Rightarrow> Inr (JObj
          [(''envelopeVersion'', jstr (e_envelope_version e)), (''eventId'', jstr (e_event_id e)),
           (''eventType'', jstr (e_event_type e)), (''occurredAt'', jstr t),
           (''producer'', jstr (e_producer e)), (''correlationId'', jstr (e_correlation_id e)),
           (''classification'', jstr (e_classification e)), (''fhir'', e_fhir e),
           (''provenance'', provenance_json (e_provenance e))]))"

text \<open>\<open>delete(provenance, "signature")\<close> on the generic value.\<close>

definition drop_signature :: "json \<Rightarrow> json option" where
  "drop_signature v =
     (case v of
        JObj ms \<Rightarrow>
          (case map_of ms ''provenance'' of
             Some (JObj ps) \<Rightarrow>
               Some (JObj (map (\<lambda>(k, w). if k = ''provenance''
                  then (k, JObj (filter (\<lambda>(k', _). k' \<noteq> ''signature'') ps)) else (k, w)) ms))
           | _ \<Rightarrow> None)
      | _ \<Rightarrow> None)"

definition canonical_payload :: "libs \<Rightarrow> envelope \<Rightarrow> string result" where
  "canonical_payload L e =
     (case marshal_envelope e of
        Inl err \<Rightarrow> Inl (Wrap ''encode envelope for signing'' err)
      | Inr raw \<Rightarrow>
          (case drop_signature (norm raw) of
             None \<Rightarrow> Inl (Error ''envelope provenance block is missing'')
           | Some stripped \<Rightarrow>
               (case l_jcs L (render stripped) of
                  None \<Rightarrow> Inl (Wrap ''JCS-canonicalize envelope'' (External ''jcs''))
                | Some canonical \<Rightarrow> Inr canonical)))"

subsection \<open>Sign and verify\<close>

definition signing_algorithm :: string where "signing_algorithm = ''EdDSA''"

definition protected_header_json :: "string \<Rightarrow> string" where
  "protected_header_json kid = render (JObj [(''alg'', jstr signing_algorithm), (''kid'', jstr kid)])"

definition sign :: "libs \<Rightarrow> signer \<Rightarrow> envelope \<Rightarrow> string result" where
  "sign L s e =
     (case canonical_payload L e of
        Inl err \<Rightarrow> Inl err
      | Inr canonical \<Rightarrow>
          (let header64 = raw_url_encode (protected_header_json (s_kid s));
               payload64 = raw_url_encode canonical;
               signing_input = header64 @ ''.'' @ payload64;
               signature = l_sign L (s_private_key s) signing_input in
           Inr (signing_input @ ''.'' @ raw_url_encode signature)))"

definition verify_with_key_id_prefix ::
  "libs \<Rightarrow> envelope \<Rightarrow> string \<Rightarrow> string \<Rightarrow> go_error option" where
  "verify_with_key_id_prefix L e pk kid_prefix =
     (if kid_prefix = [] then Some (Error ''a JWS kid prefix is required (fail closed)'')
      else if length pk \<noteq> 32
      then Some (Error ''verification public key must be a valid Ed25519 key'')
      else case split_on CHR ''.'' (pr_signature (e_provenance e)) of
        [h, p, sg] \<Rightarrow>
          (case raw_url_decode h of
             None \<Rightarrow> Some (Wrap ''decode JWS protected header'' (External ''illegal base64 data''))
           | Some header \<Rightarrow>
               (case Option.bind (json_all header) (decode_strings False [''alg'', ''kid'']) of
                  None \<Rightarrow> Some (Wrap ''parse JWS protected header'' (External ''json''))
                | Some parsed \<Rightarrow>
                    if parsed ''alg'' \<noteq> signing_algorithm then Some (Error ''JWS alg is not EdDSA'')
                    else if \<not> has_prefix (parsed ''kid'') kid_prefix
                    then Some (Error ''JWS kid does not carry the required prefix'')
                    else (case raw_url_decode sg of
                        None \<Rightarrow> Some (Wrap ''decode JWS signature'' (External ''illegal base64 data''))
                      | Some signature \<Rightarrow>
                          (case canonical_payload L e of
                             Inl err \<Rightarrow> Some err
                           | Inr canonical \<Rightarrow>
                               if raw_url_encode canonical \<noteq> p
                               then Some (Error ''envelope does not match the signed canonical payload'')
                               else if \<not> l_verify L pk (h @ ''.'' @ p) signature
                               then Some (Error ''JWS signature verification failed'')
                               else None))))
      | _ \<Rightarrow> Some (Error ''provenance signature is not a JWS compact serialization''))"

definition verify :: "libs \<Rightarrow> envelope \<Rightarrow> string \<Rightarrow> go_error option" where
  "verify L e pk = verify_with_key_id_prefix L e pk key_id_prefix"

subsection \<open>Keys: every documented encoding is accepted\<close>

definition key_encodings :: "(string \<Rightarrow> string) list" where
  "key_encodings = [b64_encode True False, b64_encode True True, b64_encode False False,
     b64_encode False True, hex_encode]"

text \<open>A decoder is safe on a text for a key if it fails, finds the key, or finds a useless length.\<close>

definition key_safe :: "string \<Rightarrow> (string \<Rightarrow> string option) \<Rightarrow> string \<Rightarrow> bool" where
  "key_safe raw dec t \<longleftrightarrow>
     (\<forall>b. dec t = Some b \<longrightarrow> b = raw \<or> (length b \<noteq> 32 \<and> length b \<noteq> 64))"

definition key_of :: "libs \<Rightarrow> string \<Rightarrow> string" where
  "key_of L raw = (if length raw = 32 then l_new_key L raw else raw)"

lemma try_decoders_safe:
  assumes "length raw = 32 \<or> length raw = 64"
    and "\<forall>dec \<in> set ds. key_safe raw dec t" and "\<exists>dec \<in> set ds. dec t = Some raw"
  shows "try_decoders L ds t = Inr (key_of L raw)"
  using assms(2,3)
proof (induction ds)
  case (Cons dec ds)
  show ?case
  proof (cases "dec t = Some raw")
    case True
    then show ?thesis using assms(1) by (auto simp: key_of_def)
  next
    case False
    then have "try_decoders L (dec # ds) t = try_decoders L ds t"
      using Cons.prems(1) by (auto simp: key_safe_def split: option.split)
    moreover have "\<exists>dec \<in> set ds. dec t = Some raw" using Cons.prems(2) False by auto
    ultimately show ?thesis using Cons.IH Cons.prems(1) by simp
  qed
qed simp

lemma key_safe_b64:
  assumes "length raw = 32 \<or> length raw = 64"
  shows "key_safe raw (b64_decode u p) (b64_encode v q raw)"
proof -
  let ?t = "b64_encode v q raw"
  have "b = raw" if "b64_groups u p ?t = Some b" for b
  proof (cases "p = q")
    case True
    then show ?thesis using that b64_groups_other by blast
  next
    case False
    show ?thesis
    proof (cases p)
      case True
      then have "length ?t mod 4 = 0" using that b64_groups_padded_length by simp
      then show ?thesis using assms False True by (auto simp: b64_encode_length)
    next
      case not_padded: False
      then have "pad_char \<notin> set ?t" using that b64_groups_pad by simp
      then show ?thesis using assms not_padded False b64_padded [of raw v] by auto
    qed
  qed
  then show ?thesis by (simp add: key_safe_def b64_decode_graphic b64_encode_graphic)
qed

lemma hex_value_graphic: "hex_value c \<noteq> None \<Longrightarrow> c \<noteq> pad_char"
  by (auto simp: hex_value_def)

lemma hex_encode_graphic: "list_all graphic (hex_encode b)"
  using hex_encode_lower [of b] by (auto simp: list_all_iff lower_hex_graphic)

lemma hex_encode_no_pad: "pad_char \<notin> set (hex_encode b)"
proof -
  have "\<not> lower_hex pad_char" by (simp add: lower_hex_def)
  then show ?thesis using hex_encode_lower [of b] by (auto simp: list_all_iff)
qed

lemma key_safe_b64_hex:
  assumes "length raw = 32 \<or> length raw = 64"
  shows "key_safe raw (b64_decode u p) (hex_encode raw)"
proof -
  have "length b \<noteq> 32 \<and> length b \<noteq> 64" if "b64_groups u p (hex_encode raw) = Some b" for b
    using b64_groups_length [OF that hex_encode_no_pad] assms by auto
  then show ?thesis by (auto simp: key_safe_def b64_decode_graphic hex_encode_graphic)
qed

lemma key_safe_hex:
  assumes "length raw = 32 \<or> length raw = 64"
  shows "key_safe raw hex_decode (b64_encode v q raw)"
proof -
  have "length b \<noteq> 32 \<and> length b \<noteq> 64" if "hex_decode (b64_encode v q raw) = Some b" for b
    using hex_decode_length [OF that] assms by (auto simp: b64_encode_length split: if_splits)
  then show ?thesis by (auto simp: key_safe_def)
qed

text \<open>
  (C37) \<open>ParsePrivateKey\<close> recovers a key from every encoding its documentation names: whichever of the
  five encodings a 32-byte seed or a 64-byte key is given in, and whatever white space surrounds it,
  the decoders that are tried first do not mistake it for another key.
\<close>

theorem parse_private_key_encoded:
  assumes "enc \<in> set key_encodings" and "length raw = 32 \<or> length raw = 64"
    and "trim_space text = enc raw"
  shows "parse_private_key L text = Inr (if length raw = 32 then l_new_key L raw else raw)"
proof -
  have "\<forall>dec \<in> set key_decoders. key_safe raw dec (b64_encode v q raw)" for v q
    by (simp add: key_decoders_def key_safe_b64 [OF assms(2)] key_safe_hex [OF assms(2)])
  moreover have "key_safe raw hex_decode (hex_encode raw)" by (simp add: key_safe_def)
  then have "\<forall>dec \<in> set key_decoders. key_safe raw dec (hex_encode raw)"
    by (simp add: key_decoders_def key_safe_b64_hex [OF assms(2)])
  moreover have enc: "enc = hex_encode \<or> (\<exists>v q. enc = b64_encode v q)"
    using assms(1) unfolding key_encodings_def list.set insert_iff by blast
  ultimately have "\<forall>dec \<in> set key_decoders. key_safe raw dec (enc raw)" by metis
  moreover have "\<exists>dec \<in> set key_decoders. dec (enc raw) = Some raw"
  proof -
    have "b64_decode v q \<in> set key_decoders" for v q
      by (cases v; cases q) (simp_all add: key_decoders_def)
    moreover have "hex_decode \<in> set key_decoders" by (simp add: key_decoders_def)
    ultimately show ?thesis using enc by (metis b64_decode_encode hex_decode_encode)
  qed
  ultimately have keys: "try_decoders L key_decoders (enc raw) = Inr (key_of L raw)"
    using try_decoders_safe [OF assms(2)] by (simp add: key_of_def)
  have "b64_encode v q raw \<noteq> []" for v q
    using b64_encode_length [of v q raw] assms(2) by (auto split: if_splits)
  moreover have "hex_encode raw \<noteq> []" using assms(2) by (cases raw) auto
  ultimately have "enc raw \<noteq> []" using enc by auto
  then show ?thesis using keys assms(3) by (simp add: parse_private_key_def key_of_def)
qed

lemma parse_private_key_encoded_witness:
  "\<forall>L. parse_private_key L (CHR '' '' # hex_encode (replicate 32 CHR ''k'') @ [CHR 0x0A])
     = Inr (l_new_key L (replicate 32 CHR ''k''))"
proof
  fix L
  have "hex_encode \<in> set key_encodings" by (simp add: key_encodings_def)
  moreover have "trim_space (CHR '' '' # hex_encode (replicate 32 CHR ''k'') @ [CHR 0x0A])
      = hex_encode (replicate 32 CHR ''k'')"
    by code_simp
  ultimately show "parse_private_key L (CHR '' '' # hex_encode (replicate 32 CHR ''k'') @ [CHR 0x0A])
     = Inr (l_new_key L (replicate 32 CHR ''k''))"
    using parse_private_key_encoded [of hex_encode "replicate 32 CHR ''k''"] by simp
qed

subsection \<open>The canonical payload\<close>

lemma norm_envelope:
  "norm (JObj [(''envelopeVersion'', a), (''eventId'', b), (''eventType'', c), (''occurredAt'', d),
     (''producer'', e), (''correlationId'', f), (''classification'', g), (''fhir'', h), (''provenance'', i)])
   = JObj [(''classification'', norm g), (''correlationId'', norm f), (''envelopeVersion'', norm a),
     (''eventId'', norm b), (''eventType'', norm c), (''fhir'', norm h), (''occurredAt'', norm d),
     (''producer'', norm e), (''provenance'', norm i)]"
  by code_simp

lemma norm_provenance:
  "norm (JObj [(''principalId'', a), (''principalRole'', b), (''signature'', c)])
     = JObj [(''principalId'', norm a), (''principalRole'', norm b), (''signature'', norm c)]"
  "norm (JObj [(''principalId'', a), (''principalRole'', b), (''signature'', c), (''ledgerCommitHash'', d)])
     = JObj [(''ledgerCommitHash'', norm d), (''principalId'', norm a), (''principalRole'', norm b), (''signature'', norm c)]"
  by code_simp+

lemma drop_signature_envelope:
  "drop_signature (JObj [(''classification'', g), (''correlationId'', f), (''envelopeVersion'', a),
     (''eventId'', b), (''eventType'', c), (''fhir'', h), (''occurredAt'', d),
     (''producer'', e), (''provenance'', JObj ps)])
   = Some (JObj [(''classification'', g), (''correlationId'', f), (''envelopeVersion'', a),
     (''eventId'', b), (''eventType'', c), (''fhir'', h), (''occurredAt'', d),
     (''producer'', e), (''provenance'', JObj (filter (\<lambda>(k, _). k \<noteq> ''signature'') ps))])"
  by (simp add: drop_signature_def)

text \<open>What is signed: every field of the envelope but the signature, keys sorted.\<close>

definition signed_provenance :: "provenance \<Rightarrow> json" where
  "signed_provenance p =
     JObj ((if pr_ledger_commit_hash p = [] then []
            else [(''ledgerCommitHash'', norm (jstr (pr_ledger_commit_hash p)))])
       @ [(''principalId'', norm (jstr (pr_principal_id p))), (''principalRole'', norm (jstr (pr_principal_role p)))])"

definition signed_content :: "envelope \<Rightarrow> string \<Rightarrow> json" where
  "signed_content e t = JObj
     [(''classification'', norm (jstr (e_classification e))),
      (''correlationId'', norm (jstr (e_correlation_id e))),
      (''envelopeVersion'', norm (jstr (e_envelope_version e))),
      (''eventId'', norm (jstr (e_event_id e))), (''eventType'', norm (jstr (e_event_type e))),
      (''fhir'', norm (e_fhir e)), (''occurredAt'', norm (jstr t)),
      (''producer'', norm (jstr (e_producer e))), (''provenance'', signed_provenance (e_provenance e))]"

lemma provenance_is_object: "\<exists>ps. norm (provenance_json p) = JObj ps \<and>
    JObj (filter (\<lambda>(k, _). k \<noteq> ''signature'') ps) = signed_provenance p"
  by (cases "pr_ledger_commit_hash p = []")
    (simp_all add: provenance_json_def norm_provenance signed_provenance_def del: norm.simps)

lemma canonical_payload_eq:
  "canonical_payload L e =
     (case marshal_time (e_occurred_at e) of
        None \<Rightarrow> Inl (Wrap ''encode envelope for signing''
                  (External ''Time.MarshalJSON: year outside of range [0,9999]''))
      | Some t \<Rightarrow>
          (case l_jcs L (render (signed_content e t)) of
             None \<Rightarrow> Inl (Wrap ''JCS-canonicalize envelope'' (External ''jcs''))
           | Some canonical \<Rightarrow> Inr canonical))"
proof (cases "marshal_time (e_occurred_at e)")
  case None
  then show ?thesis by (simp add: canonical_payload_def marshal_envelope_def)
next
  case (Some t)
  obtain ps where ps: "norm (provenance_json (e_provenance e)) = JObj ps"
    "JObj (filter (\<lambda>(k, _). k \<noteq> ''signature'') ps) = signed_provenance (e_provenance e)"
    using provenance_is_object by blast
  obtain raw where raw: "marshal_envelope e = Inr raw"
    and "drop_signature (norm raw) = Some (signed_content e t)"
    using Some ps by (simp add: marshal_envelope_def norm_envelope drop_signature_envelope
        signed_content_def del: norm.simps)
  then show ?thesis using Some by (simp add: canonical_payload_def)
qed

text \<open>The payload that is signed does not depend on the signature that is later put in.\<close>

lemma canonical_payload_signature:
  "canonical_payload L (e\<lparr>e_provenance := (e_provenance e)\<lparr>pr_signature := sg\<rparr>\<rparr>) = canonical_payload L e"
proof -
  have same: "signed_content (e\<lparr>e_provenance := (e_provenance e)\<lparr>pr_signature := sg\<rparr>\<rparr>) t = signed_content e t" for t
    by (simp add: signed_content_def signed_provenance_def)
  show ?thesis unfolding canonical_payload_eq same by simp
qed

subsection \<open>A signature verifies\<close>

lemma split_jws:
  "split_on CHR ''.'' (raw_url_encode a @ ''.'' @ raw_url_encode b @ ''.'' @ raw_url_encode c)
     = [raw_url_encode a, raw_url_encode b, raw_url_encode c]"
proof -
  have "split_on CHR ''.'' (raw_url_encode c) = [raw_url_encode c]"
    by (rule split_on_notin) (rule b64_encode_no_dot)
  then show ?thesis
    by (simp add: split_on_append b64_encode_no_dot)
qed

lemma ok_lit_graphic: "list_all (\<lambda>c. graphic c \<and> c \<noteq> dquote \<and> c \<noteq> backslash) s \<Longrightarrow> ok_lit s"
  by (induction s) (auto intro!: ok_lit_Cons simp: graphic_def)

lemma header_wf: "wf_json max_depth (JObj [(''alg'', jstr signing_algorithm), (''kid'', jstr kid)])"
proof -
  have d: "max_depth = Suc 9999" by (simp add: max_depth_def)
  have "ok_lit ''alg''" "ok_lit ''kid''" by (simp_all add: ok_lit_graphic graphic_def)
  then show ?thesis unfolding d wf_json.simps by simp
qed

lemma plain_unquote: "unquote ''alg'' = ''alg''" "unquote ''kid'' = ''kid''"
  by code_simp+

lemma header_decodes:
  assumes "utf8 kid"
  shows "\<exists>f. Option.bind (json_all (protected_header_json kid)) (decode_strings False [''alg'', ''kid'']) = Some f
     \<and> f ''alg'' = signing_algorithm \<and> f ''kid'' = kid"
proof -
  have "utf8 signing_algorithm" by (simp add: signing_algorithm_def utf8_ascii)
  then show ?thesis
    using assms json_all_render [OF header_wf, of kid]
    by (simp add: protected_header_json_def decode_strings_def field_of_def plain_unquote jstr_def unquote_quote)
qed

text \<open>A key identifier a signer can have: the prefix and decimal digits.\<close>

lemma new_signer_kid:
  assumes "new_signer sk epoch = Inr s"
  shows "s_private_key s = sk" "length sk = 64" "has_prefix (s_kid s) key_id_prefix" "utf8 (s_kid s)"
proof -
  have ep: "list_all (\<lambda>(i, digit). 0x30 \<le> digit \<and> digit \<le> 0x39) (runes 0 (trim_space epoch))"
    and s: "s = \<lparr>s_private_key = sk, s_kid = key_id_prefix @ trim_space epoch\<rparr>" and "length sk = 64"
    using assms by (auto simp: new_signer_def Let_def split: if_splits)
  then show "s_private_key s = sk" "length sk = 64" "has_prefix (s_kid s) key_id_prefix" by simp_all
  have "list_all (\<lambda>c. 0x30 \<le> byte c \<and> byte c \<le> 0x39) (trim_space epoch)"
    using ep runes_ascii_list_all [of "\<lambda>r. 0x30 \<le> r \<and> r \<le> 0x39" 0 "trim_space epoch"] by simp
  then have "list_all (\<lambda>c. byte c < 0x80) (key_id_prefix @ trim_space epoch)"
    by (auto simp: key_id_prefix_def list_all_iff)
  then show "utf8 (s_kid s)" using s utf8_ascii by simp
qed

lemma sign_verifies:
  assumes "ed25519_laws L" and "length seed = 32"
    and "new_signer (l_new_key L seed) epoch = Inr s" and "sign L s e = Inr sg"
  shows "verify L (e\<lparr>e_provenance := (e_provenance e)\<lparr>pr_signature := sg\<rparr>\<rparr>) (signer_public_key s) = None"
proof -
  note kid = new_signer_kid [OF assms(3)]
  obtain canonical where c: "canonical_payload L e = Inr canonical"
    and sg: "sg = raw_url_encode (protected_header_json (s_kid s)) @ ''.'' @ raw_url_encode canonical @ ''.''
       @ raw_url_encode (l_sign L (s_private_key s)
           (raw_url_encode (protected_header_json (s_kid s)) @ ''.'' @ raw_url_encode canonical))"
    using assms(4) by (auto simp: sign_def Let_def split: sum.splits)
  obtain f where f: "Option.bind (json_all (protected_header_json (s_kid s))) (decode_strings False [''alg'', ''kid'']) = Some f"
    "f ''alg'' = signing_algorithm" "f ''kid'' = s_kid s"
    using header_decodes [OF kid(4)] by blast
  have pk: "length (signer_public_key s) = 32" "signer_public_key s = drop 32 (l_new_key L seed)"
    using kid(1,2) by (simp_all add: signer_public_key_def public_key_def)
  have "l_verify L (signer_public_key s) m (l_sign L (s_private_key s) m)" for m
    using assms(1,2) kid(1) pk(2) by (simp add: ed25519_laws_def)
  moreover have "key_id_prefix \<noteq> []" by (simp add: key_id_prefix_def)
  moreover have "split_on CHR ''.'' sg = [raw_url_encode (protected_header_json (s_kid s)), raw_url_encode canonical,
       raw_url_encode (l_sign L (s_private_key s)
           (raw_url_encode (protected_header_json (s_kid s)) @ ''.'' @ raw_url_encode canonical))]"
    unfolding sg by (rule split_jws)
  ultimately show ?thesis
    unfolding verify_def verify_with_key_id_prefix_def canonical_payload_signature
    using pk(1) f c kid(3) by simp
qed

text \<open>
  (C13) What \<open>Sign\<close> produces verifies: for any key that comes from a seed and any epoch the signer
  accepts, the envelope with the signature put in passes \<open>Verify\<close> under the signer's public key,
  through the split at the dots, both base64 layers, the header and the re-canonicalisation.
\<close>

theorem sign_then_verify:
  assumes "ed25519_laws L" and "length seed = 32"
    and "new_signer (l_new_key L seed) epoch = Inr s" and "sign L s e = Inr sg"
  shows "verify L (e\<lparr>e_provenance := (e_provenance e)\<lparr>pr_signature := sg\<rparr>\<rparr>) (signer_public_key s) = None"
  using assms by (rule sign_verifies)

subsection \<open>A signature binds the envelope\<close>

text \<open>
  RFC 8785 gives different values different canonical forms, numbers aside (\<open>1.0\<close> and \<open>1\<close> are one
  number to it).
\<close>

definition jcs_laws :: "libs \<Rightarrow> bool" where
  "jcs_laws L \<longleftrightarrow>
     (\<forall>a b c. number_free a \<and> number_free b \<and>
        wf_json max_depth (norm a) \<and> wf_json max_depth (norm b) \<and>
        l_jcs L (render (norm a)) = Some c \<and> l_jcs L (render (norm b)) = Some c \<longrightarrow> norm a = norm b)"

text \<open>
  What Go's encoder writes for a generic value without numbers: every literal is one that it quoted, so
  it is UTF-8 and has no lone surrogate, and no object has a key twice.
\<close>

fun encoded_json :: "json \<Rightarrow> bool" where
  "encoded_json (JStr l) \<longleftrightarrow> (\<exists>s. l = quote s)"
| "encoded_json (JArr vs) \<longleftrightarrow> list_all encoded_json vs"
| "encoded_json (JObj ms) \<longleftrightarrow> distinct (map (unquote \<circ> fst) ms) \<and>
     list_all (\<lambda>(k, v). (\<exists>s. k = quote s) \<and> encoded_json v) ms"
| "encoded_json (JNum n) \<longleftrightarrow> False"
| "encoded_json _ \<longleftrightarrow> True"

text \<open>
  RFC 8785 defines the canonical form of every such object. Texts it must refuse (a repeated key, a lone
  surrogate, bytes that are not UTF-8), bare scalars and numbers are left out of the law.
\<close>

definition jcs_total :: "libs \<Rightarrow> bool" where
  "jcs_total L \<longleftrightarrow> (\<forall>ms. encoded_json (JObj ms) \<and> wf_json max_depth (JObj ms) \<longrightarrow>
     l_jcs L (render (JObj ms)) \<noteq> None)"

text \<open>Decoding into generic values and encoding them again gives such a value, if the keys are UTF-8.\<close>

fun utf8_keys :: "json \<Rightarrow> bool" where
  "utf8_keys (JArr vs) \<longleftrightarrow> list_all utf8_keys vs"
| "utf8_keys (JObj ms) \<longleftrightarrow> list_all (\<lambda>(k, v). utf8 (unquote k) \<and> utf8_keys v) ms"
| "utf8_keys _ \<longleftrightarrow> True"

lemma distinct_go_map: "distinct (map fst (go_map ms))"
  using sorted_keys_go_map [of ms] by (simp add: sorted_keys_def strict_sorted_iff)

lemma encoded_norm: "number_free j \<Longrightarrow> utf8_keys j \<Longrightarrow> encoded_json (norm j)"
proof (induction j)
  case (JArr vs)
  then show ?case by (auto simp: list_all_iff)
next
  case (JObj ms)
  let ?m = "go_map (map (\<lambda>(k, v). (unquote k, v)) (map (map_prod id norm) ms))"
  have member: "utf8 k \<and> encoded_json v" if kv: "(k, v) \<in> set ?m" for k v
  proof -
    have "(k, v) \<in> set (map (\<lambda>(k, v). (unquote k, v)) (map (map_prod id norm) ms))"
      using set_go_map kv by blast
    then obtain k' v' where *: "(k', v') \<in> set ms" "k = unquote k'" "v = norm v'" by auto
    then show ?thesis using JObj.IH [of "(k', v')" v'] JObj.prems by (auto simp: list_all_iff)
  qed
  let ?q = "map (\<lambda>(k, v). (quote k, v)) ?m"
  have keys: "map (unquote \<circ> fst) ?q = map fst ?m"
    unfolding map_map by (rule map_cong) (use member unquote_quote in auto)
  have "distinct (map (unquote \<circ> fst) ?q)" unfolding keys by (rule distinct_go_map)
  moreover have "list_all (\<lambda>(k, v). (\<exists>s. k = quote s) \<and> encoded_json v) ?q"
    using member by (auto simp: list_all_iff)
  moreover have "norm (JObj ms) = JObj ?q" by simp
  ultimately show ?case by (simp only: encoded_json.simps)
qed auto

text \<open>The names of the envelope's members.\<close>

lemma envelope_names_utf8:
  "list_all (\<lambda>k. utf8 (unquote k)) [''envelopeVersion'', ''eventId'', ''eventType'', ''occurredAt'', ''producer'',
     ''correlationId'', ''classification'', ''fhir'', ''provenance'', ''principalId'', ''principalRole'',
     ''ledgerCommitHash'']"
  by code_simp

definition unsigned_json :: "envelope \<Rightarrow> string \<Rightarrow> json" where
  "unsigned_json e t = JObj
     [(''envelopeVersion'', jstr (e_envelope_version e)), (''eventId'', jstr (e_event_id e)),
      (''eventType'', jstr (e_event_type e)), (''occurredAt'', jstr t),
      (''producer'', jstr (e_producer e)), (''correlationId'', jstr (e_correlation_id e)),
      (''classification'', jstr (e_classification e)), (''fhir'', e_fhir e),
      (''provenance'', (let p = e_provenance e in
         if pr_ledger_commit_hash p = []
         then JObj [(''principalId'', jstr (pr_principal_id p)), (''principalRole'', jstr (pr_principal_role p))]
         else JObj [(''ledgerCommitHash'', jstr (pr_ledger_commit_hash p)),
                    (''principalId'', jstr (pr_principal_id p)), (''principalRole'', jstr (pr_principal_role p))]))]"

lemma norm_unsigned_provenance:
  "norm (JObj [(''principalId'', a), (''principalRole'', b)])
     = JObj [(''principalId'', norm a), (''principalRole'', norm b)]"
  "norm (JObj [(''ledgerCommitHash'', d), (''principalId'', a), (''principalRole'', b)])
     = JObj [(''ledgerCommitHash'', norm d), (''principalId'', norm a), (''principalRole'', norm b)]"
  by code_simp+

lemma signed_content_norm: "signed_content e t = norm (unsigned_json e t)"
  by (simp add: unsigned_json_def norm_envelope signed_content_def signed_provenance_def Let_def
      norm_unsigned_provenance del: norm.simps)

lemma number_free_unsigned: "number_free (e_fhir e) \<Longrightarrow> number_free (unsigned_json e t)"
  by (simp add: unsigned_json_def jstr_def Let_def)

lemma utf8_keys_unsigned: "utf8_keys (e_fhir e) \<Longrightarrow> utf8_keys (unsigned_json e t)"
  using envelope_names_utf8 by (simp add: unsigned_json_def jstr_def Let_def)

lemma wf_json_Suc: "wf_json (Suc d) (JObj ms) \<longleftrightarrow> list_all (\<lambda>(k, v). ok_lit k \<and> wf_json d v) ms"
  by simp

lemma envelope_keys:
  "ok_lit ''classification''" "ok_lit ''correlationId''" "ok_lit ''envelopeVersion''" "ok_lit ''eventId''"
  "ok_lit ''eventType''" "ok_lit ''fhir''" "ok_lit ''occurredAt''" "ok_lit ''producer''"
  "ok_lit ''provenance''" "ok_lit ''principalId''" "ok_lit ''principalRole''" "ok_lit ''ledgerCommitHash''"
  by (rule ok_lit_graphic, simp add: graphic_def)+

lemma signed_content_wf:
  assumes "wf_json 9999 (norm (e_fhir e))"
  shows "wf_json max_depth (norm (unsigned_json e t))"
proof -
  have d: "max_depth = Suc 9999" "Suc 9998 = 9999" by (simp_all add: max_depth_def)
  have s: "wf_json k (norm (jstr u))" for k u by (simp add: jstr_def ok_lit_quote)
  have "wf_json (Suc 9998) (signed_provenance (e_provenance e))"
    unfolding signed_provenance_def wf_json_Suc by (simp add: s envelope_keys)
  then have "wf_json 9999 (signed_provenance (e_provenance e))" unfolding d(2) .
  then show ?thesis
    using assms unfolding signed_content_norm [symmetric] signed_content_def d(1) wf_json_Suc
    by (simp add: s envelope_keys)
qed

lemma number_free_norm: "number_free j \<Longrightarrow> number_free (norm j)"
proof (induction j)
  case (JArr vs)
  then show ?case by (auto simp: list_all_iff)
next
  case (JObj ms)
  have "number_free v"
    if "(k, v) \<in> set (go_map (map (\<lambda>(k, v). (unquote k, v)) (map (map_prod id norm) ms)))" for k v
  proof -
    have "(k, v) \<in> set (map (\<lambda>(k, v). (unquote k, v)) (map (map_prod id norm) ms))"
      using that set_go_map by blast
    then obtain k' w where "(k', w) \<in> set ms" "v = norm w" by auto
    then show ?thesis using JObj.IH [of "(k', w)" w] JObj.prems by (auto simp: list_all_iff)
  qed
  then show ?case by (auto simp: list_all_iff)
qed simp_all

text \<open>The payload of an envelope with a printable date exists.\<close>

lemma canonical_payload_total:
  assumes "jcs_total L" and "marshal_time (e_occurred_at e) = Some t"
    and "number_free (e_fhir e)" and "utf8_keys (e_fhir e)" and "wf_json 9999 (norm (e_fhir e))"
  shows "\<exists>c. canonical_payload L e = Inr c"
proof -
  have "encoded_json (norm (unsigned_json e t))"
    by (rule encoded_norm [OF number_free_unsigned [OF assms(3)] utf8_keys_unsigned [OF assms(4)]])
  moreover have "\<exists>ms. norm (unsigned_json e t) = JObj ms" by (simp add: unsigned_json_def)
  ultimately have "l_jcs L (render (signed_content e t)) \<noteq> None"
    using assms(1) signed_content_wf [OF assms(5), of t]
    unfolding jcs_total_def signed_content_norm by metis
  then show ?thesis using assms(2) by (auto simp: canonical_payload_eq)
qed

text \<open>What an accepted signature consists of.\<close>

lemma verify_parts:
  assumes "verify_with_key_id_prefix L e pk kid_prefix = None"
  shows "kid_prefix \<noteq> [] \<and> length pk = 32 \<and>
    (\<exists>h p sg header f signature canonical.
       split_on CHR ''.'' (pr_signature (e_provenance e)) = [h, p, sg] \<and>
       raw_url_decode h = Some header \<and>
       Option.bind (json_all header) (decode_strings False [''alg'', ''kid'']) = Some f \<and>
       f ''alg'' = signing_algorithm \<and> has_prefix (f ''kid'') kid_prefix \<and>
       raw_url_decode sg = Some signature \<and> canonical_payload L e = Inr canonical \<and>
       p = raw_url_encode canonical \<and> l_verify L pk (h @ ''.'' @ p) signature)"
proof -
  have pre: "kid_prefix \<noteq> [] \<and> length pk = 32"
    using assms unfolding verify_with_key_id_prefix_def by (auto split: if_splits)
  then obtain h p sg where parts: "split_on CHR ''.'' (pr_signature (e_provenance e)) = [h, p, sg]"
    using assms unfolding verify_with_key_id_prefix_def by (auto split: list.splits)
  with pre assms show ?thesis
    unfolding verify_with_key_id_prefix_def by (auto split: option.splits sum.splits if_splits)
qed

definition envelope_utf8 :: "envelope \<Rightarrow> bool" where
  "envelope_utf8 e \<longleftrightarrow>
     list_all utf8 [e_envelope_version e, e_event_id e, e_event_type e, e_producer e,
       e_correlation_id e, e_classification e, pr_principal_id (e_provenance e),
       pr_principal_role (e_provenance e), pr_ledger_commit_hash (e_provenance e)]"

text \<open>An envelope of UTF-8 text whose bundle has no numbers and nests less deep than the decoder admits.\<close>

definition envelope_ok :: "envelope \<Rightarrow> bool" where
  "envelope_ok e \<longleftrightarrow>
     envelope_utf8 e \<and> number_free (e_fhir e) \<and> wf_json 9999 (norm (e_fhir e))"

lemma jstr_eq: "utf8 s \<Longrightarrow> utf8 t \<Longrightarrow> norm (jstr s) = norm (jstr t) \<longleftrightarrow> s = t"
  by (metis json.inject(3) jstr_def norm_jstr unquote_quote)

lemma signed_content_eq:
  assumes "signed_content e t = signed_content e' t'" and "envelope_utf8 e" "envelope_utf8 e'"
  shows "e_envelope_version e = e_envelope_version e'" "e_event_id e = e_event_id e'"
    "e_event_type e = e_event_type e'" "e_producer e = e_producer e'"
    "e_correlation_id e = e_correlation_id e'" "e_classification e = e_classification e'"
    "norm (e_fhir e) = norm (e_fhir e')" "norm (jstr t) = norm (jstr t')"
    "pr_principal_id (e_provenance e) = pr_principal_id (e_provenance e')"
    "pr_principal_role (e_provenance e) = pr_principal_role (e_provenance e')"
    "pr_ledger_commit_hash (e_provenance e) = pr_ledger_commit_hash (e_provenance e')"
  using assms
  by (auto simp: signed_content_def signed_provenance_def envelope_utf8_def jstr_eq split: if_splits)

lemma is_digit_ascii: "is_digit c \<Longrightarrow> byte c < 0x80"
  by (simp add: is_digit_def)

lemma decimal_ascii: "list_all (\<lambda>c. byte c < 0x80) (decimal n)"
  using decimal_digits [of n] by (auto simp: list_all_iff is_digit_ascii)

lemma pad_left_ascii: "list_all (\<lambda>c. byte c < 0x80) s \<Longrightarrow> list_all (\<lambda>c. byte c < 0x80) (pad_left w s)"
  by (auto simp: pad_left_def list_all_iff)

lemma two_ascii: "list_all (\<lambda>c. byte c < 0x80) (two n)"
  by (simp add: two_def pad_left_ascii decimal_ascii)

lemma nanos_ascii: "list_all (\<lambda>c. byte c < 0x80) (nanos n)"
  using pad_left_ascii [OF decimal_ascii, of 9 "nat n"]
  by (auto simp: nanos_def list_all_iff dest!: set_dropWhileD)

lemma marshal_time_ascii: "marshal_time x = Some t \<Longrightarrow> list_all (\<lambda>c. byte c < 0x80) t"
  using pad_left_ascii [OF decimal_ascii]
  by (auto simp: marshal_time_def Let_def two_ascii nanos_ascii split: prod.splits if_splits)

lemma canonical_payload_Inr:
  "canonical_payload L e = Inr c \<Longrightarrow>
     \<exists>t. marshal_time (e_occurred_at e) = Some t \<and> l_jcs L (render (norm (unsigned_json e t))) = Some c"
  by (auto simp: canonical_payload_eq signed_content_norm split: option.splits)

text \<open>
  (C11) A signature binds the envelope: two envelopes that verify with the same signature text agree
  in every field but the signature (the FHIR bundle up to the spelling of its JSON), whatever keys
  and whatever kid prefixes they are verified with.
\<close>

theorem verify_binds_envelope:
  assumes "jcs_laws L"
    and "verify_with_key_id_prefix L e pk pre = None"
    and "verify_with_key_id_prefix L e' pk' pre' = None"
    and "pr_signature (e_provenance e) = pr_signature (e_provenance e')"
    and "envelope_ok e" and "envelope_ok e'"
  shows "e_event_id e = e_event_id e' \<and> e_event_type e = e_event_type e' \<and>
    e_correlation_id e = e_correlation_id e' \<and> e_producer e = e_producer e' \<and>
    e_classification e = e_classification e' \<and> e_envelope_version e = e_envelope_version e' \<and>
    norm (e_fhir e) = norm (e_fhir e') \<and>
    marshal_time (e_occurred_at e) = marshal_time (e_occurred_at e') \<and>
    pr_principal_id (e_provenance e) = pr_principal_id (e_provenance e') \<and>
    pr_principal_role (e_provenance e) = pr_principal_role (e_provenance e') \<and>
    pr_ledger_commit_hash (e_provenance e) = pr_ledger_commit_hash (e_provenance e')"
proof -
  obtain c where c: "canonical_payload L e = Inr c" "canonical_payload L e' = Inr c"
    using verify_parts [OF assms(2)] verify_parts [OF assms(3)] assms(4)
    by (auto simp: b64.enc_eq_iff)
  obtain t where t: "marshal_time (e_occurred_at e) = Some t"
    "l_jcs L (render (norm (unsigned_json e t))) = Some c"
    using canonical_payload_Inr [OF c(1)] by blast
  obtain t' where t': "marshal_time (e_occurred_at e') = Some t'"
    "l_jcs L (render (norm (unsigned_json e' t'))) = Some c"
    using canonical_payload_Inr [OF c(2)] by blast
  have "norm (unsigned_json e t) = norm (unsigned_json e' t')"
    using assms(1) t(2) t'(2) number_free_unsigned signed_content_wf assms(5,6)
    unfolding jcs_laws_def envelope_ok_def by blast
  then have eq: "signed_content e t = signed_content e' t'"
    by (simp add: signed_content_norm)
  note fields = signed_content_eq [OF eq]
  have "envelope_utf8 e" "envelope_utf8 e'" using assms(5,6) by (simp_all add: envelope_ok_def)
  note fields = fields [OF this]
  have "t = t'"
    using fields(8) utf8_ascii [OF marshal_time_ascii [OF t(1)]] utf8_ascii [OF marshal_time_ascii [OF t'(1)]]
    by (simp add: jstr_eq)
  then show ?thesis using fields t(1) t'(1) by simp
qed

subsection \<open>An instance of the libraries\<close>

text \<open>
  Functions that satisfy the laws, to evaluate the model on: a key is its seed twice, a signature is
  the public key and the message, and the canonicaliser keeps its input.
\<close>

definition sample_libs :: libs where
  "sample_libs = \<lparr>l_new_key = (\<lambda>seed. seed @ seed), l_sign = (\<lambda>sk m. drop 32 sk @ m),
     l_verify = (\<lambda>pk m s. s = pk @ m), l_jcs = (\<lambda>s. Some s)\<rparr>"

lemma sample_ed25519: "ed25519_laws sample_libs"
  by (simp add: ed25519_laws_def sample_libs_def)

lemma sample_total: "jcs_total sample_libs"
  by (simp add: jcs_total_def sample_libs_def)

lemma sample_jcs: "jcs_laws sample_libs"
  unfolding jcs_laws_def
proof (intro allI impI, elim conjE)
  fix a b c
  assume "wf_json max_depth (norm a)" "wf_json max_depth (norm b)"
    and "l_jcs sample_libs (render (norm a)) = Some c" "l_jcs sample_libs (render (norm b)) = Some c"
  then show "norm a = norm b"
    using json_all_render [of "norm a"] json_all_render [of "norm b"] by (simp add: sample_libs_def)
qed

definition sample_seed :: string where "sample_seed = replicate 32 CHR ''k''"

definition sample_envelope :: envelope where
  "sample_envelope = \<lparr>e_envelope_version = ''1.0'', e_event_id = ''e1'', e_event_type = ''t'',
     e_occurred_at = 0, e_producer = ''p'', e_correlation_id = ''c'', e_classification = ''INTERNAL'',
     e_fhir = JObj [(''a'', JStr ''b'')], e_provenance = \<lparr>pr_principal_id = ''i'', pr_principal_role = ''r'',
       pr_signature = [], pr_ledger_commit_hash = []\<rparr>\<rparr>"

definition sample_signer :: signer where
  "sample_signer = \<lparr>s_private_key = sample_seed @ sample_seed, s_kid = ''maritime-evidence-1''\<rparr>"

definition sample_signed :: envelope where
  "sample_signed = sample_envelope\<lparr>e_provenance := (e_provenance sample_envelope)\<lparr>pr_signature :=
     (case sign sample_libs sample_signer sample_envelope of Inl _ \<Rightarrow> [] | Inr sg \<Rightarrow> sg)\<rparr>\<rparr>"

lemma sample_new_signer: "new_signer (l_new_key sample_libs sample_seed) '' 1'' = Inr sample_signer"
  by code_simp

lemma sample_sign: "isl (sign sample_libs sample_signer sample_envelope) = False"
  by code_simp

lemma sign_then_verify_witness:
  "verify sample_libs sample_signed (signer_public_key sample_signer) = None"
proof -
  obtain sg where sg: "sign sample_libs sample_signer sample_envelope = Inr sg"
    using sample_sign by (metis isl_conv sum.exhaust)
  have "length sample_seed = 32" by (simp add: sample_seed_def)
  from sign_then_verify [OF sample_ed25519 this sample_new_signer sg] show ?thesis
    by (simp add: sample_signed_def sg)
qed

text \<open>The same bundle in another spelling: the signature covers the value.\<close>

definition respelled :: envelope where
  "respelled = sample_signed\<lparr>e_fhir := JObj [(''a'', JStr (backslash # ''u0062''))]\<rparr>"

lemma verify_cong:
  assumes "pr_signature (e_provenance e) = pr_signature (e_provenance e')"
    and "canonical_payload L e = canonical_payload L e'"
  shows "verify_with_key_id_prefix L e pk kid_prefix = verify_with_key_id_prefix L e' pk kid_prefix"
  unfolding verify_with_key_id_prefix_def assms ..

lemma sample_verify:
  "verify sample_libs sample_signed (signer_public_key sample_signer) = None"
  "verify sample_libs respelled (signer_public_key sample_signer) = None"
proof -
  obtain sg where sg: "sign sample_libs sample_signer sample_envelope = Inr sg"
    using sample_sign by (metis isl_conv sum.exhaust)
  have "length sample_seed = 32" by (simp add: sample_seed_def)
  from sign_verifies [OF sample_ed25519 this sample_new_signer sg]
  show 1: "verify sample_libs sample_signed (signer_public_key sample_signer) = None"
    by (simp add: sample_signed_def sg)
  have f: "norm (e_fhir respelled) = norm (e_fhir sample_signed)" by code_simp
  have "signed_content respelled t = signed_content sample_signed t" for t
    unfolding signed_content_def f by (simp add: respelled_def)
  moreover have "e_occurred_at respelled = e_occurred_at sample_signed" by (simp add: respelled_def)
  ultimately have "canonical_payload sample_libs respelled = canonical_payload sample_libs sample_signed"
    unfolding canonical_payload_eq by presburger
  from verify_cong [OF _ this] 1
  show "verify sample_libs respelled (signer_public_key sample_signer) = None"
    by (simp add: verify_def respelled_def)
qed

lemma sample_ok: "envelope_ok sample_signed" "envelope_ok respelled"
proof -
  have d: "Suc 9998 = 9999" by simp
  have "norm (e_fhir sample_signed) = JObj [(''a'', JStr ''b'')]" "norm (e_fhir respelled) = JObj [(''a'', JStr ''b'')]"
    by code_simp+
  moreover have "wf_json (Suc 9998) (JObj [(''a'', JStr ''b'')])"
    unfolding wf_json_Suc by (simp add: ok_lit_graphic graphic_def)
  then have "wf_json 9999 (JObj [(''a'', JStr ''b'')])" unfolding d .
  moreover have "number_free (e_fhir sample_signed)" "number_free (e_fhir respelled)"
    "envelope_utf8 sample_signed" "envelope_utf8 respelled"
    by code_simp+
  ultimately show "envelope_ok sample_signed" "envelope_ok respelled"
    unfolding envelope_ok_def by simp_all
qed

lemma verify_binds_envelope_witness:
  "e_event_id sample_signed = e_event_id respelled \<and> norm (e_fhir sample_signed) = norm (e_fhir respelled)"
  using verify_binds_envelope [OF sample_jcs sample_verify [unfolded verify_def] _ sample_ok]
  by (simp add: respelled_def)

end
