(* ===== verification/Event_Envelope.thy ===== *)
theory Event_Envelope
  imports Event_Signing "HOL-Library.Multiset"
begin

text \<open>
  \<open>internal/events/envelope.go\<close>: the platform topics, the FHIR message bundle and \<open>Message\<close>, which
  builds and signs the envelope of a domain event. The two \<open>uuid.NewString\<close> values of a call are
  arguments. A Go map of extensions is given as the list of its entries in iteration order, which
  Go leaves open: the exchange sort of the code is what makes the bundle independent of it.
\<close>

subsection \<open>Constants\<close>

definition EnvelopeVersion :: string where "EnvelopeVersion = ''1.0''"
definition Producer :: string where "Producer = ''maritime-evidence''"
definition ClassificationIntern :: string where "ClassificationIntern = ''INTERNAL''"
definition TopicPackage :: string where "TopicPackage = ''evidence.package.v1''"
definition TopicValidation :: string where "TopicValidation = ''evidence.validation.v1''"

definition valid_topic :: "string \<Rightarrow> bool" where
  "valid_topic topic \<longleftrightarrow> topic = TopicPackage \<or> topic = TopicValidation"

subsection \<open>The FHIR bundle\<close>

record fhir_extension =
  fx_url :: string
  fx_value_string :: string
  fx_value_instant :: string

record fhir_basic =
  fb_resource_type :: string
  fb_id :: string
  fb_code_text :: string
  fb_extension :: "fhir_extension list"

record fhir_entry =
  fe_full_url :: string
  fe_resource :: fhir_basic

record fhir_bundle =
  fu_resource_type :: string
  fu_type :: string
  fu_timestamp :: time
  fu_entry :: "fhir_entry list"

text \<open>\<open>omitempty\<close>: the member is there only when the value is not empty.\<close>

definition omitempty :: "string \<Rightarrow> string \<Rightarrow> (string \<times> json) list" where
  "omitempty k s = (if s = [] then [] else [(k, jstr s)])"

definition fhir_extension_json :: "fhir_extension \<Rightarrow> json" where
  "fhir_extension_json x =
     JObj ((''url'', jstr (fx_url x)) # omitempty ''valueString'' (fx_value_string x)
       @ omitempty ''valueInstant'' (fx_value_instant x))"

definition fhir_basic_json :: "fhir_basic \<Rightarrow> json" where
  "fhir_basic_json b =
     JObj ([(''resourceType'', jstr (fb_resource_type b)), (''id'', jstr (fb_id b)),
            (''code'', JObj [(''text'', jstr (fb_code_text b))])]
       @ (if fb_extension b = [] then []
          else [(''extension'', JArr (map fhir_extension_json (fb_extension b)))]))"

definition fhir_entry_json :: "fhir_entry \<Rightarrow> json" where
  "fhir_entry_json e =
     JObj [(''fullUrl'', jstr (fe_full_url e)), (''resource'', fhir_basic_json (fe_resource e))]"

definition marshal_bundle :: "fhir_bundle \<Rightarrow> json result" where
  "marshal_bundle b =
     (case marshal_time (fu_timestamp b) of
        None \<Rightarrow> Inl (External ''Time.MarshalJSON: year outside of range [0,9999]'')
      | Some t \<Rightarrow> Inr (JObj
          [(''resourceType'', jstr (fu_resource_type b)), (''type'', jstr (fu_type b)),
           (''timestamp'', jstr t), (''entry'', JArr (map fhir_entry_json (fu_entry b)))]))"

subsection \<open>The sort of the extension keys\<close>

text \<open>
  The inner loop at a fixed \<open>i\<close>: \<open>keys[i]\<close> against every later key, exchanged when the later one is
  smaller; then the outer loop.
\<close>

fun pull_min :: "string \<Rightarrow> string list \<Rightarrow> string \<times> string list" where
  "pull_min x [] = (x, [])"
| "pull_min x (y # ys) =
     (if y < x then (let (m, r) = pull_min y ys in (m, x # r))
      else (let (m, r) = pull_min x ys in (m, y # r)))"

lemma length_pull_min [simp]: "length (snd (pull_min x ys)) = length ys"
  by (induction x ys rule: pull_min.induct) (auto simp: Let_def case_prod_beta)

function sort_keys :: "string list \<Rightarrow> string list" where
  "sort_keys [] = []"
| "sort_keys (x # xs) = (let (m, r) = pull_min x xs in m # sort_keys r)"
  by pat_completeness auto
termination
  by (relation "measure length") (auto simp: less_Suc_eq_le dest!: arg_cong [where f = "length \<circ> snd"])

subsection \<open>Message\<close>

definition structure_definition :: string where
  "structure_definition = ''https://blueeconomy.gov.ng/fhir/StructureDefinition/''"

definition entry_extensions :: "string \<Rightarrow> (string \<times> string) list \<Rightarrow> fhir_extension list result" where
  "entry_extensions payload extensions =
     (let keys = sort_keys (map fst extensions) in
      if list_ex (\<lambda>key. trim_space key = []) keys
      then Inl (Error ''extension keys must be non-empty'')
      else Inr (\<lparr>fx_url = structure_definition @ ''domain-payload'', fx_value_string = payload,
                 fx_value_instant = []\<rparr>
             # map (\<lambda>key. \<lparr>fx_url = structure_definition @ key,
                           fx_value_string = (case map_of extensions key of Some v \<Rightarrow> v | None \<Rightarrow> []),
                           fx_value_instant = []\<rparr>) keys))"

definition message_bundle ::
  "string \<Rightarrow> string \<Rightarrow> string \<Rightarrow> time \<Rightarrow> fhir_extension list \<Rightarrow> fhir_bundle" where
  "message_bundle uuid event_type subject_id occurred_at exts =
     \<lparr>fu_resource_type = ''Bundle'', fu_type = ''message'', fu_timestamp = occurred_at,
      fu_entry = [\<lparr>fe_full_url = ''urn:uuid:'' @ uuid,
        fe_resource = \<lparr>fb_resource_type = ''Basic'', fb_id = subject_id, fb_code_text = event_type,
                       fb_extension = exts\<rparr>\<rparr>]\<rparr>"

definition message ::
  "libs \<Rightarrow> string \<times> string \<Rightarrow> string \<Rightarrow> string \<Rightarrow> string \<Rightarrow> string \<Rightarrow> string \<Rightarrow> (string \<times> string) list
     \<Rightarrow> provenance \<Rightarrow> time \<Rightarrow> signer option \<Rightarrow> envelope result" where
  "message L uuids event_type topic correlation_id subject_id payload extensions prin occurred_at signer =
     (case signer of None \<Rightarrow> Inl (Error ''an envelope signer is required'') | Some s \<Rightarrow>
      if trim_space event_type = [] \<or> \<not> valid_topic topic
      then Inl (Error ''event type and a platform v1 topic are required'')
      else if trim_space correlation_id = [] \<or> trim_space subject_id = []
      then Inl (Error ''correlation id and subject id are required'')
      else if trim_space (pr_principal_id prin) = [] \<or> trim_space (pr_principal_role prin) = []
      then Inl (Error ''provenance principal id and role are required'')
      else if payload = [] \<or> json_all payload = None
      then Inl (Error ''payload must be valid JSON'')
      else case entry_extensions payload extensions of Inl err \<Rightarrow> Inl err | Inr exts \<Rightarrow>
        (case marshal_bundle (message_bundle (fst uuids) event_type subject_id occurred_at exts) of
           Inl err \<Rightarrow> Inl (Wrap ''encode FHIR message bundle'' err)
         | Inr bundle \<Rightarrow>
             (let envelope = \<lparr>e_envelope_version = EnvelopeVersion, e_event_id = snd uuids,
                e_event_type = event_type, e_occurred_at = occurred_at, e_producer = Producer,
                e_correlation_id = correlation_id, e_classification = ClassificationIntern,
                e_fhir = bundle, e_provenance = prin\<rparr> in
              case sign L s envelope of
                Inl err \<Rightarrow> Inl (Wrap (''sign '' @ event_type @ '' envelope'') err)
              | Inr signature \<Rightarrow>
                  Inr (envelope\<lparr>e_provenance := prin\<lparr>pr_signature := signature\<rparr>\<rparr>))))"

definition verify_signature :: "libs \<Rightarrow> envelope \<Rightarrow> string \<Rightarrow> bool" where
  "verify_signature L envelope pk \<longleftrightarrow> verify L envelope pk = None"

subsection \<open>The sort is a sort\<close>

lemma pull_min_mset: "pull_min x ys = (m, r) \<Longrightarrow> add_mset m (mset r) = add_mset x (mset ys)"
  by (induction x ys arbitrary: m r rule: pull_min.induct)
    (auto simp: Let_def case_prod_beta add_mset_commute split: if_splits prod.splits)

lemma pull_min_le: "pull_min x ys = (m, r) \<Longrightarrow> m \<le> x \<and> (\<forall>z \<in> set r. m \<le> z)"
  by (induction x ys arbitrary: m r rule: pull_min.induct)
    (fastforce simp: Let_def split: if_splits prod.splits)+

lemma mset_sort_keys [simp]: "mset (sort_keys xs) = mset xs"
  by (induction xs rule: sort_keys.induct) (auto simp: Let_def dest: pull_min_mset split: prod.split)

lemma set_sort_keys [simp]: "set (sort_keys xs) = set xs"
  by (metis mset_sort_keys set_mset_mset)

lemma sorted_sort_keys: "sorted (sort_keys xs)"
  by (induction xs rule: sort_keys.induct) (auto simp: Let_def dest: pull_min_le split: prod.split)

lemma sort_keys_eq_sort: "sort_keys xs = sort xs"
  by (rule properties_for_sort [symmetric]) (simp_all add: sorted_sort_keys)

text \<open>Two iteration orders of one Go map give the same keys and the same values.\<close>

lemma entry_extensions_order:
  assumes "distinct (map fst es)" and "mset es = mset es'"
  shows "entry_extensions payload es = entry_extensions payload es'"
proof -
  have "distinct (map fst es')" using assms by (metis mset_eq_imp_distinct_iff mset_map)
  then have "map_of es = map_of es'"
    using assms by (metis map_of_inject_set mset_eq_setD)
  moreover have "sort_keys (map fst es) = sort_keys (map fst es')"
    using assms(2) by (metis mset_map properties_for_sort mset_sort_keys sort_keys_eq_sort sorted_sort_keys)
  ultimately show ?thesis unfolding entry_extensions_def by metis
qed

text \<open>
  (C36) \<open>Message\<close> gives the same result whatever order Go iterates the extension map in: the exchange
  sort of the code puts the extensions, and so the signed bytes, in one order.
\<close>

theorem message_iteration_order:
  assumes "distinct (map fst es)" and "mset es = mset es'"
  shows "message L ids t tp c s p es pr at sg = message L ids t tp c s p es' pr at sg"
  unfolding message_def entry_extensions_order [OF assms] ..

lemma message_iteration_order_witness:
  "\<forall>L sg. message L (''u'', ''v'') ''evidence.package.received'' TopicPackage ''c'' ''s'' ''{}''
       [(''slot'', ''4''), (''berth'', ''7'')] \<lparr>pr_principal_id = ''p'', pr_principal_role = ''r'', pr_signature = [],
         pr_ledger_commit_hash = []\<rparr> 0 sg
     = message L (''u'', ''v'') ''evidence.package.received'' TopicPackage ''c'' ''s'' ''{}''
       [(''berth'', ''7''), (''slot'', ''4'')] \<lparr>pr_principal_id = ''p'', pr_principal_role = ''r'', pr_signature = [],
         pr_ledger_commit_hash = []\<rparr> 0 sg"
  by (intro allI message_iteration_order) simp_all

subsection \<open>Message succeeds\<close>

lemma bundle_names_utf8:
  "list_all (\<lambda>k. utf8 (unquote k)) [''resourceType'', ''type'', ''timestamp'', ''entry'', ''fullUrl'', ''resource'',
     ''id'', ''code'', ''text'', ''extension'', ''url'', ''valueString'', ''valueInstant'']"
  by code_simp

lemma fhir_extension_free:
  "number_free (fhir_extension_json x)" "0 < d \<Longrightarrow> fits d (fhir_extension_json x)" "utf8_keys (fhir_extension_json x)"
  using bundle_names_utf8 by (simp_all add: fhir_extension_json_def omitempty_def jstr_def)

lemma marshal_bundle_free:
  assumes "marshal_bundle (message_bundle u et sid at exts) = Inr b"
  shows "number_free b" and "wf_json 9999 (norm b)" and "utf8_keys b"
proof -
  show "utf8_keys b"
    using assms bundle_names_utf8 by (auto simp: marshal_bundle_def message_bundle_def fhir_entry_json_def
        fhir_basic_json_def jstr_def fhir_extension_free list_all_iff split: option.splits)
  have "number_free b \<and> fits 7 b"
    using assms by (auto simp: marshal_bundle_def message_bundle_def fhir_entry_json_def fhir_basic_json_def
        jstr_def fhir_extension_free list_all_iff split: option.splits)
  then show "number_free b" and "wf_json 9999 (norm b)"
    using wf_json_norm [of b 9999] fits_mono [of 7 b 9999] by simp_all
qed

lemma sign_total:
  assumes "canonical_payload L e = Inr c"
  shows "\<exists>sg. sign L s e = Inr sg"
  using assms by (simp add: sign_def Let_def)

text \<open>
  A message with printable identifiers and date, a platform topic and a JSON payload is built and
  signed; there is nothing left to fail.
\<close>

lemma message_total:
  assumes "jcs_total L" and "trim_space et \<noteq> []" "valid_topic topic" "trim_space corr \<noteq> []"
    "trim_space sid \<noteq> []" "trim_space (pr_principal_id pr) \<noteq> []" "trim_space (pr_principal_role pr) \<noteq> []"
    "payload \<noteq> []" "json_all payload \<noteq> None" "marshal_time at = Some t"
  shows "\<exists>env. message L ids et topic corr sid payload [] pr at (Some s) = Inr env \<and>
    e_occurred_at env = at"
proof -
  obtain exts where exts: "entry_extensions payload [] = Inr exts"
    by (simp add: entry_extensions_def)
  obtain b where b: "marshal_bundle (message_bundle (fst ids) et sid at exts) = Inr b"
    using assms(10) by (simp add: marshal_bundle_def message_bundle_def)
  let ?e = "\<lparr>e_envelope_version = EnvelopeVersion, e_event_id = snd ids,
                e_event_type = et, e_occurred_at = at, e_producer = Producer,
                e_correlation_id = corr, e_classification = ClassificationIntern,
                e_fhir = b, e_provenance = pr\<rparr>"
  obtain c where "canonical_payload L ?e = Inr c"
    using canonical_payload_total [OF assms(1), of ?e t] assms(10) marshal_bundle_free [OF b] by auto
  then obtain sg where "sign L s ?e = Inr sg" using sign_total by blast
  then show ?thesis
    using assms exts b by (simp add: message_def Let_def)
qed

end
