(* ===== verification/Evidence_Store.thy ===== *)
theory Evidence_Store
  imports Evidence_Schema Event_Envelope "HOL-Library.Product_Lexorder"
begin

text \<open>
  \<open>internal/evidence/store.go\<close>: the store over the schema. Every operation is a function of the
  environment of its call and the database, and gives its result and the database it leaves. An
  operation works on the state of its own transaction; the state is only installed by the commit,
  so every early return is the deferred rollback.
\<close>

subsection \<open>The environment of a call\<close>

text \<open>The calls the store makes to the pool and the transaction, each of which may fail.\<close>

datatype db_call =
    BeginTx
  | InsertPackage
  | InsertInitialHistory
  | InsertOutbox
  | SelectRetained
  | GetPackage
  | LockPackage
  | SelectTerminal
  | SelectPrior
  | InsertValidation
  | UpdateStatus
  | ListPackages

text \<open>
  A commit succeeds, fails and rolls back, or takes effect while its acknowledgement is lost: the
  caller sees an error in the last two cases.
\<close>

datatype commit_outcome = CommitOk | CommitFailed string | CommitLost string

text \<open>
  The failures of the calls, the values of \<open>gen_random_uuid()\<close> and \<open>uuid.NewString()\<close>, \<open>now()\<close>, the
  outcome of the commit, and the setting \<open>app.evidence_service\<close> of the session.
\<close>

record env =
  e_fault :: "db_call \<Rightarrow> string option"
  e_package_uuid :: string
  e_history_uuid :: string
  e_outbox_uuid :: string
  e_message_uuids :: "string \<times> string"
  e_now :: time
  e_commit :: commit_outcome
  e_evidence_service :: string

text \<open>The system: the driver, the libraries and the store's own configuration.\<close>

record store =
  st_signer :: "signer option"
  st_principal_id :: string
  st_principal_role :: string

definition new_store :: store where
  "new_store = \<lparr>st_signer = None, st_principal_id = [], st_principal_role = []\<rparr>"

definition with_events :: "store \<Rightarrow> signer option \<Rightarrow> string \<Rightarrow> string \<Rightarrow> store result" where
  "with_events s signer principal_id principal_role =
     (if signer = None then Inl (Error ''an envelope signer is required for the evidence outbox'')
      else if principal_id = [] \<or> principal_role = []
      then Inl (Error ''the evidence producer principal id and role are required'')
      else Inr (s\<lparr>st_signer := signer, st_principal_id := principal_id,
                  st_principal_role := principal_role\<rparr>))"

text \<open>
  \<open>ConfigurePool\<close>: the hook every new connection runs; the connection is only used when it has
  asserted the service context.
\<close>

definition configure_pool :: "string option \<Rightarrow> (string \<Rightarrow> string) \<Rightarrow> (string \<Rightarrow> string) result" where
  "configure_pool fault settings =
     (case fault of
        Some m \<Rightarrow> Inl (Wrap ''assert evidence service RLS context'' (External m))
      | None \<Rightarrow> Inr (settings(''app.evidence_service'' := ''on'')))"

definition service_on :: "env \<Rightarrow> bool" where
  "service_on e \<longleftrightarrow> e_evidence_service e = ''on''"

text \<open>A statement that fails in the driver or the network fails with an external error.\<close>

definition call :: "env \<Rightarrow> db_call \<Rightarrow> 'a result \<Rightarrow> 'a result" where
  "call e c r = (case e_fault e c of Some m \<Rightarrow> Inl (External m) | None \<Rightarrow> r)"

definition bind_params :: "'a option \<Rightarrow> ('a \<Rightarrow> 'b result) \<Rightarrow> 'b result" where
  "bind_params v f =
     (case v of None \<Rightarrow> Inl (External ''parameter cannot be encoded'') | Some x \<Rightarrow> f x)"

definition commit :: "env \<Rightarrow> string \<Rightarrow> database \<Rightarrow> database \<Rightarrow> 'a \<Rightarrow> 'a result \<times> database" where
  "commit e msg db db' v =
     (case e_commit e of
        CommitOk \<Rightarrow> (Inr v, db')
      | CommitFailed m \<Rightarrow> (Inl (Wrap msg (External m)), db)
      | CommitLost m \<Rightarrow> (Inl (Wrap msg (External m)), db'))"

subsection \<open>The outbox\<close>

text \<open>\<open>json.Marshal\<close> of a \<open>map[string]any\<close> of strings and times: the keys come out sorted.\<close>

datatype payload_value = PString string | PTime time

definition payload_json :: "(string \<times> payload_value) list \<Rightarrow> string result" where
  "payload_json kvs =
     (if list_ex (\<lambda>(k, v). case v of PString _ \<Rightarrow> False | PTime t \<Rightarrow> marshal_time t = None) kvs
      then Inl (External ''Time.MarshalJSON: year outside of range [0,9999]'')
      else Inr (render (JObj (map (\<lambda>(k, v). (quote k,
             case v of PString s \<Rightarrow> jstr s | PTime t \<Rightarrow> jstr (the (marshal_time t)))) (go_map kvs)))))"

definition enqueue_outbox ::
  "libs \<Rightarrow> driver \<Rightarrow> store \<Rightarrow> env \<Rightarrow> database \<Rightarrow> string \<Rightarrow> string \<Rightarrow> string \<Rightarrow> string
     \<Rightarrow> (string \<times> payload_value) list \<Rightarrow> time \<Rightarrow> database result" where
  "enqueue_outbox L d st e tx event_type topic correlation_id subject_id payload occurred_at =
     (case st_signer st of None \<Rightarrow> Inr tx | Some signer \<Rightarrow>
      case payload_json payload of Inl err \<Rightarrow> Inl (Wrap ''encode outbox payload'' err)
      | Inr payload_text \<Rightarrow>
      case message L (e_message_uuids e) event_type topic correlation_id subject_id payload_text []
             \<lparr>pr_principal_id = st_principal_id st, pr_principal_role = st_principal_role st,
              pr_signature = [], pr_ledger_commit_hash = []\<rparr> occurred_at (Some signer) of
        Inl err \<Rightarrow> Inl (Wrap ''build outbox envelope'' err)
      | Inr envelope \<Rightarrow>
      case marshal_envelope envelope of Inl err \<Rightarrow> Inl (Wrap ''encode outbox envelope'' err)
      | Inr envelope_json \<Rightarrow>
      case call e InsertOutbox
             (bind_params (d_uuid d subject_id) (\<lambda>subject.
              bind_params (d_jsonb d envelope_json) (\<lambda>stored.
                insert_outbox (service_on e) tx
                  \<lparr>o_event_id = e_outbox_uuid e, o_evidence_package_id = subject, o_topic = topic,
                   o_event_type = event_type, o_payload = stored, o_created_at = e_now e,
                   o_published_at = None\<rparr>))) of
        Inl err \<Rightarrow> Inl (Wrap ''enqueue evidence outbox event'' err)
      | Inr tx' \<Rightarrow> Inr tx')"

subsection \<open>Create\<close>

text \<open>The parameters of the INSERT as the server stores them, with the generated columns.\<close>

definition package_row :: "driver \<Rightarrow> env \<Rightarrow> create_request \<Rightarrow> package option" where
  "package_row d e r =
     do { idem \<leftarrow> d_uuid d (cr_idempotency_key r);
          tenant \<leftarrow> text_param d (cr_tenant_id r);
          ext \<leftarrow> text_param d (cr_external_reference r);
          ty \<leftarrow> text_param d (cr_evidence_type r);
          sha \<leftarrow> text_param d (cr_content_sha256 r);
          loc \<leftarrow> text_param d (cr_content_location r);
          cls \<leftarrow> text_param d (cr_classification r);
          corr \<leftarrow> d_uuid d (cr_correlation_id r);
          Some \<lparr>p_evidence_package_id = e_package_uuid e, p_idempotency_key = idem,
                p_tenant_id = tenant, p_external_reference = ext, p_evidence_type = ty,
                p_content_sha256 = sha, p_content_location = loc,
                p_received_at = d_time d (cr_received_at r), p_classification = cls,
                p_correlation_id = corr, p_created_at = e_now e,
                p_validation_status = StatusReceived\<rparr> }"

definition create_request_matches_package :: "create_request \<Rightarrow> package \<Rightarrow> bool" where
  "create_request_matches_package r p \<longleftrightarrow>
     cr_idempotency_key r = p_idempotency_key p \<and>
     cr_external_reference r = p_external_reference p \<and>
     cr_evidence_type r = p_evidence_type p \<and>
     cr_content_sha256 r = p_content_sha256 p \<and>
     cr_content_location r = p_content_location p \<and>
     cr_received_at r = p_received_at p \<and>
     cr_classification r = p_classification p \<and>
     cr_correlation_id r = p_correlation_id p"

definition initial_history :: "env \<Rightarrow> package \<Rightarrow> history_row" where
  "initial_history e p =
     \<lparr>h_validation_history_id = e_history_uuid e, h_evidence_package_id = p_evidence_package_id p,
      h_prior_validation_status = None, h_validation_status = StatusReceived,
      h_reason_code = ''evidence_package_received'',
      h_actor_subject_reference = ''system:evidence-service'',
      h_occurred_at = p_received_at p, h_correlation_id = p_correlation_id p\<rparr>"

definition received_payload :: "package \<Rightarrow> (string \<times> payload_value) list" where
  "received_payload p =
     [(''evidence_package_id'', PString (p_evidence_package_id p)),
      (''external_reference'', PString (p_external_reference p)),
      (''evidence_type'', PString (p_evidence_type p)),
      (''content_sha256'', PString (p_content_sha256 p)),
      (''content_location'', PString (p_content_location p)),
      (''classification'', PString (p_classification p)),
      (''received_at'', PTime (p_received_at p))]"

definition select_retained :: "driver \<Rightarrow> database \<Rightarrow> create_request \<Rightarrow> package result" where
  "select_retained d db r =
     bind_params (text_param d (cr_tenant_id r)) (\<lambda>tenant.
     bind_params (d_uuid d (cr_idempotency_key r)) (\<lambda>idem.
       case find (\<lambda>p. p_tenant_id p = tenant \<and> p_idempotency_key p = idem) (evidence_packages db) of
         None \<Rightarrow> Inl ErrNoRows
       | Some p \<Rightarrow> Inr p))"

definition create ::
  "libs \<Rightarrow> driver \<Rightarrow> store \<Rightarrow> env \<Rightarrow> database \<Rightarrow> create_request
     \<Rightarrow> (package \<times> bool) result \<times> database" where
  "create L d st e db r =
     (if trim_space (cr_tenant_id r) = []
      then (Inl (Error ''evidence creation requires a tenant binding''), db)
      else case call e BeginTx (Inr ()) of
        Inl err \<Rightarrow> (Inl (Wrap ''begin evidence creation transaction'' err), db)
      | Inr _ \<Rightarrow>
      (case call e InsertPackage (bind_params (package_row d e r) (insert_package db)) of
        Inl err \<Rightarrow> (Inl (Wrap ''insert evidence package'' err), db)
      | Inr (tx, Some created) \<Rightarrow>
          (case call e InsertInitialHistory (insert_history tx (initial_history e created)) of
             Inl err \<Rightarrow> (Inl (Wrap ''record initial validation history'' err), db)
           | Inr tx \<Rightarrow>
          (case enqueue_outbox L d st e tx ''evidence.package.received'' TopicPackage
                  (p_correlation_id created) (p_evidence_package_id created)
                  (received_payload created) (p_received_at created) of
             Inl err \<Rightarrow> (Inl err, db)
           | Inr tx \<Rightarrow> commit e ''commit evidence creation'' db tx (created, True)))
      | Inr (tx, None) \<Rightarrow>
          (case call e SelectRetained (select_retained d tx r) of
             Inl err \<Rightarrow> (Inl (Wrap ''load retained idempotency key'' err), db)
           | Inr existing \<Rightarrow>
               if \<not> create_request_matches_package r existing then (Inl ErrIdempotencyConflict, db)
               else commit e ''commit idempotent lookup'' db tx (existing, False))))"

subsection \<open>Get\<close>

definition select_package :: "driver \<Rightarrow> database \<Rightarrow> string \<Rightarrow> package result" where
  "select_package d db i =
     bind_params (d_uuid d i) (\<lambda>uuid.
       case find (\<lambda>p. p_evidence_package_id p = uuid) (evidence_packages db) of
         None \<Rightarrow> Inl ErrNoRows
       | Some p \<Rightarrow> Inr p)"

definition get :: "driver \<Rightarrow> env \<Rightarrow> database \<Rightarrow> string \<Rightarrow> package result" where
  "get d e db package_id =
     (case call e GetPackage (select_package d db package_id) of
        Inr record \<Rightarrow> Inr record
      | Inl err \<Rightarrow>
          if errors_is err ErrNoRows then Inl ErrNotFound
          else Inl (Wrap ''get evidence package'' err))"

subsection \<open>RecordValidation\<close>

definition lock_package :: "driver \<Rightarrow> database \<Rightarrow> string \<Rightarrow> string result" where
  "lock_package d db i = map_sum id p_evidence_package_id (select_package d db i)"

text \<open>\<open>ORDER BY occurred_at DESC, validation_history_id DESC LIMIT 1\<close>.\<close>

definition latest_history :: "database \<Rightarrow> string \<Rightarrow> history_row option" where
  "latest_history db i =
     (case rev (sort_key (\<lambda>h. (h_occurred_at h, h_validation_history_id h))
             (filter (\<lambda>h. h_evidence_package_id h = i) (evidence_validation_history db))) of
        [] \<Rightarrow> None
      | h # _ \<Rightarrow> Some h)"

definition select_terminal :: "driver \<Rightarrow> database \<Rightarrow> string \<Rightarrow> bool result" where
  "select_terminal d db i =
     bind_params (d_uuid d i) (\<lambda>uuid. Inr (terminal_decision_exists db uuid))"

text \<open>The prior status keeps its initial value \<open>StatusReceived\<close> when there is no row.\<close>

definition select_prior :: "driver \<Rightarrow> database \<Rightarrow> string \<Rightarrow> string result" where
  "select_prior d db i =
     bind_params (d_uuid d i) (\<lambda>uuid.
       case latest_history db uuid of None \<Rightarrow> Inl ErrNoRows | Some h \<Rightarrow> Inr (h_validation_status h))"

definition validation_row :: "driver \<Rightarrow> env \<Rightarrow> string \<Rightarrow> string \<Rightarrow> validation_request \<Rightarrow> history_row option" where
  "validation_row d e i prior r =
     do { uuid \<leftarrow> d_uuid d i;
          prior \<leftarrow> text_param d prior;
          status \<leftarrow> text_param d (v_validation_status r);
          reason \<leftarrow> text_param d (v_reason_code r);
          actor \<leftarrow> text_param d (v_actor_subject_reference r);
          corr \<leftarrow> d_uuid d (v_correlation_id r);
          Some \<lparr>h_validation_history_id = e_history_uuid e, h_evidence_package_id = uuid,
                h_prior_validation_status = Some prior, h_validation_status = status,
                h_reason_code = reason, h_actor_subject_reference = actor,
                h_occurred_at = d_time d (v_occurred_at r), h_correlation_id = corr\<rparr> }"

definition update_status :: "driver \<Rightarrow> database \<Rightarrow> string \<Rightarrow> string \<Rightarrow> database result" where
  "update_status d db i status =
     bind_params (d_uuid d i) (\<lambda>uuid.
     bind_params (text_param d status) (\<lambda>status.
       update_packages db (\<lambda>p. p_evidence_package_id p = uuid)
         (\<lambda>p. p\<lparr>p_validation_status := status\<rparr>)))"

definition recorded_payload ::
  "string \<Rightarrow> string \<Rightarrow> validation_request \<Rightarrow> (string \<times> payload_value) list" where
  "recorded_payload i prior r =
     [(''evidence_package_id'', PString i),
      (''prior_validation_status'', PString prior),
      (''validation_status'', PString (v_validation_status r)),
      (''reason_code'', PString (v_reason_code r)),
      (''actor_subject_reference'', PString (v_actor_subject_reference r)),
      (''occurred_at'', PTime (v_occurred_at r))]"

definition record_validation ::
  "libs \<Rightarrow> driver \<Rightarrow> store \<Rightarrow> env \<Rightarrow> database \<Rightarrow> string \<Rightarrow> validation_request
     \<Rightarrow> unit result \<times> database" where
  "record_validation L d st e db i r =
     (case call e BeginTx (Inr ()) of
        Inl err \<Rightarrow> (Inl (Wrap ''begin validation transaction'' err), db)
      | Inr _ \<Rightarrow>
      (case call e LockPackage (lock_package d db i) of
        Inl err \<Rightarrow>
          (if errors_is err ErrNoRows then Inl ErrNotFound
           else Inl (Wrap ''load evidence package for validation'' err), db)
      | Inr _ \<Rightarrow>
      (case call e SelectTerminal (select_terminal d db i) of
        Inl err \<Rightarrow> (Inl (Wrap ''check terminal validation history'' err), db)
      | Inr decided \<Rightarrow>
      if decided then (Inl ErrTerminalValidation, db)
      else
      (case (case call e SelectPrior (select_prior d db i) of
               Inl err \<Rightarrow> if errors_is err ErrNoRows then Inr StatusReceived else Inl err
             | Inr prior \<Rightarrow> Inr prior) of
        Inl err \<Rightarrow> (Inl (Wrap ''load prior validation status'' err), db)
      | Inr prior_status \<Rightarrow>
      (case call e InsertValidation
              (bind_params (validation_row d e i prior_status r) (insert_history db)) of
        Inl err \<Rightarrow> (Inl (Wrap ''record evidence validation'' err), db)
      | Inr tx \<Rightarrow>
      (case call e UpdateStatus (update_status d tx i (v_validation_status r)) of
        Inl err \<Rightarrow> (Inl (Wrap ''persist evidence validation status'' err), db)
      | Inr tx \<Rightarrow>
      (case enqueue_outbox L d st e tx ''evidence.validation.recorded'' TopicValidation
              (v_correlation_id r) i (recorded_payload i prior_status r) (v_occurred_at r) of
        Inl err \<Rightarrow> (Inl err, db)
      | Inr tx \<Rightarrow> commit e ''commit validation history'' db tx ())))))))"

subsection \<open>List\<close>

text \<open>
  The tenant's rows by \<open>received_at\<close> descending and then by identifier, from the offset on, at most
  \<open>limit\<close> of them. A negative offset is refused by the server and a negative limit makes \<open>make\<close>
  panic: both are the external error here, and no caller passes one.
\<close>

definition list_order :: "package \<Rightarrow> int \<times> string" where
  "list_order p = (- p_received_at p, p_evidence_package_id p)"

definition list_packages ::
  "driver \<Rightarrow> env \<Rightarrow> database \<Rightarrow> string \<Rightarrow> int \<Rightarrow> int \<Rightarrow> package list result" where
  "list_packages d e db tenant_id limit offset =
     (if trim_space tenant_id = [] then Inl (Error ''evidence listing requires a tenant scope'')
      else case call e ListPackages
             (bind_params (text_param d tenant_id) (\<lambda>tenant.
               if limit < 0 \<or> offset < 0 then Inl (External ''LIMIT or OFFSET must not be negative'')
               else Inr (take (nat limit) (drop (nat offset)
                      (sort_key list_order
                        (filter (\<lambda>p. p_tenant_id p = tenant) (evidence_packages db))))))) of
        Inl err \<Rightarrow> Inl (Wrap ''list evidence packages'' err)
      | Inr packages \<Rightarrow> Inr packages)"

end
