(* ===== verification/Evidence_Custody.thy ===== *)
theory Evidence_Custody
  imports Evidence_Store
begin

text \<open>
  The abstract specification of the store: the chain of custody. A step receives a package with its
  initial history row, decides it with its second history row, or marks outbox events published;
  nothing else ever happens to the tables. The operations of \<open>Evidence_Store\<close> refine it, and the
  invariant is proved once, over the steps.
\<close>

subsection \<open>The steps\<close>

definition mark_rows :: "string set \<Rightarrow> time \<Rightarrow> outbox_row list \<Rightarrow> outbox_row list" where
  "mark_rows ids t = map (\<lambda>r. if o_event_id r \<in> ids \<and> o_published_at r = None
                              then r\<lparr>o_published_at := Some t\<rparr> else r)"

definition decided :: "string \<Rightarrow> string \<Rightarrow> package \<Rightarrow> package" where
  "decided i s q = (if p_evidence_package_id q = i then q\<lparr>p_validation_status := s\<rparr> else q)"

text \<open>The events of one operation: none without a signer, otherwise one, on the operation's topic.\<close>

definition fresh_events :: "database \<Rightarrow> string \<Rightarrow> string \<Rightarrow> outbox_row list \<Rightarrow> bool" where
  "fresh_events db i topic rows \<longleftrightarrow>
     length rows \<le> 1 \<and>
     (\<forall>r \<in> set rows. o_evidence_package_id r = i \<and> o_topic r = topic \<and> o_published_at r = None
        \<and> o_event_id r \<notin> o_event_id ` set (evidence_outbox db))"

inductive custody_step :: "database \<Rightarrow> database \<Rightarrow> bool" where
  receive: "custody_step db
      (db\<lparr>evidence_packages := evidence_packages db @ [p],
          evidence_validation_history := evidence_validation_history db @ [h],
          evidence_outbox := evidence_outbox db @ rows\<rparr>)"
    if "package_checks p" and "p_validation_status p = StatusReceived"
      and "\<not> idempotency_taken db (p_tenant_id p) (p_idempotency_key p)"
      and "\<not> package_exists db (p_evidence_package_id p)"
      and "h_evidence_package_id h = p_evidence_package_id p"
      and "h_prior_validation_status h = None" and "h_validation_status h = StatusReceived"
      and "h_validation_history_id h \<notin> h_validation_history_id ` set (evidence_validation_history db)"
      and "fresh_events db (p_evidence_package_id p) TopicPackage rows"
| decide: "custody_step db
      (db\<lparr>evidence_packages := map (decided i s) (evidence_packages db),
          evidence_validation_history := evidence_validation_history db @ [h],
          evidence_outbox := evidence_outbox db @ rows\<rparr>)"
    if "p \<in> set (evidence_packages db)" and "p_evidence_package_id p = i"
      and "p_validation_status p = StatusReceived" and "terminal_status s"
      and "h_evidence_package_id h = i"
      and "h_prior_validation_status h = Some StatusReceived" and "h_validation_status h = s"
      and "h_validation_history_id h \<notin> h_validation_history_id ` set (evidence_validation_history db)"
      and "fresh_events db i TopicValidation rows"
| publish: "custody_step db (db\<lparr>evidence_outbox := mark_rows ids t (evidence_outbox db)\<rparr>)"

text \<open>
  The steps with their labels: what is received, what is decided and which events are published. A step
  is its guard and its effect, both read off the label.
\<close>

datatype custody_event =
    Receive package history_row "outbox_row list"
  | Decide string string history_row "outbox_row list"
  | Publish "string list" time

fun custody_guard :: "custody_event \<Rightarrow> database \<Rightarrow> bool" where
  "custody_guard (Receive p h rows) db \<longleftrightarrow>
     package_checks p \<and> p_validation_status p = StatusReceived \<and>
     \<not> idempotency_taken db (p_tenant_id p) (p_idempotency_key p) \<and>
     \<not> package_exists db (p_evidence_package_id p) \<and>
     h_evidence_package_id h = p_evidence_package_id p \<and>
     h_prior_validation_status h = None \<and> h_validation_status h = StatusReceived \<and>
     h_validation_history_id h \<notin> h_validation_history_id ` set (evidence_validation_history db) \<and>
     fresh_events db (p_evidence_package_id p) TopicPackage rows"
| "custody_guard (Decide i s h rows) db \<longleftrightarrow>
     (\<exists>p \<in> set (evidence_packages db). p_evidence_package_id p = i \<and> p_validation_status p = StatusReceived) \<and>
     terminal_status s \<and> h_evidence_package_id h = i \<and>
     h_prior_validation_status h = Some StatusReceived \<and> h_validation_status h = s \<and>
     h_validation_history_id h \<notin> h_validation_history_id ` set (evidence_validation_history db) \<and>
     fresh_events db i TopicValidation rows"
| "custody_guard (Publish ids t) db \<longleftrightarrow>
     (\<forall>i \<in> set ids. \<exists>r \<in> set (evidence_outbox db). o_event_id r = i \<and> o_published_at r = None)"

fun custody_effect :: "custody_event \<Rightarrow> database \<Rightarrow> database" where
  "custody_effect (Receive p h rows) db =
     db\<lparr>evidence_packages := evidence_packages db @ [p],
        evidence_validation_history := evidence_validation_history db @ [h],
        evidence_outbox := evidence_outbox db @ rows\<rparr>"
| "custody_effect (Decide i s h rows) db =
     db\<lparr>evidence_packages := map (decided i s) (evidence_packages db),
        evidence_validation_history := evidence_validation_history db @ [h],
        evidence_outbox := evidence_outbox db @ rows\<rparr>"
| "custody_effect (Publish ids t) db =
     db\<lparr>evidence_outbox := mark_rows (set ids) t (evidence_outbox db)\<rparr>"

definition custody_event_step :: "custody_event \<Rightarrow> database \<Rightarrow> database \<Rightarrow> bool" where
  "custody_event_step a db db' \<longleftrightarrow> custody_guard a db \<and> db' = custody_effect a db"

lemma event_step_custody: "custody_event_step a db db' \<Longrightarrow> custody_step db db'"
  by (cases a) (auto simp: custody_event_step_def intro: custody_step.intros)

text \<open>The databases the service can be in, from the empty tables on.\<close>

definition reachable :: "database \<Rightarrow> bool" where
  "reachable db \<longleftrightarrow> custody_step\<^sup>*\<^sup>* empty_database db"

subsection \<open>The invariant\<close>

text \<open>
  A package and its history tell the same story: the initial row, and for a decided package one more
  row, from received to the status the package has.
\<close>

definition custody :: "database \<Rightarrow> package \<Rightarrow> bool" where
  "custody db p \<longleftrightarrow>
     map (\<lambda>h. (h_prior_validation_status h, h_validation_status h)) (history_of db (p_evidence_package_id p)) =
       (None, StatusReceived) #
       (if p_validation_status p = StatusReceived then []
        else [(Some StatusReceived, p_validation_status p)])"

definition db_inv :: "database \<Rightarrow> bool" where
  "db_inv db \<longleftrightarrow>
     distinct (map p_evidence_package_id (evidence_packages db)) \<and>
     distinct (map (\<lambda>p. (p_tenant_id p, p_idempotency_key p)) (evidence_packages db)) \<and>
     (\<forall>p \<in> set (evidence_packages db). package_checks p \<and> custody db p) \<and>
     (\<forall>h \<in> set (evidence_validation_history db). package_exists db (h_evidence_package_id h)) \<and>
     distinct (map h_validation_history_id (evidence_validation_history db)) \<and>
     (\<forall>r \<in> set (evidence_outbox db). package_exists db (o_evidence_package_id r)) \<and>
     distinct (map o_event_id (evidence_outbox db))"

lemma decided_simps [simp]:
  "p_evidence_package_id (decided i s q) = p_evidence_package_id q"
  "p_tenant_id (decided i s q) = p_tenant_id q"
  "p_idempotency_key (decided i s q) = p_idempotency_key q"
  "p_validation_status (decided i s q) = (if p_evidence_package_id q = i then s else p_validation_status q)"
  by (simp_all add: decided_def)

lemma package_exists_simps [simp]:
  "package_exists (db\<lparr>evidence_packages := evidence_packages db @ [p]\<rparr>) i
     \<longleftrightarrow> p_evidence_package_id p = i \<or> package_exists db i"
  "package_exists (db\<lparr>evidence_packages := map (decided j s) (evidence_packages db)\<rparr>) i \<longleftrightarrow> package_exists db i"
  "package_exists (db\<lparr>evidence_validation_history := hs\<rparr>) i \<longleftrightarrow> package_exists db i"
  "package_exists (db\<lparr>evidence_outbox := rows\<rparr>) i \<longleftrightarrow> package_exists db i"
  by (auto simp: package_exists_def image_iff)

lemma history_of_simps [simp]:
  "history_of (db\<lparr>evidence_packages := ps\<rparr>) i = history_of db i"
  "history_of (db\<lparr>evidence_outbox := rows\<rparr>) i = history_of db i"
  "history_of (db\<lparr>evidence_validation_history := evidence_validation_history db @ [h]\<rparr>) i =
     history_of db i @ (if h_evidence_package_id h = i then [h] else [])"
  by (simp_all add: history_of_def)

lemma mark_rows_ids [simp]: "map o_event_id (mark_rows ids t rows) = map o_event_id rows"
  by (induction rows) (auto simp: mark_rows_def)

lemma mark_rows_package: "o_evidence_package_id ` set (mark_rows ids t rows) = o_evidence_package_id ` set rows"
  by (induction rows) (auto simp: mark_rows_def)

lemma history_of_Nil: "db_inv db \<Longrightarrow> \<not> package_exists db i \<Longrightarrow> history_of db i = []"
  by (auto simp: db_inv_def history_of_def filter_empty_conv)

lemma fresh_events_distinct:
  "fresh_events db i topic rows \<Longrightarrow> distinct (map o_event_id (evidence_outbox db)) \<Longrightarrow>
     distinct (map o_event_id (evidence_outbox db @ rows))"
  by (cases rows) (auto simp: fresh_events_def)

lemma db_inv_receive:
  assumes inv: "db_inv db"
    and p: "package_checks p" "p_validation_status p = StatusReceived"
      "\<not> idempotency_taken db (p_tenant_id p) (p_idempotency_key p)"
      "\<not> package_exists db (p_evidence_package_id p)"
    and h: "h_evidence_package_id h = p_evidence_package_id p"
      "h_prior_validation_status h = None" "h_validation_status h = StatusReceived"
      "h_validation_history_id h \<notin> h_validation_history_id ` set (evidence_validation_history db)"
    and rows: "fresh_events db (p_evidence_package_id p) TopicPackage rows"
  shows "db_inv (db\<lparr>evidence_packages := evidence_packages db @ [p],
          evidence_validation_history := evidence_validation_history db @ [h],
          evidence_outbox := evidence_outbox db @ rows\<rparr>)" (is "db_inv ?db")
proof -
  have old: "custody ?db q" if "q \<in> set (evidence_packages db)" for q
  proof -
    have "p_evidence_package_id q \<noteq> p_evidence_package_id p"
      using that p(4) unfolding package_exists_def by (metis imageI)
    then have "history_of ?db (p_evidence_package_id q) = history_of db (p_evidence_package_id q)"
      using h(1) by (simp add: history_of_def)
    then show ?thesis using inv that by (simp add: db_inv_def custody_def)
  qed
  have new: "custody ?db p"
    using history_of_Nil [OF inv p(4)] p(2) h by (simp add: custody_def history_of_def)
  have ex: "package_exists ?db i \<longleftrightarrow> p_evidence_package_id p = i \<or> package_exists db i" for i
    by (auto simp: package_exists_def)
  show ?thesis
    unfolding db_inv_def
  proof (intro conjI)
    show "distinct (map p_evidence_package_id (evidence_packages ?db))"
      using inv p(4) by (auto simp: db_inv_def package_exists_def)
    show "distinct (map (\<lambda>p. (p_tenant_id p, p_idempotency_key p)) (evidence_packages ?db))"
      using inv p(3) by (auto simp: db_inv_def idempotency_taken_def list_ex_iff)
    show "\<forall>p \<in> set (evidence_packages ?db). package_checks p \<and> custody ?db p"
      using inv old new p(1) by (auto simp: db_inv_def)
    show "\<forall>h \<in> set (evidence_validation_history ?db). package_exists ?db (h_evidence_package_id h)"
      using inv h(1) by (auto simp: db_inv_def ex)
    show "distinct (map h_validation_history_id (evidence_validation_history ?db))"
      using inv h(4) by (simp add: db_inv_def)
    show "\<forall>r \<in> set (evidence_outbox ?db). package_exists ?db (o_evidence_package_id r)"
      using inv rows by (auto simp: db_inv_def ex fresh_events_def)
    show "distinct (map o_event_id (evidence_outbox ?db))"
      using fresh_events_distinct [OF rows] inv by (simp add: db_inv_def)
  qed
qed

lemma distinct_id_eq:
  "db_inv db \<Longrightarrow> p \<in> set (evidence_packages db) \<Longrightarrow> q \<in> set (evidence_packages db) \<Longrightarrow>
     p_evidence_package_id p = p_evidence_package_id q \<Longrightarrow> p = q"
  by (auto simp: db_inv_def dest: eq_key_imp_eq_value inj_onD [OF iffD1 [OF distinct_map, THEN conjunct2]])

lemma package_checks_decided:
  "package_checks q \<Longrightarrow> terminal_status s \<Longrightarrow> package_checks (decided i s q)"
  by (simp add: decided_def package_checks_def status_allowed_iff)

lemma db_inv_decide:
  assumes inv: "db_inv db" and p: "p \<in> set (evidence_packages db)" "p_evidence_package_id p = i"
      "p_validation_status p = StatusReceived" and s: "terminal_status s"
    and h: "h_evidence_package_id h = i" "h_prior_validation_status h = Some StatusReceived"
      "h_validation_status h = s"
      "h_validation_history_id h \<notin> h_validation_history_id ` set (evidence_validation_history db)"
    and rows: "fresh_events db i TopicValidation rows"
  shows "db_inv (db\<lparr>evidence_packages := map (decided i s) (evidence_packages db),
          evidence_validation_history := evidence_validation_history db @ [h],
          evidence_outbox := evidence_outbox db @ rows\<rparr>)" (is "db_inv ?db")
proof -
  have cust: "custody ?db (decided i s q)" if q: "q \<in> set (evidence_packages db)" for q
  proof (cases "p_evidence_package_id q = i")
    case True
    then have "q = p" using distinct_id_eq [OF inv q p(1)] p(2) by simp
    then show ?thesis
      using inv q True p(2,3) s h by (auto simp: db_inv_def custody_def history_of_def)
  next
    case False
    then show ?thesis using inv q h(1) by (simp add: db_inv_def custody_def history_of_def)
  qed
  have ex: "package_exists ?db j \<longleftrightarrow> package_exists db j" for j
    by (auto simp: package_exists_def image_iff)
  have i: "package_exists db i" using p by (auto simp: package_exists_def)
  show ?thesis
    unfolding db_inv_def
  proof (intro conjI)
    show "distinct (map p_evidence_package_id (evidence_packages ?db))"
      using inv by (simp add: db_inv_def comp_def)
    show "distinct (map (\<lambda>p. (p_tenant_id p, p_idempotency_key p)) (evidence_packages ?db))"
      using inv by (simp add: db_inv_def comp_def)
    show "\<forall>p \<in> set (evidence_packages ?db). package_checks p \<and> custody ?db p"
      using inv s cust by (auto simp: db_inv_def package_checks_decided)
    show "\<forall>h \<in> set (evidence_validation_history ?db). package_exists ?db (h_evidence_package_id h)"
      using inv h(1) i by (auto simp: db_inv_def ex)
    show "distinct (map h_validation_history_id (evidence_validation_history ?db))"
      using inv h(4) by (simp add: db_inv_def)
    show "\<forall>r \<in> set (evidence_outbox ?db). package_exists ?db (o_evidence_package_id r)"
      using inv rows i by (auto simp: db_inv_def ex fresh_events_def)
    show "distinct (map o_event_id (evidence_outbox ?db))"
      using fresh_events_distinct [OF rows] inv by (simp add: db_inv_def)
  qed
qed

lemma db_inv_publish:
  assumes inv: "db_inv db"
  shows "db_inv (db\<lparr>evidence_outbox := mark_rows ids t (evidence_outbox db)\<rparr>)" (is "db_inv ?db")
proof -
  have cust: "custody ?db p \<longleftrightarrow> custody db p" for p
    by (simp add: custody_def history_of_def)
  have ex: "package_exists ?db i \<longleftrightarrow> package_exists db i" for i
    by (simp add: package_exists_def)
  have rows: "package_exists db i"
    if "i \<in> o_evidence_package_id ` set (mark_rows ids t (evidence_outbox db))" for i
    using that inv unfolding mark_rows_package db_inv_def by blast
  show ?thesis
    unfolding db_inv_def ex cust
  proof (intro conjI)
    show "\<forall>r \<in> set (evidence_outbox ?db). package_exists db (o_evidence_package_id r)"
      using rows by simp
  qed (use inv in \<open>simp_all add: db_inv_def\<close>)
qed

text \<open>Every step keeps the invariant, so it holds in every reachable database.\<close>

lemma db_inv_step: "custody_step db db' \<Longrightarrow> db_inv db \<Longrightarrow> db_inv db'"
proof (induction rule: custody_step.induct)
  case (receive p db h rows)
  show ?case by (rule db_inv_receive [OF receive(10) receive(1-9)])
next
  case (decide p db i s h rows)
  show ?case by (rule db_inv_decide [OF decide(10) decide(1-9)])
next
  case (publish db ids t)
  show ?case by (rule db_inv_publish [OF publish])
qed

lemma db_inv_empty: "db_inv empty_database"
  by (simp add: db_inv_def empty_database_def)

lemma reachable_inv: "reachable db \<Longrightarrow> db_inv db"
  unfolding reachable_def
  by (induction rule: rtranclp_induct) (auto intro: db_inv_empty db_inv_step)

subsection \<open>The statements\<close>

lemma call_Inr: "call e c r = Inr v \<longleftrightarrow> e_fault e c = None \<and> r = Inr v"
  by (simp add: call_def split: option.split)

lemma bind_params_Inr: "bind_params v f = Inr w \<longleftrightarrow> (\<exists>x. v = Some x \<and> f x = Inr w)"
  by (simp add: bind_params_def split: option.split)

lemma insert_package_Some:
  "insert_package db p = Inr (tx, Some q) \<longleftrightarrow>
     q = p \<and> tx = db\<lparr>evidence_packages := evidence_packages db @ [p]\<rparr> \<and> package_checks p \<and>
     \<not> idempotency_taken db (p_tenant_id p) (p_idempotency_key p) \<and>
     \<not> package_exists db (p_evidence_package_id p)"
  by (auto simp: insert_package_def)

lemma insert_package_None:
  "insert_package db p = Inr (tx, None) \<longleftrightarrow>
     tx = db \<and> package_checks p \<and> idempotency_taken db (p_tenant_id p) (p_idempotency_key p)"
  by (auto simp: insert_package_def)

lemma insert_history_Inr:
  "insert_history db h = Inr tx \<longleftrightarrow>
     tx = db\<lparr>evidence_validation_history := evidence_validation_history db @ [h]\<rparr> \<and> history_checks h \<and>
     h_validation_history_id h \<notin> h_validation_history_id ` set (evidence_validation_history db) \<and>
     \<not> (terminal_status (h_validation_status h) \<and> terminal_decision_exists db (h_evidence_package_id h)) \<and>
     package_exists db (h_evidence_package_id h)"
  by (auto simp: insert_history_def)

lemma insert_outbox_Inr:
  "insert_outbox service db r = Inr tx \<longleftrightarrow>
     tx = db\<lparr>evidence_outbox := evidence_outbox db @ [r]\<rparr> \<and> service \<and> outbox_checks r \<and>
     o_event_id r \<notin> o_event_id ` set (evidence_outbox db) \<and> package_exists db (o_evidence_package_id r)"
  by (auto simp: insert_outbox_def)

lemma update_status_Inr:
  assumes "update_status d db i s = Inr tx"
  shows "\<exists>uuid. d_uuid d i = Some uuid \<and>
    tx = db\<lparr>evidence_packages := map (decided uuid s) (evidence_packages db)\<rparr> \<and>
    (\<forall>p \<in> set (evidence_packages db). p_evidence_package_id p = uuid \<longrightarrow>
       p_validation_status p = StatusReceived \<and> terminal_status s)"
proof -
  obtain uuid where uuid: "d_uuid d i = Some uuid" "d_storable d s"
    and upd: "update_packages db (\<lambda>p. p_evidence_package_id p = uuid) (\<lambda>p. p\<lparr>p_validation_status := s\<rparr>) = Inr tx"
    using assms by (auto simp: update_status_def bind_params_Inr text_param_def split: if_splits)
  have "map (\<lambda>p. if p_evidence_package_id p = uuid then p\<lparr>p_validation_status := s\<rparr> else p) ps
      = map (decided uuid s) ps" for ps
    by (simp add: decided_def)
  then show ?thesis
    using uuid upd by (auto simp: update_packages_def mutation_allowed_def terminal_status_def
        status_defs list_ex_iff split: if_splits)
qed

text \<open>The event an operation builds.\<close>

definition outbox_event ::
  "libs \<Rightarrow> store \<Rightarrow> env \<Rightarrow> string \<Rightarrow> string \<Rightarrow> string \<Rightarrow> string \<Rightarrow> (string \<times> payload_value) list \<Rightarrow> time
     \<Rightarrow> envelope result" where
  "outbox_event L st e event_type topic corr subject payload at =
     (case payload_json payload of Inl err \<Rightarrow> Inl err | Inr text \<Rightarrow>
        message L (e_message_uuids e) event_type topic corr subject text []
          \<lparr>pr_principal_id = st_principal_id st, pr_principal_role = st_principal_role st,
           pr_signature = [], pr_ledger_commit_hash = []\<rparr> at (st_signer st))"

text \<open>
  The rows an operation's event gives: none without a signer, otherwise one, unpublished, whose payload
  is the stored JSON of the envelope built for the operation.
\<close>

definition event_rows ::
  "libs \<Rightarrow> driver \<Rightarrow> store \<Rightarrow> env \<Rightarrow> string \<Rightarrow> string \<Rightarrow> string \<Rightarrow> string \<Rightarrow> (string \<times> payload_value) list \<Rightarrow> time
     \<Rightarrow> outbox_row list option" where
  "event_rows L d st e event_type topic corr subject payload at =
     (if st_signer st = None then Some []
      else case outbox_event L st e event_type topic corr subject payload at of
        Inl _ \<Rightarrow> None
      | Inr envelope \<Rightarrow>
      case marshal_envelope envelope of
        Inl _ \<Rightarrow> None
      | Inr j \<Rightarrow> do {
          i \<leftarrow> d_uuid d subject;
          stored \<leftarrow> d_jsonb d j;
          Some [\<lparr>o_event_id = e_outbox_uuid e, o_evidence_package_id = i, o_topic = topic,
                 o_event_type = event_type, o_payload = stored, o_created_at = e_now e,
                 o_published_at = None\<rparr>] })"

lemma enqueue_outbox_Inr:
  assumes "enqueue_outbox L d st e tx event_type topic corr subject payload at = Inr tx'"
    and "d_uuid d subject = Some i"
  obtains rows where "tx' = tx\<lparr>evidence_outbox := evidence_outbox tx @ rows\<rparr>"
    and "fresh_events tx i topic rows" and "rows = [] \<longleftrightarrow> st_signer st = None"
    and "event_rows L d st e event_type topic corr subject payload at = Some rows"
proof (cases "st_signer st")
  case None
  then show ?thesis using assms that [of "[]"] by (simp add: enqueue_outbox_def fresh_events_def event_rows_def)
next
  case (Some signer)
  then obtain pj envelope ej j where "payload_json payload = Inr pj"
      "message L (e_message_uuids e) event_type topic corr subject pj []
         \<lparr>pr_principal_id = st_principal_id st, pr_principal_role = st_principal_role st,
          pr_signature = [], pr_ledger_commit_hash = []\<rparr> at (Some signer) = Inr envelope"
      "marshal_envelope envelope = Inr ej" "d_jsonb d ej = Some j"
    and ins: "insert_outbox (service_on e) tx
      \<lparr>o_event_id = e_outbox_uuid e, o_evidence_package_id = i, o_topic = topic,
       o_event_type = event_type, o_payload = j, o_created_at = e_now e, o_published_at = None\<rparr> = Inr tx'"
    using assms by (auto simp: enqueue_outbox_def call_Inr bind_params_Inr split: sum.splits)
  then show ?thesis
    using Some assms(2)
      that [of "[\<lparr>o_event_id = e_outbox_uuid e, o_evidence_package_id = i, o_topic = topic,
       o_event_type = event_type, o_payload = j, o_created_at = e_now e, o_published_at = None\<rparr>]"]
    by (simp add: insert_outbox_Inr fresh_events_def event_rows_def outbox_event_def)
qed

text \<open>A commit leaves the old or the new state, and the new one if it reports success.\<close>

lemma commit_db: "commit e msg db tx v = (res, db') \<Longrightarrow> db' = db \<or> db' = tx"
  by (auto simp: commit_def split: commit_outcome.splits)

lemma commit_Inr: "commit e msg db tx v = (Inr w, db') \<longleftrightarrow> e_commit e = CommitOk \<and> w = v \<and> db' = tx"
  by (auto simp: commit_def split: commit_outcome.splits)

lemma commit_Inl:
  "commit e msg db tx v = (Inl err, db') \<longleftrightarrow>
     (\<exists>m. err = Wrap msg (External m) \<and>
        (e_commit e = CommitFailed m \<and> db' = db \<or> e_commit e = CommitLost m \<and> db' = tx))"
  by (auto simp: commit_def split: commit_outcome.splits)

subsection \<open>Create refines a step\<close>

text \<open>The database after a creation that took effect.\<close>

definition created_db :: "env \<Rightarrow> database \<Rightarrow> package \<Rightarrow> outbox_row list \<Rightarrow> database" where
  "created_db e db p rows =
     db\<lparr>evidence_packages := evidence_packages db @ [p],
        evidence_validation_history := evidence_validation_history db @ [initial_history e p],
        evidence_outbox := evidence_outbox db @ rows\<rparr>"

text \<open>A UUID the server generated is in canonical form.\<close>

definition env_laws :: "driver \<Rightarrow> env \<Rightarrow> bool" where
  "env_laws d e \<longleftrightarrow> d_uuid d (e_package_uuid e) = Some (e_package_uuid e)"

lemma package_row_fields:
  assumes "package_row d e r = Some p"
  shows "p_evidence_package_id p = e_package_uuid e" "p_validation_status p = StatusReceived"
    "p_created_at p = e_now e" "p_tenant_id p = cr_tenant_id r"
    "d_uuid d (cr_idempotency_key r) = Some (p_idempotency_key p)"
    "d_uuid d (cr_correlation_id r) = Some (p_correlation_id p)"
    "p_external_reference p = cr_external_reference r" "p_evidence_type p = cr_evidence_type r"
    "p_content_sha256 p = cr_content_sha256 r" "p_content_location p = cr_content_location r"
    "p_classification p = cr_classification r" "p_received_at p = d_time d (cr_received_at r)"
  using assms by (auto simp: package_row_def text_param_def split: if_splits Option.bind_splits)

text \<open>The event of a received package and the event of a decision.\<close>

definition received_event :: "libs \<Rightarrow> driver \<Rightarrow> store \<Rightarrow> env \<Rightarrow> package \<Rightarrow> outbox_row list option" where
  "received_event L d st e p =
     event_rows L d st e ''evidence.package.received'' TopicPackage (p_correlation_id p)
       (p_evidence_package_id p) (received_payload p) (p_received_at p)"

definition decided_event ::
  "libs \<Rightarrow> driver \<Rightarrow> store \<Rightarrow> env \<Rightarrow> string \<Rightarrow> validation_request \<Rightarrow> outbox_row list option" where
  "decided_event L d st e i r =
     event_rows L d st e ''evidence.validation.recorded'' TopicValidation (v_correlation_id r)
       i (recorded_payload i StatusReceived r) (v_occurred_at r)"

text \<open>A creation that gets to its commit: the row is inserted with its history and its events.\<close>

inductive create_inserts ::
  "libs \<Rightarrow> driver \<Rightarrow> store \<Rightarrow> env \<Rightarrow> database \<Rightarrow> create_request \<Rightarrow> package \<Rightarrow> database \<Rightarrow> bool"
  for L d st e db r where
  "create_inserts L d st e db r p tx"
  if "package_row d e r = Some p" and "package_checks p"
    and "\<not> idempotency_taken db (p_tenant_id p) (p_idempotency_key p)"
    and "\<not> package_exists db (p_evidence_package_id p)"
    and "history_checks (initial_history e p)"
    and "h_validation_history_id (initial_history e p)
           \<notin> h_validation_history_id ` set (evidence_validation_history db)"
    and "fresh_events db (p_evidence_package_id p) TopicPackage rows"
    and "rows = [] \<longleftrightarrow> st_signer st = None" and "tx = created_db e db p rows"
    and "received_event L d st e p = Some rows"

text \<open>A branch on a fallible call either bails out with the old database or goes on.\<close>

lemma bail:
  "(case x of Inl err \<Rightarrow> (Inl (f err), db) | Inr v \<Rightarrow> g v) = (res, db') \<Longrightarrow>
     (\<exists>err. res = Inl err \<and> db' = db) \<or> (\<exists>v. x = Inr v \<and> g v = (res, db'))"
  by (cases x) auto

lemma create_paths:
  assumes "create L d st e db r = (res, db')"
  shows "(\<exists>err. res = Inl err \<and> db' = db) \<or>
    (\<exists>tx p tx2 tx3.
       call e InsertPackage (bind_params (package_row d e r) (insert_package db)) = Inr (tx, Some p) \<and>
       call e InsertInitialHistory (insert_history tx (initial_history e p)) = Inr tx2 \<and>
       enqueue_outbox L d st e tx2 ''evidence.package.received'' TopicPackage (p_correlation_id p)
         (p_evidence_package_id p) (received_payload p) (p_received_at p) = Inr tx3 \<and>
       commit e ''commit evidence creation'' db tx3 (p, True) = (res, db')) \<or>
    (\<exists>tx p.
       call e InsertPackage (bind_params (package_row d e r) (insert_package db)) = Inr (tx, None) \<and>
       call e SelectRetained (select_retained d tx r) = Inr p \<and>
       create_request_matches_package r p \<and>
       commit e ''commit idempotent lookup'' db tx (p, False) = (res, db'))"
  using assms unfolding create_def
  by (auto dest!: bail split: if_splits option.splits prod.splits)

lemma create_path_inserts:
  assumes "env_laws d e"
    and "call e InsertPackage (bind_params (package_row d e r) (insert_package db)) = Inr (tx, Some p)"
    and "call e InsertInitialHistory (insert_history tx (initial_history e p)) = Inr tx2"
    and "enqueue_outbox L d st e tx2 ''evidence.package.received'' TopicPackage (p_correlation_id p)
         (p_evidence_package_id p) (received_payload p) (p_received_at p) = Inr tx3"
  shows "create_inserts L d st e db r p tx3"
proof -
  have row: "package_row d e r = Some p" and ok: "package_checks p"
      "\<not> idempotency_taken db (p_tenant_id p) (p_idempotency_key p)"
      "\<not> package_exists db (p_evidence_package_id p)"
    and tx: "tx = db\<lparr>evidence_packages := evidence_packages db @ [p]\<rparr>"
    using assms(2) by (auto simp: call_Inr bind_params_Inr insert_package_Some)
  have h: "history_checks (initial_history e p)"
      "h_validation_history_id (initial_history e p)
         \<notin> h_validation_history_id ` set (evidence_validation_history db)"
    and tx2: "tx2 = tx\<lparr>evidence_validation_history := evidence_validation_history tx @ [initial_history e p]\<rparr>"
    using assms(3) tx by (auto simp: call_Inr insert_history_Inr)
  have "d_uuid d (p_evidence_package_id p) = Some (p_evidence_package_id p)"
    using assms(1) package_row_fields(1) [OF row] by (simp add: env_laws_def)
  from enqueue_outbox_Inr [OF assms(4) this] obtain rows where
    rows: "tx3 = tx2\<lparr>evidence_outbox := evidence_outbox tx2 @ rows\<rparr>"
      "fresh_events tx2 (p_evidence_package_id p) TopicPackage rows"
      "rows = [] \<longleftrightarrow> st_signer st = None" "received_event L d st e p = Some rows"
    unfolding received_event_def by blast
  show ?thesis
    by (rule create_inserts.intros [OF row ok h, of rows])
      (use rows tx tx2 in \<open>simp_all add: created_db_def fresh_events_def\<close>)
qed

lemma create_path_retained:
  assumes "call e InsertPackage (bind_params (package_row d e r) (insert_package db)) = Inr (tx, None)"
    and "call e SelectRetained (select_retained d tx r) = Inr p"
  shows "tx = db" "p \<in> set (evidence_packages db)" "p_tenant_id p = cr_tenant_id r"
    "d_uuid d (cr_idempotency_key r) = Some (p_idempotency_key p)"
proof -
  show tx: "tx = db"
    using assms(1) by (auto simp: call_Inr bind_params_Inr insert_package_None)
  show "p \<in> set (evidence_packages db)" "p_tenant_id p = cr_tenant_id r"
    "d_uuid d (cr_idempotency_key r) = Some (p_idempotency_key p)"
    using assms(2) by (auto simp: call_Inr select_retained_def bind_params_Inr tx text_param_def
        dest!: find_Some_conv split: option.splits if_splits)
qed

lemma create_cases:
  assumes "env_laws d e" and "create L d st e db r = (res, db')"
  obtains (failed) err where "res = Inl err" "db' = db"
  | (retained) p where "e_commit e = CommitOk" "res = Inr (p, False)" "db' = db" "p \<in> set (evidence_packages db)"
      "p_tenant_id p = cr_tenant_id r" "d_uuid d (cr_idempotency_key r) = Some (p_idempotency_key p)"
      "create_request_matches_package r p"
  | (inserted) p where "create_inserts L d st e db r p db'" "res = Inr (p, True)" "e_commit e = CommitOk"
  | (lost) p m where "create_inserts L d st e db r p db'" "e_commit e = CommitLost m"
      "res = Inl (Wrap ''commit evidence creation'' (External m))"
  using create_paths [OF assms(2)]
proof (elim disjE exE conjE)
  fix err assume "res = Inl err" "db' = db"
  then show thesis by (rule failed)
next
  fix tx p tx2 tx3
  assume steps: "call e InsertPackage (bind_params (package_row d e r) (insert_package db)) = Inr (tx, Some p)"
    "call e InsertInitialHistory (insert_history tx (initial_history e p)) = Inr tx2"
    "enqueue_outbox L d st e tx2 ''evidence.package.received'' TopicPackage (p_correlation_id p)
         (p_evidence_package_id p) (received_payload p) (p_received_at p) = Inr tx3"
    and com: "commit e ''commit evidence creation'' db tx3 (p, True) = (res, db')"
  have "create_inserts L d st e db r p tx3"
    by (rule create_path_inserts [OF assms(1) steps])
  then show thesis
    using com failed inserted lost by (auto simp: commit_def split: commit_outcome.splits)
next
  fix tx p
  assume ins: "call e InsertPackage (bind_params (package_row d e r) (insert_package db)) = Inr (tx, None)"
    and sel: "call e SelectRetained (select_retained d tx r) = Inr p"
    and m: "create_request_matches_package r p"
    and com: "commit e ''commit idempotent lookup'' db tx (p, False) = (res, db')"
  then show thesis
    using failed retained create_path_retained [OF ins sel]
    by (auto simp: commit_def split: commit_outcome.splits)
qed

lemma initial_history_simps [simp]:
  "h_evidence_package_id (initial_history e p) = p_evidence_package_id p"
  "h_prior_validation_status (initial_history e p) = None"
  "h_validation_status (initial_history e p) = StatusReceived"
  "h_validation_history_id (initial_history e p) = e_history_uuid e"
  by (simp_all add: initial_history_def)

text \<open>
  What \<open>Create\<close> does to the database, as one labelled step: it receives the package of the request, with
  its initial history row and the event built for it.
\<close>

definition create_receives ::
  "libs \<Rightarrow> driver \<Rightarrow> store \<Rightarrow> env \<Rightarrow> create_request \<Rightarrow> package \<Rightarrow> database \<Rightarrow> database \<Rightarrow> bool" where
  "create_receives L d st e r p db db' \<longleftrightarrow> package_row d e r = Some p \<and>
     (\<exists>rows. received_event L d st e p = Some rows \<and>
        custody_event_step (Receive p (initial_history e p) rows) db db')"

lemma create_inserts_receives:
  "create_inserts L d st e db r p db' \<Longrightarrow> create_receives L d st e r p db db'"
  by (induction rule: create_inserts.induct)
    (auto simp: create_receives_def custody_event_step_def created_db_def dest: package_row_fields(2))

lemma create_inserts_step: "create_inserts L d st e db r p db' \<Longrightarrow> custody_step db db'"
  using create_inserts_receives event_step_custody unfolding create_receives_def by blast

lemma create_step:
  assumes "env_laws d e" and "create L d st e db r = (res, db')"
  shows "db' = db \<or> custody_step db db'"
  using assms by (cases rule: create_cases) (auto dest: create_inserts_step)

text \<open>
  (C5) \<open>Create\<close> refines the chain of custody. It reports a package as created only after a commit that
  was acknowledged, and then the database is exactly one step further, the one that receives that
  package (its row, its initial history row and its event together). It reports a retained package
  without any change. Whatever fails, the database is the old one, or the commit took effect
  unacknowledged and it is one such receive step further.
\<close>

theorem create_refines:
  assumes "env_laws d e" and "create L d st e db r = (res, db')"
  shows "case res of
      Inr (p, True) \<Rightarrow> e_commit e = CommitOk \<and> create_receives L d st e r p db db'
    | Inr (p, False) \<Rightarrow> e_commit e = CommitOk \<and> db' = db \<and> p \<in> set (evidence_packages db)
    | Inl err \<Rightarrow> db' = db \<or>
        (\<exists>p m. e_commit e = CommitLost m \<and> err = Wrap ''commit evidence creation'' (External m) \<and>
           create_receives L d st e r p db db')"
  using assms by (cases rule: create_cases) (auto dest: create_inserts_receives)

subsection \<open>RecordValidation refines a step\<close>

lemma record_paths:
  assumes "record_validation L d st e db i r = (res, db')"
  shows "(\<exists>err. res = Inl err \<and> db' = db) \<or>
    (\<exists>prior tx tx2 tx3 x.
       call e LockPackage (lock_package d db i) = Inr x \<and>
       call e SelectTerminal (select_terminal d db i) = Inr False \<and>
       (call e SelectPrior (select_prior d db i) = Inr prior \<or>
        prior = StatusReceived \<and> (\<exists>err. call e SelectPrior (select_prior d db i) = Inl err \<and> errors_is err ErrNoRows)) \<and>
       call e InsertValidation (bind_params (validation_row d e i prior r) (insert_history db)) = Inr tx \<and>
       call e UpdateStatus (update_status d tx i (v_validation_status r)) = Inr tx2 \<and>
       enqueue_outbox L d st e tx2 ''evidence.validation.recorded'' TopicValidation
         (v_correlation_id r) i (recorded_payload i prior r) (v_occurred_at r) = Inr tx3 \<and>
       commit e ''commit validation history'' db tx3 () = (res, db'))"
  using assms unfolding record_validation_def
  by (auto dest!: bail split: if_splits sum.splits)

text \<open>What the invariant says of an undecided package: its history is its initial row.\<close>

lemma undecided:
  assumes inv: "db_inv db" and p: "p \<in> set (evidence_packages db)"
    and no: "\<not> terminal_decision_exists db (p_evidence_package_id p)"
  shows "p_validation_status p = StatusReceived"
    and "\<exists>h. history_of db (p_evidence_package_id p) = [h] \<and> h_validation_status h = StatusReceived"
proof -
  have c: "custody db p" and k: "package_checks p" using inv p by (auto simp: db_inv_def)
  show st: "p_validation_status p = StatusReceived"
  proof (rule ccontr)
    assume a: "p_validation_status p \<noteq> StatusReceived"
    then obtain h h' where "history_of db (p_evidence_package_id p) = [h, h']"
      and "h_validation_status h' = p_validation_status p"
      using c by (auto simp: custody_def map_eq_Cons_conv)
    moreover have "terminal_status (p_validation_status p)"
      using a k by (simp add: package_checks_def status_allowed_iff)
    ultimately show False using no by (simp add: terminal_decision_exists_iff)
  qed
  show "\<exists>h. history_of db (p_evidence_package_id p) = [h] \<and> h_validation_status h = StatusReceived"
    using c st by (auto simp: custody_def)
qed

lemma decided_has_terminal:
  assumes "db_inv db" "p \<in> set (evidence_packages db)" "p_validation_status p \<noteq> StatusReceived"
  shows "terminal_decision_exists db (p_evidence_package_id p)"
  using undecided(1) assms by blast

lemma received_undecided:
  assumes "db_inv db" "p \<in> set (evidence_packages db)" "p_validation_status p = StatusReceived"
  shows "\<not> terminal_decision_exists db (p_evidence_package_id p)"
proof -
  have c: "custody db p" using assms by (simp add: db_inv_def)
  have "map h_validation_status (history_of db (p_evidence_package_id p)) = [StatusReceived]"
    using c [unfolded custody_def, THEN arg_cong [where f = "map snd"]] assms(3) by (simp add: comp_def)
  then show ?thesis by (auto simp: terminal_decision_exists_iff)
qed

lemma select_package_find:
  "select_package d db i = Inr p \<longleftrightarrow>
     (\<exists>uuid. d_uuid d i = Some uuid \<and>
        find (\<lambda>p. p_evidence_package_id p = uuid) (evidence_packages db) = Some p)"
  by (auto simp: select_package_def bind_params_def split: option.split)

lemma select_package_Inr:
  "select_package d db i = Inr p \<Longrightarrow>
     d_uuid d i = Some (p_evidence_package_id p) \<and> p \<in> set (evidence_packages db)"
  by (auto simp: select_package_find dest!: find_Some_conv)

lemma select_prior_received:
  assumes "db_inv db" "p \<in> set (evidence_packages db)" "d_uuid d i = Some (p_evidence_package_id p)"
    and "\<not> terminal_decision_exists db (p_evidence_package_id p)"
  shows "select_prior d db i = Inr StatusReceived"
proof -
  obtain h where "history_of db (p_evidence_package_id p) = [h]" "h_validation_status h = StatusReceived"
    using undecided(2) assms(1,2,4) by blast
  then have "latest_history db (p_evidence_package_id p) = Some h"
    by (simp add: latest_history_def history_of_def)
  then show ?thesis
    using assms(3) \<open>h_validation_status h = _\<close> by (simp add: select_prior_def bind_params_def)
qed

text \<open>A decision that gets to its commit.\<close>

inductive record_inserts ::
  "libs \<Rightarrow> driver \<Rightarrow> store \<Rightarrow> env \<Rightarrow> database \<Rightarrow> string \<Rightarrow> validation_request \<Rightarrow> package \<Rightarrow> history_row \<Rightarrow> database \<Rightarrow> bool"
  for L d st e db i r where
  "record_inserts L d st e db i r p h tx"
  if "p \<in> set (evidence_packages db)" and "d_uuid d i = Some (p_evidence_package_id p)"
    and "p_validation_status p = StatusReceived" and "terminal_status (v_validation_status r)"
    and "validation_row d e i StatusReceived r = Some h" and "history_checks h"
    and "h_validation_history_id h \<notin> h_validation_history_id ` set (evidence_validation_history db)"
    and "fresh_events db (p_evidence_package_id p) TopicValidation rows"
    and "rows = [] \<longleftrightarrow> st_signer st = None"
    and "tx = db\<lparr>evidence_packages := map (decided (p_evidence_package_id p) (v_validation_status r)) (evidence_packages db),
          evidence_validation_history := evidence_validation_history db @ [h],
          evidence_outbox := evidence_outbox db @ rows\<rparr>"
    and "decided_event L d st e i r = Some rows"

lemma validation_row_fields:
  assumes "validation_row d e i prior r = Some h"
  shows "d_uuid d i = Some (h_evidence_package_id h)" "h_prior_validation_status h = Some prior"
    "h_validation_status h = v_validation_status r" "h_reason_code h = v_reason_code r"
    "h_actor_subject_reference h = v_actor_subject_reference r"
    "h_occurred_at h = d_time d (v_occurred_at r)" "h_validation_history_id h = e_history_uuid e"
    "d_uuid d (v_correlation_id r) = Some (h_correlation_id h)"
  using assms by (auto simp: validation_row_def text_param_def split: if_splits Option.bind_splits)

lemma record_path_inserts:
  assumes inv: "db_inv db"
    and "call e LockPackage (lock_package d db i) = Inr x"
    and "call e SelectTerminal (select_terminal d db i) = Inr False"
    and "call e SelectPrior (select_prior d db i) = Inr prior \<or>
        prior = StatusReceived \<and> (\<exists>err. call e SelectPrior (select_prior d db i) = Inl err \<and> errors_is err ErrNoRows)"
    and "call e InsertValidation (bind_params (validation_row d e i prior r) (insert_history db)) = Inr tx"
    and "call e UpdateStatus (update_status d tx i (v_validation_status r)) = Inr tx2"
    and "enqueue_outbox L d st e tx2 ''evidence.validation.recorded'' TopicValidation
         (v_correlation_id r) i (recorded_payload i prior r) (v_occurred_at r) = Inr tx3"
  shows "\<exists>p h. record_inserts L d st e db i r p h tx3"
proof -
  obtain p where p: "p \<in> set (evidence_packages db)" and u: "d_uuid d i = Some (p_evidence_package_id p)"
    using assms(2) by (auto simp: call_Inr lock_package_def map_sum_def split: sum.splits dest!: select_package_Inr)
  have no: "\<not> terminal_decision_exists db (p_evidence_package_id p)"
    using assms(3) u by (simp add: call_Inr select_terminal_def bind_params_def)
  have prior: "prior = StatusReceived"
    using assms(4) select_prior_received [OF inv p u no] by (auto simp: call_Inr)
  obtain h where h: "validation_row d e i StatusReceived r = Some h" "history_checks h"
      "h_validation_history_id h \<notin> h_validation_history_id ` set (evidence_validation_history db)"
    and tx: "tx = db\<lparr>evidence_validation_history := evidence_validation_history db @ [h]\<rparr>"
    using assms(5) prior by (auto simp: call_Inr bind_params_Inr insert_history_Inr)
  have upd: "tx2 = tx\<lparr>evidence_packages := map (decided (p_evidence_package_id p) (v_validation_status r)) (evidence_packages tx)\<rparr>"
    "p_validation_status p = StatusReceived \<and> terminal_status (v_validation_status r)"
    using assms(6) update_status_Inr [of d tx i "v_validation_status r" tx2] u p tx
    by (auto simp: call_Inr)
  obtain rows where rows: "tx3 = tx2\<lparr>evidence_outbox := evidence_outbox tx2 @ rows\<rparr>"
      "fresh_events tx2 (p_evidence_package_id p) TopicValidation rows"
      "rows = [] \<longleftrightarrow> st_signer st = None" "decided_event L d st e i r = Some rows"
    using enqueue_outbox_Inr [OF assms(7) u] unfolding prior decided_event_def by blast
  have "record_inserts L d st e db i r p h tx3"
    by (rule record_inserts.intros [OF p u upd(2) [THEN conjunct1] upd(2) [THEN conjunct2] h, of rows])
      (use rows tx upd(1) in \<open>simp_all add: fresh_events_def\<close>)
  then show ?thesis by blast
qed

lemma record_commit:
  assumes "db_inv db" and "record_validation L d st e db i r = (res, db')"
  shows "(\<exists>err. res = Inl err \<and> db' = db) \<or>
    (\<exists>p h tx. record_inserts L d st e db i r p h tx \<and>
       commit e ''commit validation history'' db tx () = (res, db'))"
  using record_paths [OF assms(2)] record_path_inserts [OF assms(1)] by blast

lemma record_cases:
  assumes "db_inv db" and "record_validation L d st e db i r = (res, db')"
  obtains (failed) err where "res = Inl err" "db' = db"
  | (recorded) p h where "record_inserts L d st e db i r p h db'" "res = Inr ()" "e_commit e = CommitOk"
  | (lost) p h m where "record_inserts L d st e db i r p h db'" "e_commit e = CommitLost m"
      "res = Inl (Wrap ''commit validation history'' (External m))"
  using record_commit [OF assms]
proof (elim disjE exE conjE)
  fix err assume "res = Inl err" "db' = db"
  then show thesis by (rule failed)
next
  fix p h tx
  assume "record_inserts L d st e db i r p h tx"
    and "commit e ''commit validation history'' db tx () = (res, db')"
  then show thesis
    using failed recorded lost by (auto simp: commit_def split: commit_outcome.splits)
qed

text \<open>
  What \<open>RecordValidation\<close> does, as one labelled step: it decides the addressed package with the status of
  the request, the history row made from the request and the event built for it.
\<close>

definition validation_decides ::
  "libs \<Rightarrow> driver \<Rightarrow> store \<Rightarrow> env \<Rightarrow> string \<Rightarrow> validation_request \<Rightarrow> database \<Rightarrow> database \<Rightarrow> bool" where
  "validation_decides L d st e i r db db' \<longleftrightarrow>
     (\<exists>uuid h rows. d_uuid d i = Some uuid \<and> validation_row d e i StatusReceived r = Some h \<and>
        decided_event L d st e i r = Some rows \<and>
        custody_event_step (Decide uuid (v_validation_status r) h rows) db db')"

lemma record_inserts_decides:
  assumes "record_inserts L d st e db i r p h db'"
  shows "validation_decides L d st e i r db db'"
  using assms
proof cases
  case (1 rows)
  note f = validation_row_fields [OF 1(5)]
  have "custody_event_step (Decide (p_evidence_package_id p) (v_validation_status r) h rows) db db'"
    using 1 f by (auto simp: custody_event_step_def)
  then show ?thesis using 1 unfolding validation_decides_def by blast
qed

lemma record_inserts_step: "record_inserts L d st e db i r p h db' \<Longrightarrow> custody_step db db'"
  using record_inserts_decides event_step_custody unfolding validation_decides_def by blast

lemma record_step:
  assumes "db_inv db" and "record_validation L d st e db i r = (res, db')"
  shows "db' = db \<or> custody_step db db'"
  using assms by (cases rule: record_cases) (auto dest: record_inserts_step)

text \<open>
  (C6) \<open>RecordValidation\<close> refines the chain of custody. It reports success only after a commit that was
  acknowledged, and then the database is exactly one step further, the one that decides the addressed
  package, from received to the status of the request, with the request's history row and the event
  of the decision. Whatever fails, the database is the old one, or the commit took effect
  unacknowledged and it is that decide step further.
\<close>

theorem record_validation_refines:
  assumes "db_inv db" and "record_validation L d st e db i r = (res, db')"
  shows "case res of
      Inr _ \<Rightarrow> e_commit e = CommitOk \<and> validation_decides L d st e i r db db'
    | Inl err \<Rightarrow> db' = db \<or>
        (\<exists>m. e_commit e = CommitLost m \<and> err = Wrap ''commit validation history'' (External m) \<and>
           validation_decides L d st e i r db db')"
  using assms by (cases rule: record_cases) (auto dest: record_inserts_decides)

end
