(* ===== verification/Evidence_Behaviour.thy ===== *)
theory Evidence_Behaviour
  imports Evidence_Custody
begin

text \<open>
  What the operations of the store do, on every branch: creation and its idempotent retry, the single
  terminal decision, reads, listing and paging; and what never changes over the life of the system.
\<close>

subsection \<open>A quiet call\<close>

text \<open>A call in which nothing fails: every statement is carried out and the commit is acknowledged.\<close>

definition quiet :: "env \<Rightarrow> bool" where
  "quiet e \<longleftrightarrow> e_fault e = (\<lambda>_. None) \<and> e_commit e = CommitOk \<and> service_on e"

lemma quiet_call [simp]: "quiet e \<Longrightarrow> call e c r = r"
  by (simp add: quiet_def call_def)

lemma quiet_commit [simp]: "quiet e \<Longrightarrow> commit e msg db tx v = (Inr v, tx)"
  by (simp add: quiet_def commit_def)

subsection \<open>What never changes\<close>

text \<open>The packages of a later database: the old ones, with at most the status changed, and new ones.\<close>

definition successor :: "package \<Rightarrow> package \<Rightarrow> bool" where
  "successor p q \<longleftrightarrow>
     q = p \<or> (p_validation_status p = StatusReceived \<and>
        (\<exists>s. terminal_status s \<and> q = p\<lparr>p_validation_status := s\<rparr>))"

lemma successor_refl [simp]: "successor p p"
  by (simp add: successor_def)

lemma successor_trans: "successor p q \<Longrightarrow> successor q r \<Longrightarrow> successor p r"
  by (auto simp: successor_def)

lemma successor_status: "successor p q \<Longrightarrow> q = p\<lparr>p_validation_status := p_validation_status q\<rparr>"
  by (auto simp: successor_def)

definition evolves :: "database \<Rightarrow> database \<Rightarrow> bool" where
  "evolves db db' \<longleftrightarrow>
     list_all2 successor (evidence_packages db)
       (take (length (evidence_packages db)) (evidence_packages db')) \<and>
     prefix (evidence_validation_history db) (evidence_validation_history db')"

lemma evolves_refl [simp]: "evolves db db"
  by (simp add: evolves_def list_all2_same)

lemma evolves_trans:
  assumes "evolves a b" and "evolves b c"
  shows "evolves a c"
proof -
  let ?n = "length (evidence_packages a)"
  have n: "?n \<le> length (evidence_packages b)"
    using assms(1) list_all2_lengthD by (fastforce simp: evolves_def)
  have "list_all2 successor (take ?n (evidence_packages b)) (take ?n (evidence_packages c))"
    using list_all2_takeI [of successor "evidence_packages b" _ ?n] assms(2) n
    by (fastforce simp: evolves_def min_absorb1)
  then have "list_all2 successor (evidence_packages a) (take ?n (evidence_packages c))"
    using assms(1) list_all2_trans [of successor successor successor] successor_trans
    unfolding evolves_def by blast
  then show ?thesis
    using assms prefix_order.trans unfolding evolves_def by blast
qed

lemma decide_successors:
  assumes "db_inv db" "p \<in> set (evidence_packages db)" "p_evidence_package_id p = i"
    "p_validation_status p = StatusReceived" "terminal_status s"
  shows "list_all2 successor (evidence_packages db) (map (decided i s) (evidence_packages db))"
proof -
  have "successor q (decided i s q)" if q: "q \<in> set (evidence_packages db)" for q
    using distinct_id_eq [OF assms(1) q assms(2)] assms(3-5) by (auto simp: decided_def successor_def)
  then show ?thesis by (simp add: list_all2_conv_all_nth)
qed

lemma step_evolves: "custody_step db db' \<Longrightarrow> db_inv db \<Longrightarrow> evolves db db'"
proof (induction rule: custody_step.induct)
  case (receive p db h rows)
  then show ?case by (simp add: evolves_def list_all2_same)
next
  case (decide p db i s h rows)
  then show ?case using decide_successors [OF decide(10) decide(1-4)] by (simp add: evolves_def)
next
  case (publish db ids t)
  then show ?case by (simp add: evolves_def list_all2_same)
qed

lemma steps_evolve:
  assumes "custody_step\<^sup>*\<^sup>* db db'" and "db_inv db"
  shows "db_inv db' \<and> evolves db db'"
  using assms
  by (induction rule: rtranclp_induct) (auto intro: db_inv_step step_evolves evolves_trans)

lemma package_survives:
  assumes "evolves db db'" and "p \<in> set (evidence_packages db)"
  shows "\<exists>q \<in> set (evidence_packages db'). successor p q"
proof -
  obtain i where i: "i < length (evidence_packages db)" "evidence_packages db ! i = p"
    using assms(2) by (auto simp: in_set_conv_nth)
  let ?qs = "take (length (evidence_packages db)) (evidence_packages db')"
  have l: "list_all2 successor (evidence_packages db) ?qs" using assms(1) by (simp add: evolves_def)
  then have "successor p (?qs ! i)" using i list_all2_nthD by blast
  moreover have "?qs ! i \<in> set (evidence_packages db')"
    using i list_all2_lengthD [OF l] by (metis in_set_takeD nth_mem)
  ultimately show ?thesis ..
qed

subsection \<open>Create\<close>

lemma create_result:
  assumes "env_laws d e" and "create L d st e db r = (res, db')"
  shows "case res of
      Inr (p, True) \<Rightarrow>
        package_row d e r = Some p \<and> p_tenant_id p = cr_tenant_id r \<and>
        evidence_packages db' = evidence_packages db @ [p] \<and>
        evidence_validation_history db' = evidence_validation_history db @ [initial_history e p] \<and>
        (\<exists>rows. evidence_outbox db' = evidence_outbox db @ rows \<and>
           length rows = (if st_signer st = None then 0 else 1))
    | Inr (p, False) \<Rightarrow>
        db' = db \<and> p \<in> set (evidence_packages db) \<and> p_tenant_id p = cr_tenant_id r \<and>
        create_request_matches_package r p
    | Inl err \<Rightarrow> db' = db \<or> (\<exists>m. e_commit e = CommitLost m)"
  using assms
proof (cases rule: create_cases)
  case (inserted p)
  then show ?thesis
    by (auto elim!: create_inserts.cases simp: created_db_def fresh_events_def length_Suc_conv le_Suc_eq
        dest: package_row_fields(4))
qed auto

text \<open>
  (C18) A successful creation appends exactly one package with the request's fields in the caller's
  tenant, one history row that says it was received, and one event if the outbox is wired; any other
  answer leaves no trace unless the commit took effect unacknowledged, and an idempotent answer is a
  retained package of the same tenant that the request matches.
\<close>

theorem create_functional:
  assumes "env_laws d e" and "create L d st e db r = (res, db')"
  shows "case res of
      Inr (p, True) \<Rightarrow>
        package_row d e r = Some p \<and> p_tenant_id p = cr_tenant_id r \<and>
        evidence_packages db' = evidence_packages db @ [p] \<and>
        evidence_validation_history db' = evidence_validation_history db @ [initial_history e p] \<and>
        (\<exists>rows. evidence_outbox db' = evidence_outbox db @ rows \<and>
           length rows = (if st_signer st = None then 0 else 1))
    | Inr (p, False) \<Rightarrow>
        db' = db \<and> p \<in> set (evidence_packages db) \<and> p_tenant_id p = cr_tenant_id r \<and>
        create_request_matches_package r p
    | Inl err \<Rightarrow> db' = db \<or> (\<exists>m. e_commit e = CommitLost m)"
  using assms by (rule create_result)

text \<open>A request's parameters can be stored, and the row they give passes the schema's checks.\<close>

lemma package_row_checks:
  assumes "package_row d e r = Some p" and "create_validate ipl r = None"
  shows "package_checks p"
proof -
  have wf: "create_wf ipl r" using assms(2) create_validate_wf by blast
  then show ?thesis
    using package_row_fields [OF assms(1)]
    by (auto simp: package_checks_def create_wf_def sql_not_blank_field location_not_blank
        status_allowed_iff valid_classifications_def)
qed

lemma initial_history_checks: "history_checks (initial_history e p)"
  by (simp add: history_checks_def initial_history_def status_allowed_iff sql_not_blank_def)

lemma package_row_find:
  assumes "db_inv db" and "p \<in> set (evidence_packages db)"
  shows "find (\<lambda>q. p_tenant_id q = p_tenant_id p \<and> p_idempotency_key q = p_idempotency_key p)
    (evidence_packages db) = Some p"
proof (rule find_unique [OF assms(2)])
  have "inj_on (\<lambda>p. (p_tenant_id p, p_idempotency_key p)) (set (evidence_packages db))"
    using assms(1) by (simp add: db_inv_def distinct_map)
  then show "q = p" if "q \<in> set (evidence_packages db)"
    and "p_tenant_id q = p_tenant_id p \<and> p_idempotency_key q = p_idempotency_key p" for q
    using that assms(2) inj_onD by fastforce
qed simp

lemma id_find:
  assumes "db_inv db" and "p \<in> set (evidence_packages db)"
  shows "find (\<lambda>q. p_evidence_package_id q = p_evidence_package_id p) (evidence_packages db) = Some p"
  by (rule find_unique [OF assms(2)]) (auto dest: distinct_id_eq [OF assms(1) _ assms(2)])

text \<open>The answer to a request whose key the tenant has used already.\<close>

lemma create_retained:
  assumes "db_inv db" and "p \<in> set (evidence_packages db)" and "quiet e"
    and "trim_space (cr_tenant_id r) \<noteq> []" and "package_row d e r = Some row" and "package_checks row"
    and "p_tenant_id row = p_tenant_id p" and "p_idempotency_key row = p_idempotency_key p"
  shows "create L d st e db r =
    (if create_request_matches_package r p then Inr (p, False) else Inl ErrIdempotencyConflict, db)"
proof -
  have "idempotency_taken db (p_tenant_id row) (p_idempotency_key row)"
    using assms(2,7,8) by (auto simp: idempotency_taken_def list_ex_iff)
  then have ins: "insert_package db row = Inr (db, None)"
    using assms(6) by (simp add: insert_package_None)
  have "text_param d (cr_tenant_id r) = Some (p_tenant_id p)"
    using assms(5,7) by (auto simp: package_row_def split: Option.bind_splits)
  moreover have "d_uuid d (cr_idempotency_key r) = Some (p_idempotency_key p)"
    using package_row_fields(5) [OF assms(5)] assms(8) by simp
  ultimately have "select_retained d db r = Inr p"
    using package_row_find [OF assms(1,2)] by (simp add: select_retained_def bind_params_def)
  then show ?thesis
    using assms(3-5) ins by (simp add: create_def bind_params_def)
qed

text \<open>
  (C20) A retry: once a creation has taken effect (whether or not its acknowledgement arrived), the
  same request, at any later time and whatever has happened to the database since, is answered with
  the package it created, created flag off and nothing inserted, provided the request's identifiers
  are in canonical form and its timestamp survives storage.
\<close>

theorem create_retry:
  assumes "db_inv db" and "env_laws d e" and "create L d st e db r = (res, db1)" and "db1 \<noteq> db"
    and "custody_step\<^sup>*\<^sup>* db1 db2" and "quiet e2"
    and "d_uuid d (cr_idempotency_key r) = Some (cr_idempotency_key r)"
    and "d_uuid d (cr_correlation_id r) = Some (cr_correlation_id r)"
    and "d_time d (cr_received_at r) = cr_received_at r"
  shows "\<exists>p q. package_row d e r = Some p \<and> successor p q \<and> create L d st e2 db2 r = (Inr (q, False), db2)"
proof -
  obtain p where ci: "create_inserts L d st e db r p db1"
    using assms(2,3) by (cases rule: create_cases) (use assms(4) in auto)
  then have row: "package_row d e r = Some p" and k: "package_checks p"
    and p: "p \<in> set (evidence_packages db1)"
    by (auto elim!: create_inserts.cases simp: created_db_def)
  have "db_inv db1" using db_inv_step [OF create_inserts_step [OF ci] assms(1)] .
  then have inv2: "db_inv db2" and ev: "evolves db1 db2" using steps_evolve [OF assms(5)] by blast+
  obtain q where q: "q \<in> set (evidence_packages db2)" "successor p q"
    using package_survives [OF ev p] by blast
  define p2 where "p2 = p\<lparr>p_evidence_package_id := e_package_uuid e2, p_created_at := e_now e2\<rparr>"
  have row2: "package_row d e2 r = Some p2"
    using row by (auto simp: package_row_def p2_def split: Option.bind_splits)
  have same: "p_tenant_id q = p_tenant_id p" "p_idempotency_key q = p_idempotency_key p"
    "p_external_reference q = p_external_reference p" "p_evidence_type q = p_evidence_type p"
    "p_content_sha256 q = p_content_sha256 p" "p_content_location q = p_content_location p"
    "p_received_at q = p_received_at p" "p_classification q = p_classification p"
    "p_correlation_id q = p_correlation_id p"
    using successor_status [OF q(2)] by (metis package.surjective package.update_convs(12) package.select_convs)+
  have "create_request_matches_package r q"
    using package_row_fields [OF row] assms(7-9) same by (auto simp: create_request_matches_package_def)
  moreover have "trim_space (cr_tenant_id r) \<noteq> []"
    using assms(3,4) by (auto simp: create_def split: if_splits)
  moreover have "package_checks p2" using k by (simp add: p2_def package_checks_def)
  ultimately have "create L d st e2 db2 r = (Inr (q, False), db2)"
    using create_retained [OF inv2 q(1) assms(6) _ row2] same by (simp add: p2_def)
  then show ?thesis using row q(2) by blast
qed

text \<open>
  (C21) The same retry is refused as a conflict when the timestamp loses precision in storage (Go reads
  nanoseconds, \<open>timestamptz\<close> keeps microseconds) or an identifier is not in canonical form (\<open>isUUID\<close>
  admits upper-case digits, the database returns lower-case ones): an identical request, right after
  its creation, is told that its idempotency key conflicts.
\<close>

theorem create_retry_conflict:
  assumes "db_inv db" and "env_laws d e" and "create L d st e db r = (Inr (p, True), db1)" and "quiet e2"
    and "d_time d (cr_received_at r) \<noteq> cr_received_at r
      \<or> d_uuid d (cr_idempotency_key r) \<noteq> Some (cr_idempotency_key r)
      \<or> d_uuid d (cr_correlation_id r) \<noteq> Some (cr_correlation_id r)"
  shows "create L d st e2 db1 r = (Inl ErrIdempotencyConflict, db1)"
proof -
  have ci: "create_inserts L d st e db r p db1"
    using assms(2,3) by (cases rule: create_cases) auto
  then have row: "package_row d e r = Some p" and k: "package_checks p"
    and p: "p \<in> set (evidence_packages db1)"
    by (auto elim!: create_inserts.cases simp: created_db_def)
  have inv: "db_inv db1" using db_inv_step [OF create_inserts_step [OF ci] assms(1)] .
  define p2 where "p2 = p\<lparr>p_evidence_package_id := e_package_uuid e2, p_created_at := e_now e2\<rparr>"
  have row2: "package_row d e2 r = Some p2"
    using row by (auto simp: package_row_def p2_def split: Option.bind_splits)
  have "\<not> create_request_matches_package r p"
    using package_row_fields [OF row] assms(5) by (auto simp: create_request_matches_package_def)
  moreover have "trim_space (cr_tenant_id r) \<noteq> []"
    using assms(3) by (auto simp: create_def split: if_splits)
  moreover have "package_checks p2" using k by (simp add: p2_def package_checks_def)
  ultimately show ?thesis
    using create_retained [OF inv p assms(4) _ row2] by (simp add: p2_def)
qed

subsection \<open>The outbox does not get in the way\<close>

lemma payload_json_total:
  assumes "\<And>k t. (k, PTime t) \<in> set kvs \<Longrightarrow> marshal_time t \<noteq> None"
  shows "\<exists>text. payload_json kvs = Inr text \<and> text \<noteq> [] \<and> json_all text \<noteq> None"
proof -
  let ?f = "\<lambda>(k, v). (quote k, case v of PString s \<Rightarrow> jstr s | PTime t \<Rightarrow> jstr (the (marshal_time t)))"
  let ?j = "JObj (map ?f (go_map kvs))"
  have "\<not> list_ex (\<lambda>(k, v). case v of PString _ \<Rightarrow> False | PTime t \<Rightarrow> marshal_time t = None) kvs"
    using assms by (fastforce simp: list_ex_iff split: payload_value.splits)
  then have j: "payload_json kvs = Inr (render ?j)" by (simp add: payload_json_def)
  have "wf_json (Suc 9999) ?j"
    unfolding wf_json_Suc by (auto simp: list_all_iff ok_lit_quote split: payload_value.split)
  moreover have "max_depth = Suc 9999" by (simp add: max_depth_def)
  ultimately have "json_all (render ?j) = Some ?j" using json_all_render by metis
  moreover have "render ?j \<noteq> []" by simp
  ultimately show ?thesis using j by auto
qed

text \<open>The column for the event takes the JSON of this event.\<close>

definition event_storable :: "driver \<Rightarrow> envelope result \<Rightarrow> bool" where
  "event_storable d ev =
     (case ev of Inl _ \<Rightarrow> True
      | Inr envelope \<Rightarrow> (case marshal_envelope envelope of Inl _ \<Rightarrow> True | Inr j \<Rightarrow> d_jsonb d j \<noteq> None))"

text \<open>A wired outbox: the producer principal is not blank, the libraries work, the row is new.\<close>

definition outbox_ready :: "libs \<Rightarrow> store \<Rightarrow> env \<Rightarrow> database \<Rightarrow> bool" where
  "outbox_ready L st e db \<longleftrightarrow>
     jcs_total L \<and> trim_space (st_principal_id st) \<noteq> [] \<and> trim_space (st_principal_role st) \<noteq> [] \<and>
     e_outbox_uuid e \<notin> o_event_id ` set (evidence_outbox db)"

lemma enqueue_total:
  assumes "quiet e" and "st_signer st \<noteq> None \<Longrightarrow> outbox_ready L st e tx" and "trim_space et \<noteq> []"
    and "topic \<in> {''evidence.package.v1'', ''evidence.validation.v1''}"
    and "et \<in> {''evidence.package.received'', ''evidence.validation.recorded''}"
    and "trim_space corr \<noteq> []" "trim_space subject \<noteq> []" "d_uuid d subject = Some u" "package_exists tx u"
    and "\<And>k t. (k, PTime t) \<in> set payload \<Longrightarrow> marshal_time t \<noteq> None" and "marshal_time at \<noteq> None"
    and "event_storable d (outbox_event L st e et topic corr subject payload at)"
  shows "\<exists>tx'. enqueue_outbox L d st e tx et topic corr subject payload at = Inr tx'"
proof (cases "st_signer st")
  case None
  then show ?thesis by (simp add: enqueue_outbox_def)
next
  case (Some s)
  then have ready: "outbox_ready L st e tx" using assms(2) by simp
  obtain pj where pj: "payload_json payload = Inr pj" "pj \<noteq> []" "json_all pj \<noteq> None"
    using payload_json_total assms(10) by blast
  obtain t where t: "marshal_time at = Some t" using assms(11) by blast
  let ?pr = "\<lparr>pr_principal_id = st_principal_id st, pr_principal_role = st_principal_role st,
           pr_signature = [], pr_ledger_commit_hash = []\<rparr>"
  have "valid_topic topic" using assms(4) by (auto simp: valid_topic_def TopicPackage_def TopicValidation_def)
  then obtain ev where ev: "message L (e_message_uuids e) et topic corr subject pj [] ?pr at (Some s) = Inr ev"
    "e_occurred_at ev = at"
    using message_total [of L et topic corr subject ?pr pj at t "e_message_uuids e" s]
      ready assms(3,6,7) pj t by (auto simp: outbox_ready_def)
  obtain j where j: "marshal_envelope ev = Inr j" using ev(2) t by (simp add: marshal_envelope_def)
  have "outbox_event L st e et topic corr subject payload at = Inr ev"
    using Some pj(1) ev(1) by (simp add: outbox_event_def)
  then obtain stored where "d_jsonb d j = Some stored"
    using assms(12) j by (auto simp: event_storable_def)
  then show ?thesis
    using Some pj(1) ev(1) j ready assms(1,4,5,8,9)
    by (simp add: enqueue_outbox_def bind_params_def insert_outbox_def outbox_checks_def outbox_ready_def quiet_def)
qed

lemma package_uuid_shape:
  "driver_laws d \<Longrightarrow> d_uuid d u = Some v \<Longrightarrow> trim_space v \<noteq> [] \<and> d_uuid d v = Some v"
  using uuid_shape_not_blank by (auto simp: driver_laws_def)

lemma create_total:
  assumes "driver_laws d" and "env_laws d e" and "quiet e"
    and "create_validate ipl r = None" and "package_row d e r = Some p"
    and "\<not> idempotency_taken db (p_tenant_id p) (p_idempotency_key p)"
    and "\<not> package_exists db (e_package_uuid e)"
    and "e_history_uuid e \<notin> h_validation_history_id ` set (evidence_validation_history db)"
    and "st_signer st \<noteq> None \<Longrightarrow> outbox_ready L st e db" and "marshal_time (p_received_at p) \<noteq> None"
    and "event_storable d (outbox_event L st e ''evidence.package.received'' TopicPackage
       (p_correlation_id p) (p_evidence_package_id p) (received_payload p) (p_received_at p))"
  shows "\<exists>db'. create L d st e db r = (Inr (p, True), db')"
proof -
  note f = package_row_fields [OF assms(5)]
  let ?tx = "db\<lparr>evidence_packages := evidence_packages db @ [p]\<rparr>"
  let ?tx2 = "?tx\<lparr>evidence_validation_history := evidence_validation_history db @ [initial_history e p]\<rparr>"
  have tenant: "trim_space (cr_tenant_id r) \<noteq> []"
    using assms(4) create_validate_wf [of ipl r] by (simp add: create_wf_def blank_or_longer_def)
  have ins: "insert_package db p = Inr (?tx, Some p)"
    using package_row_checks [OF assms(5,4)] assms(6,7) f(1) by (simp add: insert_package_Some)
  have hist: "insert_history ?tx (initial_history e p) = Inr ?tx2"
    using assms(8) f(1) by (simp add: insert_history_Inr initial_history_checks)
  have id: "d_uuid d (p_evidence_package_id p) = Some (p_evidence_package_id p)"
    using assms(2) f(1) by (simp add: env_laws_def)
  have nb: "trim_space (p_correlation_id p) \<noteq> []" "trim_space (p_evidence_package_id p) \<noteq> []"
    using package_uuid_shape [OF assms(1) f(6)] package_uuid_shape [OF assms(1) id] by simp_all
  have "\<exists>tx'. enqueue_outbox L d st e ?tx2 ''evidence.package.received'' TopicPackage (p_correlation_id p)
      (p_evidence_package_id p) (received_payload p) (p_received_at p) = Inr tx'"
    by (rule enqueue_total [OF assms(3) _ _ _ _ nb id _ _ assms(10,11)])
      (use assms(9,10) in \<open>auto simp: outbox_ready_def trim_space_all_graphic graphic_def TopicPackage_def
         received_payload_def\<close>)
  then show ?thesis
    using assms(3,5) tenant ins hist by (auto simp: create_def bind_params_def)
qed

text \<open>
  (C19) A valid request whose values can be stored, under a key its tenant has not used, is accepted
  when nothing fails: the checks of the Go code are strong enough for the constraints of the schema,
  and the signed event is built and appended along with it.
\<close>

theorem create_available:
  assumes "driver_laws d" and "env_laws d e" and "quiet e"
    and "create_validate ipl r = None" and "package_row d e r = Some p"
    and "\<not> idempotency_taken db (p_tenant_id p) (p_idempotency_key p)"
    and "\<not> package_exists db (e_package_uuid e)"
    and "e_history_uuid e \<notin> h_validation_history_id ` set (evidence_validation_history db)"
    and "st_signer st \<noteq> None \<Longrightarrow> outbox_ready L st e db" and "marshal_time (p_received_at p) \<noteq> None"
    and "event_storable d (outbox_event L st e ''evidence.package.received'' TopicPackage
       (p_correlation_id p) (p_evidence_package_id p) (received_payload p) (p_received_at p))"
  shows "\<exists>db'. create L d st e db r = (Inr (p, True), db')"
  using assms by (rule create_total)

subsection \<open>RecordValidation\<close>

lemma record_result:
  assumes "db_inv db" and "record_validation L d st e db i r = (res, db')"
  shows "case res of
      Inr _ \<Rightarrow> (\<exists>p h rows.
        p \<in> set (evidence_packages db) \<and> d_uuid d i = Some (p_evidence_package_id p) \<and>
        p_validation_status p = StatusReceived \<and> terminal_status (v_validation_status r) \<and>
        evidence_packages db' =
          map (decided (p_evidence_package_id p) (v_validation_status r)) (evidence_packages db) \<and>
        evidence_validation_history db' = evidence_validation_history db @ [h] \<and>
        h_evidence_package_id h = p_evidence_package_id p \<and>
        h_prior_validation_status h = Some StatusReceived \<and>
        h_validation_status h = v_validation_status r \<and> h_reason_code h = v_reason_code r \<and>
        h_actor_subject_reference h = v_actor_subject_reference r \<and>
        h_occurred_at h = d_time d (v_occurred_at r) \<and>
        evidence_outbox db' = evidence_outbox db @ rows \<and>
        length rows = (if st_signer st = None then 0 else 1))
    | Inl err \<Rightarrow> db' = db \<or> (\<exists>m. e_commit e = CommitLost m)"
  using assms
proof (cases rule: record_cases)
  case (recorded p h)
  from recorded(1) show ?thesis
  proof cases
    case (1 rows)
    have l: "length rows = (if st_signer st = None then 0 else 1)"
      using 1(8,9) by (auto simp: fresh_events_def length_Suc_conv le_Suc_eq)
    note f = validation_row_fields [OF 1(5)]
    have "h_evidence_package_id h = p_evidence_package_id p" using f(1) 1(2) by simp
    then show ?thesis
      unfolding recorded(2) sum.case using 1 f l
      by (intro exI [of _ p] exI [of _ h] exI [of _ rows]) simp
  qed
qed auto

text \<open>
  (C30) A decision that is recorded turns exactly the addressed package from received to the requested
  terminal status, appends one history row with the actual prior status, the reason, actor and time
  of the request, and one event if the outbox is wired; an error leaves no trace unless the commit
  took effect unacknowledged. (The README of the integration suite still describes the state before
  migration 0004, when the row kept its received status.)
\<close>

theorem record_validation_functional:
  assumes "db_inv db" and "record_validation L d st e db i r = (res, db')"
  shows "case res of
      Inr _ \<Rightarrow> (\<exists>p h rows.
        p \<in> set (evidence_packages db) \<and> d_uuid d i = Some (p_evidence_package_id p) \<and>
        p_validation_status p = StatusReceived \<and> terminal_status (v_validation_status r) \<and>
        evidence_packages db' =
          map (decided (p_evidence_package_id p) (v_validation_status r)) (evidence_packages db) \<and>
        evidence_validation_history db' = evidence_validation_history db @ [h] \<and>
        h_evidence_package_id h = p_evidence_package_id p \<and>
        h_prior_validation_status h = Some StatusReceived \<and>
        h_validation_status h = v_validation_status r \<and> h_reason_code h = v_reason_code r \<and>
        h_actor_subject_reference h = v_actor_subject_reference r \<and>
        h_occurred_at h = d_time d (v_occurred_at r) \<and>
        evidence_outbox db' = evidence_outbox db @ rows \<and>
        length rows = (if st_signer st = None then 0 else 1))
    | Inl err \<Rightarrow> db' = db \<or> (\<exists>m. e_commit e = CommitLost m)"
  using assms by (rule record_result)

lemma record_decided:
  assumes "db_inv db" and "p \<in> set (evidence_packages db)" and "p_validation_status p \<noteq> StatusReceived"
    and "custody_step\<^sup>*\<^sup>* db db'" and "d_uuid d i = Some (p_evidence_package_id p)" and "quiet e"
  shows "record_validation L d st e db' i r = (Inl ErrTerminalValidation, db')"
proof -
  have inv: "db_inv db'" and "evolves db db'" using steps_evolve [OF assms(4,1)] by blast+
  then obtain q where q: "q \<in> set (evidence_packages db')" "successor p q"
    using package_survives assms(2) by blast
  then have "q = p" using assms(3) by (simp add: successor_def)
  then have p: "p \<in> set (evidence_packages db')" using q by simp
  have "terminal_decision_exists db' (p_evidence_package_id p)"
    by (rule decided_has_terminal [OF inv p assms(3)])
  moreover have "select_package d db' i = Inr p"
    using id_find [OF inv p] assms(5) by (simp add: select_package_find)
  ultimately show ?thesis
    using assms(5,6) by (simp add: record_validation_def lock_package_def select_terminal_def bind_params_def)
qed

text \<open>
  (C31) One terminal decision: once a package is decided, every further decision on it is answered with
  \<open>ErrTerminalValidation\<close> and changes nothing, whatever else has happened since.
\<close>

theorem record_validation_terminal:
  assumes "db_inv db" and "p \<in> set (evidence_packages db)" and "p_validation_status p \<noteq> StatusReceived"
    and "custody_step\<^sup>*\<^sup>* db db'" and "d_uuid d i = Some (p_evidence_package_id p)" and "quiet e"
  shows "record_validation L d st e db' i r = (Inl ErrTerminalValidation, db')"
  using assms by (rule record_decided)

lemma find_package_None:
  "find (\<lambda>p. p_evidence_package_id p = u) (evidence_packages db) = None \<longleftrightarrow> \<not> package_exists db u"
  by (auto simp: find_None_conv package_exists_def)

text \<open>
  A decision on an identifier no package has is answered with \<open>ErrNotFound\<close>, so the API can tell
  it from a conflict.
\<close>

theorem record_validation_unknown:
  assumes "d_uuid d i = Some u" and "\<not> package_exists db u" and "quiet e"
  shows "record_validation L d st e db i r = (Inl ErrNotFound, db)"
proof -
  have "select_package d db i = Inl ErrNoRows"
    using assms(1,2) by (simp add: select_package_def bind_params_def find_package_None [THEN iffD2])
  then show ?thesis using assms(3) by (simp add: record_validation_def lock_package_def)
qed

lemma validation_row_checks:
  assumes "validation_row d e i prior r = Some h" and "validation_validate r = None"
  shows "history_checks h" and "terminal_status (v_validation_status r)"
proof -
  have wf: "validation_wf r" using assms(2) validation_validate_wf by blast
  then show "terminal_status (v_validation_status r)" by (auto simp: validation_wf_def terminal_status_iff)
  then show "history_checks h"
    using wf validation_row_fields [OF assms(1)]
    by (auto simp: history_checks_def validation_wf_def status_allowed_iff terminal_status_iff
        intro: sql_not_blank_field)
qed

lemma update_status_ok:
  assumes "db_inv db" and "p \<in> set (evidence_packages db)" and "p_validation_status p = StatusReceived"
    and "d_uuid d i = Some (p_evidence_package_id p)" and "d_storable d s" and "terminal_status s"
    and "evidence_packages tx = evidence_packages db"
  shows "\<exists>tx'. update_status d tx i s = Inr tx' \<and>
    tx' = tx\<lparr>evidence_packages := evidence_packages tx'\<rparr> \<and>
    (\<forall>u. package_exists tx' u \<longleftrightarrow> package_exists tx u)"
proof -
  have "q = p" if "q \<in> set (evidence_packages tx)" "p_evidence_package_id q = p_evidence_package_id p" for q
    using distinct_id_eq [OF assms(1) _ assms(2)] that assms(7) by simp
  moreover have "package_checks p" using assms(1,2) by (simp add: db_inv_def)
  ultimately have ok:
    "\<not> list_ex (\<lambda>q. p_evidence_package_id q = p_evidence_package_id p \<and>
        \<not> mutation_allowed TG_UPDATE q (q\<lparr>p_validation_status := s\<rparr>)) (evidence_packages tx)"
    "\<not> list_ex (\<lambda>q. p_evidence_package_id q = p_evidence_package_id p \<and>
        \<not> package_checks (q\<lparr>p_validation_status := s\<rparr>)) (evidence_packages tx)"
    using assms(3,6)
    by (auto simp: list_ex_iff mutation_allowed_def status_defs terminal_status_def package_checks_def status_allowed_def)
  have ids: "p_evidence_package_id ` set (map (\<lambda>q. if p_evidence_package_id q = p_evidence_package_id p
      then q\<lparr>p_validation_status := s\<rparr> else q) ps) = p_evidence_package_id ` set ps" for ps
    by (induction ps) auto
  have "update_status d tx i s = Inr (tx\<lparr>evidence_packages :=
      map (\<lambda>q. if p_evidence_package_id q = p_evidence_package_id p
        then q\<lparr>p_validation_status := s\<rparr> else q) (evidence_packages tx)\<rparr>)"
    using ok assms(4,5) by (simp add: update_status_def bind_params_def text_param_def update_packages_def)
  then show ?thesis by (simp add: package_exists_def ids del: set_map)
qed

lemma record_total:
  assumes "db_inv db" and "quiet e" and "validation_validate r = None"
    and "p \<in> set (evidence_packages db)" and "p_validation_status p = StatusReceived"
    and "d_uuid d i = Some (p_evidence_package_id p)" and "trim_space i \<noteq> []"
    and "validation_row d e i StatusReceived r = Some h"
    and "e_history_uuid e \<notin> h_validation_history_id ` set (evidence_validation_history db)"
    and "st_signer st \<noteq> None \<Longrightarrow> outbox_ready L st e db" and "marshal_time (v_occurred_at r) \<noteq> None"
    and "event_storable d (outbox_event L st e ''evidence.validation.recorded'' TopicValidation
       (v_correlation_id r) i (recorded_payload i StatusReceived r) (v_occurred_at r))"
  shows "\<exists>db'. record_validation L d st e db i r = (Inr (), db')"
proof -
  note f = validation_row_fields [OF assms(8)]
  have checks: "history_checks h" and trm: "terminal_status (v_validation_status r)"
    using validation_row_checks [OF assms(8,3)] by blast+
  have no: "\<not> terminal_decision_exists db (p_evidence_package_id p)" by (rule received_undecided [OF assms(1,4,5)])
  have lock: "select_package d db i = Inr p"
    using id_find [OF assms(1,4)] assms(6) by (simp add: select_package_find)
  have prior: "select_prior d db i = Inr StatusReceived"
    by (rule select_prior_received [OF assms(1,4,6) no])
  have hid: "h_evidence_package_id h = p_evidence_package_id p" using f(1) assms(6) by simp
  have ex: "package_exists db (p_evidence_package_id p)" using assms(4) by (simp add: package_exists_def)
  let ?tx = "db\<lparr>evidence_validation_history := evidence_validation_history db @ [h]\<rparr>"
  have ins: "insert_history db h = Inr ?tx"
    using checks assms(9) f(7) no hid ex by (simp add: insert_history_Inr)
  have stor: "d_storable d (v_validation_status r)"
    using assms(8) by (auto simp: validation_row_def text_param_def split: if_splits Option.bind_splits)
  obtain tx where tx: "update_status d ?tx i (v_validation_status r) = Inr tx"
    "tx = ?tx\<lparr>evidence_packages := evidence_packages tx\<rparr>" "package_exists tx (p_evidence_package_id p)"
    using update_status_ok [OF assms(1,4,5,6) stor trm, of ?tx] ex by auto
  have out: "evidence_outbox tx = evidence_outbox db"
    by (subst tx(2)) simp
  have corr: "trim_space (v_correlation_id r) \<noteq> []"
    using assms(3) uuid_shape_not_blank validation_validate_wf [of r] by (simp add: validation_wf_def)
  have "\<exists>tx'. enqueue_outbox L d st e tx ''evidence.validation.recorded'' TopicValidation
      (v_correlation_id r) i (recorded_payload i StatusReceived r) (v_occurred_at r) = Inr tx'"
    by (rule enqueue_total [OF assms(2) _ _ _ _ corr assms(7,6) tx(3) _ assms(11,12)])
      (use assms(10,11) out in \<open>auto simp: outbox_ready_def trim_space_all_graphic graphic_def TopicValidation_def
         recorded_payload_def\<close>)
  then show ?thesis
    using assms(2,6,8) lock no prior ins tx(1)
    by (auto simp: record_validation_def lock_package_def select_terminal_def bind_params_def)
qed

text \<open>
  (C32) A valid decision on a received package is recorded when nothing fails: neither the immutability
  trigger nor the unique index on terminal decisions stands in its way.
\<close>

theorem record_validation_available:
  assumes "db_inv db" and "quiet e" and "validation_validate r = None"
    and "p \<in> set (evidence_packages db)" and "p_validation_status p = StatusReceived"
    and "d_uuid d i = Some (p_evidence_package_id p)" and "trim_space i \<noteq> []"
    and "validation_row d e i StatusReceived r = Some h"
    and "e_history_uuid e \<notin> h_validation_history_id ` set (evidence_validation_history db)"
    and "st_signer st \<noteq> None \<Longrightarrow> outbox_ready L st e db" and "marshal_time (v_occurred_at r) \<noteq> None"
    and "event_storable d (outbox_event L st e ''evidence.validation.recorded'' TopicValidation
       (v_correlation_id r) i (recorded_payload i StatusReceived r) (v_occurred_at r))"
  shows "\<exists>db'. record_validation L d st e db i r = (Inr (), db')"
  using assms by (rule record_total)

subsection \<open>Get and List\<close>

lemma get_result:
  assumes "db_inv db" and "d_uuid d i = Some u"
  shows "case e_fault e GetPackage of
      Some m \<Rightarrow> get d e db i = Inl (Wrap ''get evidence package'' (External m))
    | None \<Rightarrow>
        (get d e db i = Inl ErrNotFound \<longleftrightarrow> \<not> package_exists db u) \<and>
        (\<forall>p. get d e db i = Inr p \<longleftrightarrow> p \<in> set (evidence_packages db) \<and> p_evidence_package_id p = u)"
proof (cases "e_fault e GetPackage")
  case (Some m)
  then show ?thesis by (simp add: get_def call_def)
next
  case None
  have g: "get d e db i = (case find (\<lambda>p. p_evidence_package_id p = u) (evidence_packages db) of
      None \<Rightarrow> Inl ErrNotFound | Some p \<Rightarrow> Inr p)"
    using None assms(2) by (simp add: get_def call_def select_package_def bind_params_def split: option.split)
  have some: "find (\<lambda>p. p_evidence_package_id p = u) (evidence_packages db) = Some p
      \<longleftrightarrow> p \<in> set (evidence_packages db) \<and> p_evidence_package_id p = u" for p
    using id_find [OF assms(1), of p] by (auto dest!: find_Some_conv)
  show ?thesis
  proof (cases "find (\<lambda>p. p_evidence_package_id p = u) (evidence_packages db)")
    case no: None
    then show ?thesis
      using some find_package_None [of u db] unfolding None g by simp
  next
    case (Some q)
    then show ?thesis
      using some [symmetric] find_package_None [of u db] unfolding None g by auto
  qed
qed

text \<open>
  \<open>Get\<close> returns the retained package of an identifier, \<open>ErrNotFound\<close> exactly when there is none,
  and any failure of the call as an error that is not \<open>ErrNotFound\<close>.
\<close>

theorem get_functional:
  assumes "db_inv db" and "d_uuid d i = Some u"
  shows "case e_fault e GetPackage of
      Some m \<Rightarrow> get d e db i = Inl (Wrap ''get evidence package'' (External m))
    | None \<Rightarrow>
        (get d e db i = Inl ErrNotFound \<longleftrightarrow> \<not> package_exists db u) \<and>
        (\<forall>p. get d e db i = Inr p \<longleftrightarrow> p \<in> set (evidence_packages db) \<and> p_evidence_package_id p = u)"
  using assms by (rule get_result)

definition tenant_packages :: "database \<Rightarrow> string \<Rightarrow> package list" where
  "tenant_packages db tenant = filter (\<lambda>p. p_tenant_id p = tenant) (evidence_packages db)"

lemma list_packages_quiet:
  assumes "quiet e" and "trim_space tenant \<noteq> []" and "d_storable d tenant"
  shows "list_packages d e db tenant (int limit) (int offset) =
    Inr (take limit (drop offset (sort_key list_order (tenant_packages db tenant))))"
  using assms by (simp add: list_packages_def bind_params_def text_param_def tenant_packages_def)

text \<open>
  A page of the listing holds at most \<open>limit\<close> packages, all of the one tenant, latest first and
  by identifier among equal times.
\<close>

theorem list_packages_page:
  assumes "list_packages d e db tenant limit offset = Inr ps"
  shows "0 \<le> limit \<and> int (length ps) \<le> limit \<and> trim_space tenant \<noteq> [] \<and>
    list_all (\<lambda>p. p \<in> set (evidence_packages db) \<and> p_tenant_id p = tenant) ps \<and>
    sorted_wrt (\<lambda>p q. p_received_at q < p_received_at p \<or>
      (p_received_at p = p_received_at q \<and> p_evidence_package_id p \<le> p_evidence_package_id q)) ps"
proof -
  let ?all = "sort_key list_order (tenant_packages db tenant)"
  have ok: "trim_space tenant \<noteq> []" "0 \<le> limit" and ps: "ps = take (nat limit) (drop (nat offset) ?all)"
    using assms by (auto simp: list_packages_def call_def bind_params_def text_param_def tenant_packages_def
        split: if_splits option.splits sum.splits)
  have "sorted (map list_order ps)"
    unfolding ps take_map [symmetric] drop_map [symmetric]
    by (intro sorted_wrt_take sorted_wrt_drop) simp
  then have "sorted_wrt (\<lambda>p q. list_order p \<le> list_order q) ps" by (simp add: sorted_wrt_map)
  then have "sorted_wrt (\<lambda>p q. p_received_at q < p_received_at p \<or>
      (p_received_at p = p_received_at q \<and> p_evidence_package_id p \<le> p_evidence_package_id q)) ps"
    by (rule sorted_wrt_mono_rel [rotated]) (auto simp: list_order_def less_eq_prod_def)
  moreover have "set ps \<subseteq> set (tenant_packages db tenant)"
    using set_take_subset [of "nat limit" "drop (nat offset) ?all"] set_drop_subset [of "nat offset" ?all]
    by (auto simp: ps)
  ultimately show ?thesis
    using ok by (auto simp: ps tenant_packages_def list_all_iff)
qed

lemma pages_concat: "0 < n \<Longrightarrow> concat (map (\<lambda>k. take n (drop (k * n) xs)) [0..<m]) = take (m * n) xs"
proof (induction m)
  case (Suc m)
  have "take (m * n + n) xs = take (m * n) xs @ take n (drop (m * n) xs)" by (rule take_add)
  then show ?case using Suc by (simp add: add.commute [of n])
qed simp

text \<open>The order of a listing as a reader sees it: later packages first, equal times by identifier.\<close>

lemma strictly_listed:
  assumes "sorted (map list_order ps)" and "distinct (map p_evidence_package_id ps)"
  shows "sorted_wrt (\<lambda>p q. p_received_at q < p_received_at p \<or>
    p_received_at p = p_received_at q \<and> p_evidence_package_id p < p_evidence_package_id q) ps"
  using assms
proof (induction ps)
  case (Cons p ps)
  have "p_received_at q < p_received_at p \<or>
      p_received_at p = p_received_at q \<and> p_evidence_package_id p < p_evidence_package_id q" if q: "q \<in> set ps" for q
  proof -
    have "list_order p \<le> list_order q" using Cons.prems(1) q by simp
    moreover have "p_evidence_package_id p \<noteq> p_evidence_package_id q" using Cons.prems(2) q by auto
    ultimately show ?thesis by (auto simp: list_order_def less_eq_prod_def)
  qed
  then show ?case using Cons by simp
qed simp

text \<open>
  (C38) Paging misses nothing and repeats nothing: the pages of one limit, read in turn from a database
  that does not change, are together the packages of the tenant, each exactly once, strictly ordered
  from the latest to the earliest and by identifier among equal times. The order leaves no choice, so
  it is the same whatever order the rows are kept in.
\<close>

theorem list_packages_paging:
  assumes "db_inv db" and "\<And>k. quiet (es k)" and "trim_space tenant \<noteq> []" and "d_storable d tenant"
    and "0 < limit" and "length (tenant_packages db tenant) \<le> pages * limit"
    and "listing = concat (map (\<lambda>k. case list_packages d (es k) db tenant (int limit) (int (k * limit)) of
           Inl _ \<Rightarrow> [] | Inr ps \<Rightarrow> ps) [0..<pages])"
  shows "mset listing = mset (filter (\<lambda>p. p_tenant_id p = tenant) (evidence_packages db)) \<and>
    distinct (map p_evidence_package_id listing) \<and>
    sorted_wrt (\<lambda>p q. p_received_at q < p_received_at p \<or>
      p_received_at p = p_received_at q \<and> p_evidence_package_id p < p_evidence_package_id q) listing"
proof -
  let ?all = "sort_key list_order (tenant_packages db tenant)"
  have "(\<lambda>k. case list_packages d (es k) db tenant (int limit) (int (k * limit)) of Inl _ \<Rightarrow> [] | Inr ps \<Rightarrow> ps)
    = (\<lambda>k. take limit (drop (k * limit) ?all))"
    using list_packages_quiet [OF assms(2-4)] by (metis sum.case(2))
  then have listing: "listing = ?all"
    using assms(5,6) unfolding assms(7) by (simp only: pages_concat) simp
  have perm: "mset listing = mset (tenant_packages db tenant)" by (simp add: listing)
  have "distinct (map p_evidence_package_id (tenant_packages db tenant))"
    using assms(1) by (simp add: db_inv_def tenant_packages_def distinct_map_filter)
  then have ids: "distinct (map p_evidence_package_id listing)"
    using perm by (metis mset_eq_imp_distinct_iff mset_map)
  moreover have "sorted (map list_order listing)" by (simp add: listing)
  ultimately show ?thesis
    using perm strictly_listed unfolding tenant_packages_def by blast
qed

end
