(* ===== verification/Evidence_Samples.thy ===== *)
theory Evidence_Samples
  imports Evidence_Behaviour
begin

text \<open>
  Concrete runs of the store: a driver with the documented behaviour of PostgreSQL, one request, one
  decision, and the databases they lead to. The witnesses of the store's theorems are evaluated here.
\<close>

definition sample_driver :: driver where
  "sample_driver = \<lparr>d_uuid = (\<lambda>u. if is_uuid u then Some (map lower_char u) else None),
     d_storable = (\<lambda>s. utf8 s \<and> CHR 0x00 \<notin> set s),
     d_time = (\<lambda>t. t div 1000 * 1000), d_jsonb = (\<lambda>j. Some j)\<rparr>"

lemma lower_char_hex: "hex_value c \<noteq> None \<Longrightarrow> hex_value (lower_char c) \<noteq> None"
proof (cases "0x41 \<le> byte c \<and> byte c \<le> 0x5A")
  case True
  moreover assume "hex_value c \<noteq> None"
  ultimately have "byte c \<le> 0x46" by (auto simp: hex_value_def Let_def split: if_splits)
  then show ?thesis using True by (simp add: hex_value_def lower_char_def)
qed (auto simp: lower_char_def)

lemma lower_char_idem: "lower_char (lower_char c) = lower_char c"
  by (auto simp: lower_char_def)

lemma lower_uuid: "uuid_shape u \<Longrightarrow> uuid_shape (map lower_char u)"
  by (auto simp: uuid_shape_def lower_char_hex split: if_splits) (simp add: lower_char_def)

lemma sample_driver_laws: "driver_laws sample_driver"
  by (auto simp: driver_laws_def sample_driver_def is_uuid_iff_shape lower_uuid lower_char_idem)

definition id_a :: string where "id_a = ''11111111-1111-1111-1111-11111111111a''"
definition id_b :: string where "id_b = ''22222222-2222-2222-2222-22222222222b''"
definition id_c :: string where "id_c = ''33333333-3333-3333-3333-33333333333c''"
definition id_d :: string where "id_d = ''44444444-4444-4444-4444-44444444444d''"
definition id_e :: string where "id_e = ''55555555-5555-5555-5555-55555555555e''"

definition sample_request :: create_request where
  "sample_request = \<lparr>cr_idempotency_key = id_a, cr_tenant_id = ''tenant'', cr_external_reference = ''ref'',
     cr_evidence_type = ''log'', cr_content_sha256 = replicate 64 CHR ''a'',
     cr_content_location = ''s3://bucket/key'', cr_received_at = 1700000000000000000,
     cr_classification = ''internal'', cr_correlation_id = id_b\<rparr>"

definition sample_decision :: validation_request where
  "sample_decision = \<lparr>v_validation_status = ''validated'', v_reason_code = ''ok'',
     v_actor_subject_reference = ''subject'', v_occurred_at = 1700000001000000000, v_correlation_id = id_b\<rparr>"

definition env_at :: "string \<Rightarrow> string \<Rightarrow> string \<Rightarrow> commit_outcome \<Rightarrow> env" where
  "env_at i h ob c = \<lparr>e_fault = (\<lambda>_. None), e_package_uuid = i, e_history_uuid = h, e_outbox_uuid = ob,
     e_message_uuids = (id_d, id_e), e_now = 1700000000500000000, e_commit = c, e_evidence_service = ''on''\<rparr>"

definition sample_env :: env where "sample_env = env_at id_c id_d id_e CommitOk"
definition sample_env2 :: env where "sample_env2 = env_at id_d id_e id_c CommitOk"

definition sample_store :: store where
  "sample_store = \<lparr>st_signer = Some sample_signer, st_principal_id = ''svc'', st_principal_role = ''service''\<rparr>"

lemma quiet_at [simp]: "quiet (env_at i h ob CommitOk)"
  by (simp add: quiet_def env_at_def service_on_def)

lemma quiet_samples [simp]: "quiet sample_env" "quiet sample_env2"
  by (simp_all add: sample_env_def sample_env2_def)

definition sample_package :: package where
  "sample_package = \<lparr>p_evidence_package_id = id_c, p_idempotency_key = id_a, p_tenant_id = ''tenant'',
     p_external_reference = ''ref'', p_evidence_type = ''log'', p_content_sha256 = replicate 64 CHR ''a'',
     p_content_location = ''s3://bucket/key'', p_received_at = 1700000000000000000,
     p_classification = ''internal'', p_correlation_id = id_b, p_created_at = 1700000000500000000,
     p_validation_status = ''received''\<rparr>"

definition db1 :: database where
  "db1 = snd (create sample_libs sample_driver new_store sample_env empty_database sample_request)"

definition db2 :: database where
  "db2 = snd (record_validation sample_libs sample_driver new_store sample_env2 db1 id_c sample_decision)"

lemma run_create:
  "fst (create sample_libs sample_driver new_store sample_env empty_database sample_request)
     = Inr (sample_package, True)"
  by code_simp

lemma run_validate: "create_validate (\<lambda>_. None) sample_request = None" "validation_validate sample_decision = None"
  by code_simp+

lemma run_row: "package_row sample_driver sample_env sample_request = Some sample_package"
  by code_simp

lemma run_record: "isl (fst (record_validation sample_libs sample_driver new_store sample_env2 db1 id_c sample_decision)) = False"
  by code_simp

lemma env_laws_sample: "env_laws sample_driver sample_env"
  by code_simp

lemma create_db1:
  "create sample_libs sample_driver new_store sample_env empty_database sample_request
     = (Inr (sample_package, True), db1)"
  by (simp add: db1_def run_create prod_eq_iff)

lemma record_db2:
  "record_validation sample_libs sample_driver new_store sample_env2 db1 id_c sample_decision = (Inr (), db2)"
  using run_record by (cases "record_validation sample_libs sample_driver new_store sample_env2 db1 id_c sample_decision")
    (auto simp: db2_def not_isl_conv)

lemma db1_new: "db1 \<noteq> empty_database" "evidence_packages db1 = [sample_package]"
proof -
  show p: "evidence_packages db1 = [sample_package]" by code_simp
  moreover have "evidence_packages empty_database = []" by (simp add: empty_database_def)
  ultimately show "db1 \<noteq> empty_database" by (metis list.distinct(1))
qed

lemma step_db1: "custody_step empty_database db1"
  using create_step [OF env_laws_sample create_db1] db1_new(1) by blast

lemma reachable_db1: "reachable db1"
  using step_db1 by (simp add: reachable_def)

lemma inv_db1: "db_inv db1"
  using reachable_db1 by (rule reachable_inv)

lemma db2_packages: "evidence_packages db2 = [sample_package\<lparr>p_validation_status := ''validated''\<rparr>]"
  by code_simp

lemma step_db2: "custody_step db1 db2"
proof -
  have "db2 \<noteq> db1" using db1_new(2) db2_packages by (auto simp: sample_package_def)
  then show ?thesis using record_step [OF inv_db1 record_db2] by blast
qed

lemma reachable_db2: "reachable db2"
  using reachable_db1 step_db2 by (auto simp: reachable_def)

lemma sample_storable: "event_storable sample_driver ev"
  by (auto simp: event_storable_def sample_driver_def split: sum.split)

lemma sample_ready: "e_outbox_uuid e \<notin> o_event_id ` set (evidence_outbox db) \<Longrightarrow>
    outbox_ready sample_libs sample_store e db"
proof -
  have "trim_space (st_principal_id sample_store) \<noteq> []" "trim_space (st_principal_role sample_store) \<noteq> []"
    by code_simp+
  then show "e_outbox_uuid e \<notin> o_event_id ` set (evidence_outbox db) \<Longrightarrow> ?thesis"
    by (simp add: outbox_ready_def sample_total)
qed

text \<open>The same two operations with the outbox wired.\<close>

lemma wired_create: "\<exists>db'. create sample_libs sample_driver sample_store sample_env empty_database sample_request
    = (Inr (sample_package, True), db')"
proof (rule create_total [OF sample_driver_laws env_laws_sample quiet_samples(1) run_validate(1) run_row])
  show "marshal_time (p_received_at sample_package) \<noteq> None" by code_simp
qed (simp_all add: idempotency_taken_def package_exists_def empty_database_def sample_storable sample_ready)

lemma create_refines_witness:
  "\<exists>db'. create sample_libs sample_driver sample_store sample_env empty_database sample_request = (Inr (sample_package, True), db') \<and>
     create_receives sample_libs sample_driver sample_store sample_env sample_request sample_package empty_database db'"
  using wired_create create_refines [OF env_laws_sample] by fastforce

lemma wired_record:
  "\<exists>db'. record_validation sample_libs sample_driver sample_store sample_env2 db1 id_c sample_decision = (Inr (), db')"
proof (rule record_total [OF inv_db1 quiet_samples(2) run_validate(2)])
  show "sample_package \<in> set (evidence_packages db1)" by (simp add: db1_new(2))
  show "p_validation_status sample_package = StatusReceived" by (simp add: sample_package_def status_defs)
  show "d_uuid sample_driver id_c = Some (p_evidence_package_id sample_package)" "trim_space id_c \<noteq> []"
    "validation_row sample_driver sample_env2 id_c StatusReceived sample_decision =
      Some (the (validation_row sample_driver sample_env2 id_c StatusReceived sample_decision))"
    "e_history_uuid sample_env2 \<notin> h_validation_history_id ` set (evidence_validation_history db1)"
    "marshal_time (v_occurred_at sample_decision) \<noteq> None"
    by code_simp+
  have "evidence_outbox db1 = []" by code_simp
  then show "outbox_ready sample_libs sample_store sample_env2 db1" by (simp add: sample_ready)
qed (rule sample_storable)

lemma record_validation_refines_witness:
  "\<exists>db'. record_validation sample_libs sample_driver sample_store sample_env2 db1 id_c sample_decision = (Inr (), db') \<and>
     validation_decides sample_libs sample_driver sample_store sample_env2 id_c sample_decision db1 db'"
  using wired_record record_validation_refines [OF inv_db1] by fastforce

text \<open>What \<open>Validate\<close> accepts and what it refuses: a query, a type of 129 bytes, an upper-case digest.\<close>

lemma create_validate_iff_witness:
  "create_validate (\<lambda>_. None) sample_request = None \<and>
   create_validate (\<lambda>_. None) (sample_request\<lparr>cr_content_location := ''s3://bucket/key?version=1''\<rparr>) \<noteq> None \<and>
   create_validate (\<lambda>_. None) (sample_request\<lparr>cr_evidence_type := replicate 129 CHR ''t''\<rparr>) \<noteq> None \<and>
   create_validate (\<lambda>_. None) (sample_request\<lparr>cr_content_sha256 := replicate 64 CHR ''A''\<rparr>) \<noteq> None \<and>
   create_validate (\<lambda>_. None) (sample_request\<lparr>cr_classification := ''secret''\<rparr>) \<noteq> None"
proof -
  have "map_option u_raw_query (parse_request_uri (\<lambda>_. None) ''s3://bucket/key?version=1'') = Some ''version=1''"
    "\<not> list_all lower_hex (replicate 64 CHR ''A'')"
    by code_simp+
  then show ?thesis
    using run_validate(1) by (intro conjI) (auto simp: create_validate_iff)
qed

lemma create_functional_witness:
  "package_row sample_driver sample_env sample_request = Some sample_package \<and>
   evidence_packages db1 = evidence_packages empty_database @ [sample_package] \<and>
   evidence_validation_history db1 = evidence_validation_history empty_database @ [initial_history sample_env sample_package]"
  using create_functional [OF env_laws_sample create_db1] by simp

text \<open>The same request, with a timestamp that microseconds can hold, is answered idempotently.\<close>

lemma create_retry_witness:
  "\<exists>p q. package_row sample_driver sample_env sample_request = Some p \<and> successor p q \<and>
     create sample_libs sample_driver new_store sample_env2 db2 sample_request = (Inr (q, False), db2)"
proof (rule create_retry [OF db_inv_empty env_laws_sample create_db1 db1_new(1)])
  show "custody_step\<^sup>*\<^sup>* db1 db2" using step_db2 by (rule r_into_rtranclp)
  show "quiet sample_env2" by simp
  show "d_uuid sample_driver (cr_idempotency_key sample_request) = Some (cr_idempotency_key sample_request)"
    "d_uuid sample_driver (cr_correlation_id sample_request) = Some (cr_correlation_id sample_request)"
    "d_time sample_driver (cr_received_at sample_request) = cr_received_at sample_request"
    by code_simp+
qed

text \<open>A timestamp with nanoseconds is not.\<close>

definition precise_request :: create_request where
  "precise_request = sample_request\<lparr>cr_received_at := 1700000000000000001\<rparr>"

definition precise_db :: database where
  "precise_db = snd (create sample_libs sample_driver new_store sample_env empty_database precise_request)"

lemma create_precise:
  "create sample_libs sample_driver new_store sample_env empty_database precise_request
     = (Inr (sample_package, True), precise_db)"
proof -
  have "fst (create sample_libs sample_driver new_store sample_env empty_database precise_request)
      = Inr (sample_package, True)" by code_simp
  then show ?thesis by (simp add: precise_db_def prod_eq_iff)
qed

lemma create_retry_conflict_witness:
  "create sample_libs sample_driver new_store sample_env2 precise_db precise_request
     = (Inl ErrIdempotencyConflict, precise_db)"
proof (rule create_retry_conflict [OF db_inv_empty env_laws_sample create_precise])
  have "d_time sample_driver (cr_received_at precise_request) \<noteq> cr_received_at precise_request" by code_simp
  then show "d_time sample_driver (cr_received_at precise_request) \<noteq> cr_received_at precise_request
      \<or> d_uuid sample_driver (cr_idempotency_key precise_request) \<noteq> Some (cr_idempotency_key precise_request)
      \<or> d_uuid sample_driver (cr_correlation_id precise_request) \<noteq> Some (cr_correlation_id precise_request)" ..
qed simp

lemma create_available_witness:
  "\<exists>db'. create sample_libs sample_driver sample_store sample_env empty_database sample_request
     = (Inr (sample_package, True), db')"
proof (rule create_available [OF sample_driver_laws env_laws_sample quiet_samples(1) run_validate(1) run_row])
  show "marshal_time (p_received_at sample_package) \<noteq> None" by code_simp
qed (simp_all add: idempotency_taken_def package_exists_def empty_database_def sample_storable sample_ready)

lemma record_validation_functional_witness:
  "evidence_packages db2 = map (decided id_c ''validated'') (evidence_packages db1)"
  using record_validation_functional [OF inv_db1 record_db2]
  by (auto simp: db1_new(2) sample_package_def sample_decision_def)

lemma record_validation_terminal_witness:
  "record_validation sample_libs sample_driver new_store sample_env db2 id_c sample_decision
     = (Inl ErrTerminalValidation, db2)"
proof (rule record_validation_terminal [OF reachable_inv [OF reachable_db2]])
  show "sample_package\<lparr>p_validation_status := ''validated''\<rparr> \<in> set (evidence_packages db2)"
    by (simp add: db2_packages)
  show "d_uuid sample_driver id_c = Some (p_evidence_package_id (sample_package\<lparr>p_validation_status := ''validated''\<rparr>))"
    by code_simp
qed (simp_all add: status_defs)

lemma record_validation_unknown_witness:
  "record_validation sample_libs sample_driver sample_store sample_env db1 id_e sample_decision
     = (Inl ErrNotFound, db1)"
proof (rule record_validation_unknown)
  show "d_uuid sample_driver id_e = Some id_e" by code_simp
  show "\<not> package_exists db1 id_e"
    by (simp add: package_exists_def db1_new(2) sample_package_def id_c_def id_e_def)
qed simp

lemma record_validation_available_witness:
  "\<exists>db'. record_validation sample_libs sample_driver sample_store sample_env2 db1 id_c sample_decision = (Inr (), db')"
proof (rule record_validation_available [OF inv_db1 quiet_samples(2) run_validate(2)])
  show "sample_package \<in> set (evidence_packages db1)" by (simp add: db1_new(2))
  show "p_validation_status sample_package = StatusReceived" by (simp add: sample_package_def status_defs)
  show "d_uuid sample_driver id_c = Some (p_evidence_package_id sample_package)" "trim_space id_c \<noteq> []"
    "validation_row sample_driver sample_env2 id_c StatusReceived sample_decision =
      Some (the (validation_row sample_driver sample_env2 id_c StatusReceived sample_decision))"
    "e_history_uuid sample_env2 \<notin> h_validation_history_id ` set (evidence_validation_history db1)"
    "marshal_time (v_occurred_at sample_decision) \<noteq> None"
    by code_simp+
  have "evidence_outbox db1 = []" by code_simp
  then show "outbox_ready sample_libs sample_store sample_env2 db1" by (simp add: sample_ready)
qed (rule sample_storable)

lemma get_functional_witness:
  "get sample_driver sample_env db1 id_e = Inl ErrNotFound \<longleftrightarrow> \<not> package_exists db1 id_e"
proof -
  have "d_uuid sample_driver id_e = Some id_e" by code_simp
  from get_functional [OF inv_db1 this, of sample_env] show ?thesis
    by (simp add: sample_env_def env_at_def)
qed

lemma list_packages_page_witness:
  "list_all (\<lambda>p. p_tenant_id p = ''tenant'') [sample_package]"
proof -
  have "list_packages sample_driver sample_env db1 ''tenant'' 10 0 = Inr [sample_package]" by code_simp
  from list_packages_page [OF this] show ?thesis by (auto simp: list_all_iff)
qed

text \<open>Two packages of one time, the second with the lower identifier, in pages of one.\<close>

definition sample_request2 :: create_request where
  "sample_request2 = sample_request\<lparr>cr_idempotency_key := id_e\<rparr>"

definition db3 :: database where
  "db3 = snd (create sample_libs sample_driver new_store (env_at id_b id_e id_a CommitOk) db1 sample_request2)"

lemma db3_packages: "evidence_packages db3 = [sample_package,
    sample_package\<lparr>p_evidence_package_id := id_b, p_idempotency_key := id_e\<rparr>]"
  by code_simp

lemma inv_db3: "db_inv db3"
proof -
  have "env_laws sample_driver (env_at id_b id_e id_a CommitOk)" by code_simp
  then have "db3 = db1 \<or> custody_step db1 db3" unfolding db3_def by (rule create_step) (simp add: prod_eq_iff)
  then show ?thesis using inv_db1 db_inv_step by metis
qed

lemma list_packages_paging_witness:
  "\<exists>listing. listing = concat (map (\<lambda>k. case list_packages sample_driver sample_env db3 ''tenant'' (int 1) (int (k * 1)) of
           Inl _ \<Rightarrow> [] | Inr ps \<Rightarrow> ps) [0..<2]) \<and>
     mset listing = mset (evidence_packages db3) \<and> length listing = 2 \<and> distinct (map p_evidence_package_id listing)"
proof (intro exI conjI)
  let ?l = "concat (map (\<lambda>k. case list_packages sample_driver sample_env db3 ''tenant'' (int 1) (int (k * 1)) of
           Inl _ \<Rightarrow> [] | Inr ps \<Rightarrow> ps) [0..<2])"
  have tenant: "trim_space ''tenant'' \<noteq> []" "d_storable sample_driver ''tenant''" by code_simp+
  have all: "tenant_packages db3 ''tenant'' = evidence_packages db3"
    by (simp add: tenant_packages_def db3_packages sample_package_def)
  then have "length (tenant_packages db3 ''tenant'') \<le> 2 * 1" by (simp add: db3_packages)
  from list_packages_paging [OF inv_db3 quiet_samples(1) tenant zero_less_one this refl]
  show l: "mset ?l = mset (evidence_packages db3)" and "distinct (map p_evidence_package_id ?l)"
    using all unfolding tenant_packages_def by simp_all
  show "length ?l = 2" using mset_eq_length [OF l] by (simp add: db3_packages)
qed simp

lemma delete_packages_witness:
  "delete_packages db1 (\<lambda>p. p_tenant_id p = ''other'') = Inr db1"
  by code_simp

lemma delete_packages_no_effect_witness: "db1 = db1 \<and> delete_packages db1 (\<lambda>p. p_tenant_id p = ''other'') = Inr db1"
  using delete_packages_no_effect [OF delete_packages_witness] delete_packages_witness by simp

lemma update_packages_immutable_witness:
  "\<exists>db'. update_packages db1 (\<lambda>_. True) (\<lambda>p. p\<lparr>p_validation_status := ''rejected''\<rparr>) = Inr db' \<and>
    (\<exists>g. evidence_packages db' = map g (evidence_packages db1))"
proof -
  have "isl (update_packages db1 (\<lambda>_. True) (\<lambda>p. p\<lparr>p_validation_status := ''rejected''\<rparr>)) = False" by code_simp
  then obtain db' where u: "update_packages db1 (\<lambda>_. True) (\<lambda>p. p\<lparr>p_validation_status := ''rejected''\<rparr>) = Inr db'"
    by (cases "update_packages db1 (\<lambda>_. True) (\<lambda>p. p\<lparr>p_validation_status := ''rejected''\<rparr>)") simp_all
  show ?thesis
    using update_packages_immutable [OF u]
  proof (elim exE conjE)
    fix g assume "evidence_packages db' = map g (evidence_packages db1)"
    then have "\<exists>g. evidence_packages db' = map g (evidence_packages db1)" by (rule exI [of _ g])
    with u show ?thesis by (intro exI [of _ db']) (rule conjI)
  qed
qed

end
