(* ===== verification/Go_Http.thy ===== *)
theory Go_Http
  imports Go_Strings "HOL-Library.Word"
begin

unbundle bit_operations_syntax

text \<open>
  \<open>net/http\<close> and \<open>net\<close> as the repository uses them: requests and responses, header lookup, bounded
  reads of a body, and the address functions \<open>net.SplitHostPort\<close>, \<open>net.ParseIP\<close> and
  \<open>IPNet.Contains\<close>.
\<close>

subsection \<open>Requests and responses\<close>

text \<open>
  A body delivers bytes and then ends or fails. \<open>rq_path\<close> is the path of the request line as it was
  sent, escapes included; \<open>rq_query\<close> is the raw query.
\<close>

record body =
  b_bytes :: string
  b_fault :: "string option"

record http_request =
  rq_method :: string
  rq_path :: string
  rq_query :: string
  rq_headers :: "(string \<times> string list) list"
  rq_remote_addr :: string
  rq_body :: body

record http_response =
  rs_status :: nat
  rs_headers :: "(string \<times> string) list"
  rs_body :: string

text \<open>\<open>Header.Get\<close> for a name in canonical form: the first value, or the empty string.\<close>

definition header_get :: "http_request \<Rightarrow> string \<Rightarrow> string" where
  "header_get r name =
     (case map_of (rq_headers r) name of Some (v # _) \<Rightarrow> v | _ \<Rightarrow> [])"

definition json_response :: "nat \<Rightarrow> string \<Rightarrow> http_response" where
  "json_response status content =
     \<lparr>rs_status = status, rs_headers = [(''Content-Type'', ''application/json'')], rs_body = content\<rparr>"

text \<open>
  \<open>io.ReadAll(io.LimitReader(body, n))\<close>: at most \<open>n\<close> bytes; a failure after the limit is not seen.
\<close>

definition mebibyte :: nat where "mebibyte = 1048576"

definition read_limited :: "nat \<Rightarrow> body \<Rightarrow> string result" where
  "read_limited n b =
     (if n \<le> length (b_bytes b) then Inr (take n (b_bytes b))
      else case b_fault b of None \<Rightarrow> Inr (b_bytes b) | Some m \<Rightarrow> Inl (External m))"

lemma read_limited_length: "read_limited n b = Inr s \<Longrightarrow> length s \<le> n"
  by (auto simp: read_limited_def split: if_splits option.splits)

subsection \<open>Addresses\<close>

text \<open>
  \<open>net.SplitHostPort\<close>. The port follows the last colon; a bracketed host ends just before it, a bare
  host has no colon, and no further bracket may occur.
\<close>

definition split_host_port :: "string \<Rightarrow> (string \<times> string) option" where
  "split_host_port s =
     (case cut_last CHR '':'' s of
        None \<Rightarrow> None
      | Some (front, port) \<Rightarrow>
          if has_prefix s ''['' then
            (case cut_at CHR '']'' s of
               (_, None) \<Rightarrow> None
             | (h, Some rest) \<Rightarrow>
                 if rest \<noteq> CHR '':'' # port \<or> CHR ''['' \<in> set (tl s) \<or> CHR '']'' \<in> set rest
                 then None else Some (tl h, port))
          else if CHR '':'' \<in> set front \<or> CHR ''['' \<in> set s \<or> CHR '']'' \<in> set s then None
          else Some (front, port))"

text \<open>An address is its bytes: 16 of them from \<open>ParseIP\<close>, 4 or 16 in a network.\<close>

type_synonym ip = "8 word list"

text \<open>The fields of a dotted quad: decimal, no leading zero, at most 255.\<close>

definition dec_digit :: "char \<Rightarrow> bool" where
  "dec_digit c \<longleftrightarrow> 0x30 \<le> byte c \<and> byte c \<le> 0x39"

definition ipv4_field :: "string \<Rightarrow> 8 word option" where
  "ipv4_field f =
     (let v = foldl (\<lambda>n c. 10 * n + (byte c - 0x30)) 0 f in
      if f = [] \<or> \<not> list_all dec_digit f \<or> (has_prefix f ''0'' \<and> f \<noteq> ''0'') \<or> 255 < v then None
      else Some (word_of_nat v))"

definition ipv4_fields :: "string \<Rightarrow> ip option" where
  "ipv4_fields s =
     (let fs = map ipv4_field (split_on CHR ''.'' s) in
      if length fs = 4 \<and> list_all (\<lambda>f. f \<noteq> None) fs then Some (map the fs) else None)"

definition nibble :: "char \<Rightarrow> nat option" where
  "nibble c =
     (if dec_digit c then Some (byte c - 0x30)
      else if 0x61 \<le> byte c \<and> byte c \<le> 0x66 then Some (byte c - 0x57)
      else if 0x41 \<le> byte c \<and> byte c \<le> 0x46 then Some (byte c - 0x37)
      else None)"

definition is_nibble :: "char \<Rightarrow> bool" where
  "is_nibble c \<longleftrightarrow> nibble c \<noteq> None"

text \<open>
  The loop of \<open>parseIPv6\<close>: \<open>n\<close> groups can still follow, \<open>ip\<close> holds the bytes read, \<open>el\<close> the place of
  the \<open>::\<close>.
\<close>

fun ipv6_groups :: "nat \<Rightarrow> ip \<Rightarrow> nat option \<Rightarrow> string \<Rightarrow> (ip \<times> nat option) option" where
  "ipv6_groups 0 ip el s = (if s = [] then Some (ip, el) else None)"
| "ipv6_groups (Suc n) ip el s =
     (let hs = takeWhile is_nibble s; r = dropWhile is_nibble s;
          acc = foldl (\<lambda>a c. 16 * a + the (nibble c)) 0 hs in
      if hs = [] \<or> 4 < length hs then None
      else if has_prefix r ''.'' then
        (if (el = None \<and> length ip \<noteq> 12) \<or> 12 < length ip then None
         else map_option (\<lambda>f. (ip @ f, el)) (ipv4_fields s))
      else
        (let ip' = ip @ [word_of_nat (acc div 256), word_of_nat (acc mod 256)] in
         if r = [] then Some (ip', el)
         else if \<not> has_prefix r '':'' \<or> tl r = [] then None
         else if has_prefix (tl r) '':'' then
           (if el \<noteq> None then None
            else if tl (tl r) = [] then Some (ip', Some (length ip'))
            else ipv6_groups n ip' (Some (length ip')) (tl (tl r)))
         else ipv6_groups n ip' el (tl r)))"

text \<open>The missing bytes are put in at the \<open>::\<close>, which must stand for at least one group.\<close>

definition expand_ellipsis :: "ip \<Rightarrow> nat option \<Rightarrow> ip option" where
  "expand_ellipsis ip el =
     (if length ip < 16 then
        (case el of
           None \<Rightarrow> None
         | Some k \<Rightarrow> Some (take k ip @ replicate (16 - length ip) 0 @ drop k ip))
      else if el \<noteq> None then None
      else Some ip)"

definition parse_ipv6 :: "string \<Rightarrow> ip option" where
  "parse_ipv6 s =
     (if has_prefix s ''::'' then
        (if drop 2 s = [] then Some (replicate 16 0)
         else case ipv6_groups 8 [] (Some 0) (drop 2 s) of
                None \<Rightarrow> None | Some (ip, el) \<Rightarrow> expand_ellipsis ip el)
      else case ipv6_groups 8 [] None s of
             None \<Rightarrow> None | Some (ip, el) \<Rightarrow> expand_ellipsis ip el)"

text \<open>
  \<open>net.ParseIP\<close>: the first dot or colon decides the form. An IPv4 address is held in its IPv4-mapped
  form. A zone (\<open>%\<close>) is never accepted.
\<close>

definition v4_prefix :: ip where
  "v4_prefix = replicate 10 0 @ [0xFF, 0xFF]"

definition parse_ip :: "string \<Rightarrow> ip option" where
  "parse_ip s =
     (case find (\<lambda>c. c \<in> {CHR ''.'', CHR '':'', CHR ''%''}) s of
        None \<Rightarrow> None
      | Some c \<Rightarrow>
          if c = CHR ''.'' then map_option (\<lambda>f. v4_prefix @ f) (ipv4_fields s)
          else if c = CHR ''%'' \<or> CHR ''%'' \<in> set s then None
          else parse_ipv6 s)"

subsection \<open>Networks\<close>

record ip_net =
  n_ip :: ip
  n_mask :: ip

text \<open>\<open>IP.To4\<close>.\<close>

definition to4 :: "ip \<Rightarrow> ip option" where
  "to4 a =
     (if length a = 4 then Some a
      else if length a = 16 \<and> take 12 a = v4_prefix then Some (drop 12 a)
      else None)"

text \<open>\<open>networkNumberAndMask\<close>: \<^theory_text>\<open>None\<close> is the pair of nil slices.\<close>

definition network_number_and_mask :: "ip_net \<Rightarrow> (ip \<times> ip) option" where
  "network_number_and_mask n =
     (case (case to4 (n_ip n) of
              Some a \<Rightarrow> Some a
            | None \<Rightarrow> if length (n_ip n) = 16 then Some (n_ip n) else None) of
        None \<Rightarrow> None
      | Some a \<Rightarrow>
          if length (n_mask n) = 4 then (if length a = 4 then Some (a, n_mask n) else None)
          else if length (n_mask n) = 16 then
            Some (a, if length a = 4 then drop 12 (n_mask n) else n_mask n)
          else None)"

definition net_contains :: "ip_net \<Rightarrow> ip \<Rightarrow> bool" where
  "net_contains n a =
     (let x = (case to4 a of Some b \<Rightarrow> b | None \<Rightarrow> a) in
      case network_number_and_mask n of
        None \<Rightarrow> x = []
      | Some (nn, m) \<Rightarrow>
          length x = length nn \<and> list_all2 (\<lambda>(u, v) w. u AND v = w AND v) (zip nn m) x)"

lemma ipv4_fields_length: "ipv4_fields s = Some f \<Longrightarrow> length f = 4"
  by (auto simp: ipv4_fields_def Let_def split: if_splits)

lemma ipv6_groups_step:
  assumes "ipv6_groups (Suc n) ip el s = Some r"
  obtains f t where "ipv4_fields t = Some f" "length ip \<le> 12" "r = (ip @ f, el)"
  | a b where "r = (ip @ [a, b], el)"
  | a b where "r = (ip @ [a, b], Some (length (ip @ [a, b])))"
  | a b el' t where "ipv6_groups n (ip @ [a, b]) el' t = Some r" "el' = el \<or> el' = Some (length (ip @ [a, b]))"
proof -
  let ?hs = "takeWhile is_nibble s"
  let ?acc = "foldl (\<lambda>a c. 16 * a + the (nibble c)) 0 ?hs"
  define hs w a b where defs: "hs = ?hs" "w = dropWhile is_nibble s"
    "a = (word_of_nat (?acc div 256) :: 8 word)" "b = (word_of_nat (?acc mod 256) :: 8 word)"
  have eq: "ipv6_groups (Suc n) ip el s =
     (if hs = [] \<or> 4 < length hs then None
      else if has_prefix w ''.'' then
        (if (el = None \<and> length ip \<noteq> 12) \<or> 12 < length ip then None
         else map_option (\<lambda>f. (ip @ f, el)) (ipv4_fields s))
      else if w = [] then Some (ip @ [a, b], el)
      else if \<not> has_prefix w '':'' \<or> tl w = [] then None
      else if has_prefix (tl w) '':'' then
           (if el \<noteq> None then None
            else if tl (tl w) = [] then Some (ip @ [a, b], Some (length (ip @ [a, b])))
            else ipv6_groups n (ip @ [a, b]) (Some (length (ip @ [a, b]))) (tl (tl w)))
      else ipv6_groups n (ip @ [a, b]) el (tl w))"
    unfolding ipv6_groups.simps(2) [of n ip el s] Let_def defs by (rule refl)
  have hex: "\<not> (hs = [] \<or> 4 < length hs)"
    using assms unfolding eq by (rule contrapos_pn) simp
  consider "has_prefix w ''.''" | "\<not> has_prefix w ''.''" "w = []"
    | "\<not> has_prefix w ''.''" "w \<noteq> []" "has_prefix (tl w) '':''"
    | "\<not> has_prefix w ''.''" "w \<noteq> []" "\<not> has_prefix (tl w) '':''"
    by blast
  then show ?thesis
    using that assms hex unfolding eq
    by cases (simp_all split: if_splits, (metis leI)+)
qed

lemma ipv6_groups_length:
  "ipv6_groups n ip el s = Some (ip', el') \<Longrightarrow> length ip + 2 * n = 16 \<Longrightarrow> (\<And>k. el = Some k \<Longrightarrow> k \<le> length ip) \<Longrightarrow>
     length ip' \<le> 16 \<and> (\<forall>k. el' = Some k \<longrightarrow> k \<le> length ip')"
proof (induction n arbitrary: ip el s)
  case (Suc n)
  from Suc.prems(1) show ?case
  proof (cases rule: ipv6_groups_step)
    case (1 f t)
    then show ?thesis using ipv4_fields_length [OF 1(1)] Suc.prems(3) by force
  next
    case (4 a b el2 t)
    have "length (ip @ [a, b]) + 2 * n = 16" using Suc.prems(2) by simp
    moreover have "k \<le> length (ip @ [a, b])" if "el2 = Some k" for k
      using 4(2) Suc.prems(3) that by fastforce
    ultimately show ?thesis by (rule Suc.IH [OF 4(1)])
  qed (use Suc.prems in force)+
qed (auto split: if_splits)

text \<open>An address that parses has the 16 bytes of the long form.\<close>

lemma parse_ip_length: "parse_ip s = Some a \<Longrightarrow> length a = 16"
proof -
  have six: "length b = 16" if "ipv6_groups 8 [] el t = Some (ip, el')" "el = None \<or> el = Some 0"
    "expand_ellipsis ip el' = Some b" for el t ip el' b
    using ipv6_groups_length [OF that(1)] that(2,3)
    by (auto simp: expand_ellipsis_def split: if_splits option.splits)
  show "length a = 16" if "parse_ip s = Some a"
    using that
    by (auto simp: parse_ip_def parse_ipv6_def v4_prefix_def dest: ipv4_fields_length six
        split: option.splits if_splits prod.splits)
qed

end
