(* ===== verification/Auth_Principal.thy ===== *)
theory Auth_Principal
  imports Evidence_Model Go_Http
begin

text \<open>
  The principal of \<open>internal/auth/auth.go\<close>: its fields and their validation, the clearance ladder, the
  middleware that authenticates every request and the role check in front of the handlers. The two
  authenticators are in theories of their own; what both promise is the locale \<open>authenticator\<close>.
\<close>

subsection \<open>The principal\<close>

text \<open>\<open>Roles\<close> is a Go map to empty structs: a set.\<close>

record principal_id =
  a_subject :: string
  a_roles :: "string set"
  a_clearance :: string
  a_tenant_id :: string

definition has_role :: "principal_id \<Rightarrow> string \<Rightarrow> bool" where
  "has_role p role \<longleftrightarrow> role \<in> a_roles p"

text \<open>
  The value a request context carries under \<open>contextKey\<close>, if any. \<open>PrincipalFrom\<close> gives it only when
  its subject is not empty.
\<close>

type_synonym auth_context = "principal_id option"

definition with_principal :: "auth_context \<Rightarrow> principal_id \<Rightarrow> auth_context" where
  "with_principal ctx p = Some p"

definition principal_from :: "auth_context \<Rightarrow> principal_id option" where
  "principal_from ctx =
     (case ctx of None \<Rightarrow> None | Some p \<Rightarrow> if a_subject p \<noteq> [] then Some p else None)"

subsection \<open>Validated fields\<close>

definition validated_subject :: "string \<Rightarrow> string result" where
  "validated_subject value =
     (let subject = trim_space value in
      if subject = [] \<or> 512 < length subject then Inl (Error ''authenticated subject is required'')
      else Inr subject)"

fun collect_roles :: "string list \<Rightarrow> string set \<Rightarrow> string set result" where
  "collect_roles [] roles = Inr roles"
| "collect_roles (value # rest) roles =
     (let role = trim_space value in
      if role = [] then collect_roles rest roles
      else if 128 < length role \<or> contains_any role [CHR 0x00, CHR 0x0D, CHR 0x0A]
      then Inl (Error ''authenticated roles header is invalid'')
      else collect_roles rest (insert role roles))"

definition validated_roles :: "string \<Rightarrow> string set result" where
  "validated_roles value = collect_roles (split_on CHR '','' value) {}"

definition validated_clearance :: "string \<Rightarrow> string result" where
  "validated_clearance value =
     (let clearance = trim_space value in
      if clearance = [] then Inr ''public''
      else if clearance \<in> {''public'', ''internal'', ''confidential'', ''restricted'', ''highly_restricted''}
      then Inr clearance
      else Inl (Error ''authenticated clearance is invalid''))"

subsection \<open>The clearance ladder\<close>

definition ladder_rank :: "string \<Rightarrow> int" where
  "ladder_rank label =
     (if label = ''public'' then 0
      else if label = ''internal'' then 1
      else if label = ''confidential'' then 2
      else if label = ''restricted'' then 3
      else if label = ''highly_restricted'' then 4
      else -1)"

definition clearance_covers :: "string \<Rightarrow> string \<Rightarrow> bool" where
  "clearance_covers clearance classification \<longleftrightarrow>
     ladder_rank clearance \<ge> ladder_rank classification \<and> ladder_rank classification \<ge> 0"

subsection \<open>Middleware\<close>

text \<open>A handler answers a request in its context and changes the state behind it.\<close>

type_synonym 's handler = "http_request \<Rightarrow> auth_context \<Rightarrow> 's \<Rightarrow> http_response \<times> 's"

text \<open>An authenticator may keep a state of its own, the key cache of the OIDC one.\<close>

type_synonym 'a authenticate = "'a \<Rightarrow> http_request \<Rightarrow> principal_id result \<times> 'a"

definition write_unauthorized :: http_response where
  "write_unauthorized = json_response 401 (render (JObj [(''error'', JStr ''unauthenticated'')]))"

definition write_forbidden :: http_response where
  "write_forbidden = json_response 403 (render (JObj [(''error'', JStr ''forbidden'')]))"

definition middleware ::
  "'a authenticate \<Rightarrow> 's handler \<Rightarrow> http_request \<Rightarrow> auth_context \<Rightarrow> 'a \<times> 's \<Rightarrow> http_response \<times> 'a \<times> 's" where
  "middleware authenticate next_handler request ctx w =
     (case w of (a, s) \<Rightarrow>
      case authenticate a request of
        (Inl _, a') \<Rightarrow> (write_unauthorized, a', s)
      | (Inr p, a') \<Rightarrow>
          (case next_handler request (with_principal ctx p) s of (resp, s') \<Rightarrow> (resp, a', s')))"

definition require_roles :: "'s handler \<Rightarrow> string list \<Rightarrow> 's handler" where
  "require_roles next_handler roles request ctx s =
     (case principal_from ctx of
        None \<Rightarrow> (write_forbidden, s)
      | Some p \<Rightarrow>
          if list_ex (has_role p) roles then next_handler request ctx s
          else (write_forbidden, s))"

subsection \<open>What the validation gives\<close>

text \<open>The shape of every principal an authenticator hands on.\<close>

definition principal_wf :: "principal_id \<Rightarrow> bool" where
  "principal_wf p \<longleftrightarrow>
     a_subject p \<noteq> [] \<and> length (a_subject p) \<le> 512 \<and> trim_space (a_subject p) = a_subject p \<and>
     (\<forall>role \<in> a_roles p. role \<noteq> [] \<and> trim_space role = role) \<and>
     a_clearance p \<in> set valid_classifications \<and>
     trim_space (a_tenant_id p) = a_tenant_id p"

lemma validated_subject_Inr:
  "validated_subject v = Inr s \<longleftrightarrow> s = trim_space v \<and> s \<noteq> [] \<and> length s \<le> 512"
  by (auto simp: validated_subject_def Let_def)

lemma validated_clearance_Inr:
  "validated_clearance v = Inr c \<longleftrightarrow>
     c \<in> set valid_classifications \<and> (c = trim_space v \<or> (trim_space v = [] \<and> c = ''public''))"
  by (auto simp: validated_clearance_def valid_classifications_def Let_def)

lemma collect_roles_Inr:
  "collect_roles vs acc = Inr roles \<Longrightarrow>
     roles = acc \<union> (trim_space ` set vs - {[]}) \<and>
     (\<forall>role \<in> trim_space ` set vs - {[]}. length role \<le> 128 \<and> set role \<inter> {CHR 0x00, CHR 0x0D, CHR 0x0A} = {})"
proof (induction vs arbitrary: acc)
  case (Cons v vs)
  show ?case
  proof (cases "trim_space v = []")
    case True
    then show ?thesis using Cons by (simp add: Let_def)
  next
    case False
    then have ok: "length (trim_space v) \<le> 128" "set (trim_space v) \<inter> {CHR 0x00, CHR 0x0D, CHR 0x0A} = {}"
      and rest: "collect_roles vs (insert (trim_space v) acc) = Inr roles"
      using Cons.prems by (auto simp: Let_def contains_any_iff split: if_splits)
    from Cons.IH [OF rest] ok False show ?thesis by auto
  qed
qed simp

text \<open>
  The roles header gives exactly its trimmed non-empty entries, none longer than 128 bytes or with a
  control character that could split a header.
\<close>

lemma validated_roles_Inr:
  "validated_roles v = Inr roles \<Longrightarrow>
     roles = trim_space ` set (split_on CHR '','' v) - {[]} \<and>
     (\<forall>role \<in> roles. role \<noteq> [] \<and> trim_space role = role \<and> length role \<le> 128 \<and> CHR '','' \<notin> set role)"
proof -
  assume "validated_roles v = Inr roles"
  then have *: "roles = trim_space ` set (split_on CHR '','' v) - {[]}" "\<forall>role \<in> roles. length role \<le> 128"
    by (auto simp: validated_roles_def dest: collect_roles_Inr)
  moreover have "CHR '','' \<notin> set (trim_space p)" if "p \<in> set (split_on CHR '','' v)" for p
    using trim_space_subset [of p] split_on_parts [OF that] by blast
  ultimately show ?thesis by auto
qed

lemma trimmed_roles: "\<forall>role \<in> trim_space ` R - {[]}. role \<noteq> [] \<and> trim_space role = role"
  by auto

text \<open>The rank of a label is its place in the list of the domain model.\<close>

lemma less_5: "k < 5 \<longleftrightarrow> k = 0 \<or> k = 1 \<or> k = 2 \<or> k = 3 \<or> k = (4::nat)"
  by auto

lemma ladder_rank_nth: "k < 5 \<Longrightarrow> ladder_rank (valid_classifications ! k) = int k"
  by (auto simp: less_5 ladder_rank_def valid_classifications_def)

lemma ladder_rank_listed: "0 \<le> ladder_rank s \<Longrightarrow> \<exists>k < 5. valid_classifications ! k = s"
  unfolding less_5 ladder_rank_def valid_classifications_def
  by (auto split: if_splits simp: ex_disj_distrib conj_disj_distribR)

lemma length_classifications: "length valid_classifications = 5"
  by (simp add: valid_classifications_def)

text \<open>
  The clearance ladder is the order in which the domain model lists its classifications, with no
  other label on it: a clearance covers a classification exactly when both are listed and it comes no
  earlier. An unknown classification is covered by nobody, an unknown clearance covers nothing.
\<close>

theorem clearance_covers_iff:
  "clearance_covers c l \<longleftrightarrow>
     (\<exists>i j. i \<le> j \<and> j < length valid_classifications \<and>
        valid_classifications ! i = l \<and> valid_classifications ! j = c)"
proof
  assume *: "clearance_covers c l"
  then obtain i j where "i < 5" "valid_classifications ! i = l" "j < 5" "valid_classifications ! j = c"
    using ladder_rank_listed [of l] ladder_rank_listed [of c] by (auto simp: clearance_covers_def)
  moreover from this * have "i \<le> j"
    by (auto simp: clearance_covers_def ladder_rank_nth)
  ultimately show "\<exists>i j. i \<le> j \<and> j < length valid_classifications \<and>
      valid_classifications ! i = l \<and> valid_classifications ! j = c"
    by (auto simp: length_classifications)
next
  assume "\<exists>i j. i \<le> j \<and> j < length valid_classifications \<and>
      valid_classifications ! i = l \<and> valid_classifications ! j = c"
  then obtain i j where "i \<le> j" "j < 5" "valid_classifications ! i = l" "valid_classifications ! j = c"
    by (auto simp: length_classifications)
  then show "clearance_covers c l"
    using ladder_rank_nth [of i] ladder_rank_nth [of j] by (simp add: clearance_covers_def)
qed

lemma clearance_covers_valid:
  "clearance_covers c l \<Longrightarrow> c \<in> set valid_classifications \<and> l \<in> set valid_classifications"
  by (auto simp: clearance_covers_def ladder_rank_def valid_classifications_def split: if_splits)

lemma clearance_covers_refl: "l \<in> set valid_classifications \<Longrightarrow> clearance_covers l l"
  by (auto simp: clearance_covers_def ladder_rank_def valid_classifications_def)

lemma clearance_covers_trans:
  "clearance_covers a b \<Longrightarrow> clearance_covers b c \<Longrightarrow> clearance_covers a c"
  by (auto simp: clearance_covers_def)

subsection \<open>The contract of an authenticator\<close>

locale authenticator =
  fixes authenticate :: "'a authenticate"
  assumes authenticated: "authenticate a request = (Inr p, a') \<Longrightarrow> principal_wf p"
begin

text \<open>A request the authenticator refuses is answered with 401 and reaches no handler.\<close>

lemma middleware_refused:
  "authenticate a request = (Inl err, a') \<Longrightarrow>
     middleware authenticate next_handler request ctx (a, s) = (write_unauthorized, a', s)"
  by (simp add: middleware_def)

text \<open>
  A handler behind the middleware always finds a principal: the branch for a request without one is
  never taken.
\<close>

lemma principal_available: "authenticate a request = (Inr p, a') \<Longrightarrow> principal_from (Some p) = Some p"
  using authenticated by (auto simp: principal_from_def principal_wf_def)

text \<open>A guarded handler runs exactly for an authenticated principal with one of the roles.\<close>

lemma guarded:
  "middleware authenticate (require_roles h roles) request ctx (a, s) =
     (case authenticate a request of
        (Inl _, a') \<Rightarrow> (write_unauthorized, a', s)
      | (Inr p, a') \<Rightarrow>
          if a_roles p \<inter> set roles \<noteq> {} then
            (case h request (Some p) s of (resp, s') \<Rightarrow> (resp, a', s'))
          else (write_forbidden, a', s))"
proof (cases "authenticate a request")
  case (Pair r a')
  show ?thesis
  proof (cases r)
    case (Inr p)
    have "list_ex (has_role p) roles \<longleftrightarrow> a_roles p \<inter> set roles \<noteq> {}"
      by (auto simp: list_ex_iff has_role_def)
    then show ?thesis
      using Pair Inr principal_available [of a request p a']
      by (simp add: middleware_def require_roles_def with_principal_def)
  qed (simp add: middleware_def Pair)
qed

end

end
