(* ===== verification/Auth_Oidc.thy ===== *)
theory Auth_Oidc
  imports Auth_Principal
begin

text \<open>
  \<open>OIDCAuthenticator\<close>: RS256 bearer tokens checked against the realm's JWKS. The authenticator's state
  is its key cache. RSA and SHA-256 are the parameter \<open>rsa_libs\<close>; what the network and the clock give
  during one call is \<open>oidc_env\<close>. A cache miss or a cache older than five minutes fetches the document
  and replaces the whole key set.
\<close>

subsection \<open>State and environment\<close>

record rsa_key =
  rk_n :: nat
  rk_e :: int

record oidc =
  oi_issuer :: string
  oi_audience :: string
  oi_jwks_url :: url
  oi_root_ca :: "string option"
  oi_keys :: "(string \<times> rsa_key) list"
  oi_loaded_at :: time

text \<open>\<open>sha256.Sum256\<close>, and \<open>rsa.VerifyPKCS1v15\<close> of a key, a SHA-256 digest and a signature.\<close>

record rsa_libs =
  rl_sha256 :: "string \<Rightarrow> string"
  rl_verify :: "rsa_key \<Rightarrow> string \<Rightarrow> string \<Rightarrow> bool"

text \<open>
  The answer to the GET of the JWKS URL (an error also when it redirects), and the clock at the check
  of the cache's age, after a load, and at the check of the claims.
\<close>

record oidc_env =
  ox_fetch :: "(nat \<times> body) result"
  ox_now_key :: time
  ox_now_loaded :: time
  ox_now_claims :: time

text \<open>
  \<open>NewOIDCAuthenticator\<close>. The file system and the PEM parser are parameters: the content of the CA
  file, and whether a content holds a certificate.
\<close>

definition new_oidc ::
  "(string \<Rightarrow> string result) \<Rightarrow> (string \<Rightarrow> bool) \<Rightarrow> string \<Rightarrow> string \<Rightarrow> url option \<Rightarrow> string \<Rightarrow> oidc result" where
  "new_oidc read_file has_certs issuer audience jwks_url ca_file =
     (let auth = (\<lambda>u ca. \<lparr>oi_issuer = issuer, oi_audience = audience, oi_jwks_url = u, oi_root_ca = ca,
                    oi_keys = [], oi_loaded_at = zero_time\<rparr>) in
      case jwks_url of
        None \<Rightarrow> Inl (Error ''OIDC issuer, audience and JWKS URL are required'')
      | Some u \<Rightarrow>
          if issuer = [] \<or> audience = []
          then Inl (Error ''OIDC issuer, audience and JWKS URL are required'')
          else if ca_file = [] then Inr (auth u None)
          else case read_file ca_file of
                 Inl err \<Rightarrow> Inl (Wrap ''read OIDC CA file'' err)
               | Inr pem \<Rightarrow>
                   if \<not> has_certs pem
                   then Inl (Error ''OIDC CA file did not contain a usable PEM certificate'')
                   else Inr (auth u (Some pem)))"

subsection \<open>The key set\<close>

record jwk =
  k_kty :: string
  k_kid :: string
  k_use :: string
  k_alg :: string
  k_n :: string
  k_e :: string

definition empty_jwk :: jwk where
  "empty_jwk = \<lparr>k_kty = [], k_kid = [], k_use = [], k_alg = [], k_n = [], k_e = []\<rparr>"

definition jwk_field :: "string \<Rightarrow> jwk decoder" where
  "jwk_field n =
     (if n = ''kty'' then field decode_string k_kty (\<lambda>x. k_kty_update (\<lambda>_. x))
      else if n = ''kid'' then field decode_string k_kid (\<lambda>x. k_kid_update (\<lambda>_. x))
      else if n = ''use'' then field decode_string k_use (\<lambda>x. k_use_update (\<lambda>_. x))
      else if n = ''alg'' then field decode_string k_alg (\<lambda>x. k_alg_update (\<lambda>_. x))
      else if n = ''n'' then field decode_string k_n (\<lambda>x. k_n_update (\<lambda>_. x))
      else field decode_string k_e (\<lambda>x. k_e_update (\<lambda>_. x)))"

definition decode_jwks :: "jwk slice decoder" where
  "decode_jwks = decode_struct False [''keys'']
     (\<lambda>_. decode_slice (decode_struct False [''kty'', ''kid'', ''use'', ''alg'', ''n'', ''e''] jwk_field) empty_jwk)"

definition decode_base64_url :: "string \<Rightarrow> string option" where
  "decode_base64_url value = b64_decode True False value"

text \<open>\<open>big.Int.SetBytes\<close>, and the loop that reads the exponent.\<close>

definition set_bytes :: "string \<Rightarrow> nat" where
  "set_bytes bs = foldl (\<lambda>n c. 256 * n + byte c) 0 bs"

definition exponent_of :: "string \<Rightarrow> int" where
  "exponent_of bs = foldl (\<lambda>e c. push_bit 8 e OR int (byte c)) 0 bs"

text \<open>One round of the loop over the document's keys: \<^theory_text>\<open>None\<close> is \<open>continue\<close>.\<close>

definition approved_key :: "jwk \<Rightarrow> rsa_key option" where
  "approved_key item =
     (if k_kty item \<noteq> ''RSA'' \<or> k_use item \<noteq> ''sig'' \<or> k_alg item \<noteq> ''RS256'' \<or> k_kid item = []
         \<or> k_n item = [] \<or> k_e item = [] then None
      else case decode_base64_url (k_n item) of
        None \<Rightarrow> None
      | Some modulus \<Rightarrow>
      case decode_base64_url (k_e item) of
        None \<Rightarrow> None
      | Some exponent_bytes \<Rightarrow>
          if length exponent_bytes = 0 \<or> 4 < length exponent_bytes then None
          else if exponent_of exponent_bytes < 3 \<or> exponent_of exponent_bytes mod 2 = 0 then None
          else if set_bytes modulus < 2 ^ 2047 then None
          else Some \<lparr>rk_n = set_bytes modulus, rk_e = exponent_of exponent_bytes\<rparr>)"

fun approved_keys :: "jwk list \<Rightarrow> (string \<times> rsa_key) list \<Rightarrow> (string \<times> rsa_key) list" where
  "approved_keys [] loaded = loaded"
| "approved_keys (item # items) loaded =
     (case approved_key item of
        None \<Rightarrow> approved_keys items loaded
      | Some key \<Rightarrow> approved_keys items (upsert (k_kid item) key loaded))"

definition load_keys :: "oidc_env \<Rightarrow> oidc \<Rightarrow> go_error option \<times> oidc" where
  "load_keys env auth =
     (case ox_fetch env of
        Inl err \<Rightarrow> (Some err, auth)
      | Inr (status, bdy) \<Rightarrow>
      if status \<noteq> 200 then (Some (Error (''JWKS returned HTTP '' @ decimal status)), auth)
      else case read_limited mebibyte bdy of
        Inl err \<Rightarrow> (Some err, auth)
      | Inr content \<Rightarrow>
      case Option.bind (json_all content) (\<lambda>v. decode_jwks v ([], [])) of
        None \<Rightarrow> (Some (External ''json''), auth)
      | Some document \<Rightarrow>
          (let loaded = approved_keys (fst document) [] in
           if loaded = [] then (Some (Error ''JWKS contains no approved RSA signing keys''), auth)
           else (None, auth\<lparr>oi_keys := loaded, oi_loaded_at := ox_now_loaded env\<rparr>)))"

definition key_ttl :: time where "key_ttl = 5 * 60 * nano"

definition oidc_key :: "oidc_env \<Rightarrow> oidc \<Rightarrow> string \<Rightarrow> bool \<Rightarrow> rsa_key result \<times> oidc" where
  "oidc_key env auth kid refresh =
     (let fresh = (ox_now_key env - oi_loaded_at auth < key_ttl) in
      case (if fresh then map_of (oi_keys auth) kid else None) of
        Some key \<Rightarrow> (Inr key, auth)
      | None \<Rightarrow>
          if \<not> refresh then (Inl (Error ''JWT key is not trusted''), auth)
          else case load_keys env auth of
                 (Some err, auth') \<Rightarrow> (Inl (Wrap ''load OIDC JWKS'' err), auth')
               | (None, auth') \<Rightarrow>
                   (case map_of (oi_keys auth') kid of
                      Some key \<Rightarrow> (Inr key, auth')
                    | None \<Rightarrow> (Inl (Error ''JWT key ID is not trusted''), auth')))"

subsection \<open>Claims\<close>

record claims =
  c_iss :: string
  c_sub :: string
  c_aud :: "json option"
  c_exp :: string
  c_nbf :: string
  c_realm_roles :: "string slice"
  c_resource_roles :: "(string \<times> string slice) list"
  c_clearance :: string
  c_tenant_id :: string

definition empty_claims :: claims where
  "empty_claims = \<lparr>c_iss = [], c_sub = [], c_aud = None, c_exp = [], c_nbf = [], c_realm_roles = ([], []),
     c_resource_roles = [], c_clearance = [], c_tenant_id = []\<rparr>"

definition decode_access :: "string slice decoder" where
  "decode_access = decode_struct False [''roles''] (\<lambda>_. decode_slice decode_string [])"

definition claims_fields :: "string list" where
  "claims_fields = [''iss'', ''sub'', ''aud'', ''exp'', ''nbf'', ''realm_access'', ''resource_access'',
     ''clearance'', ''tenant_id'']"

definition claims_field :: "string \<Rightarrow> claims decoder" where
  "claims_field n =
     (if n = ''iss'' then field decode_string c_iss (\<lambda>x. c_iss_update (\<lambda>_. x))
      else if n = ''sub'' then field decode_string c_sub (\<lambda>x. c_sub_update (\<lambda>_. x))
      else if n = ''aud'' then field decode_raw c_aud (\<lambda>x. c_aud_update (\<lambda>_. x))
      else if n = ''exp'' then field decode_number c_exp (\<lambda>x. c_exp_update (\<lambda>_. x))
      else if n = ''nbf'' then field decode_number c_nbf (\<lambda>x. c_nbf_update (\<lambda>_. x))
      else if n = ''realm_access'' then field decode_access c_realm_roles (\<lambda>x. c_realm_roles_update (\<lambda>_. x))
      else if n = ''resource_access'' then
        field (decode_map decode_access ([], [])) c_resource_roles (\<lambda>x. c_resource_roles_update (\<lambda>_. x))
      else if n = ''clearance'' then field decode_string c_clearance (\<lambda>x. c_clearance_update (\<lambda>_. x))
      else field decode_string c_tenant_id (\<lambda>x. c_tenant_id_update (\<lambda>_. x)))"

definition decode_claims :: "string \<Rightarrow> claims option" where
  "decode_claims payload =
     Option.bind (json_first payload) (\<lambda>v. decode_struct False claims_fields claims_field v empty_claims)"

text \<open>
  \<open>audienceContains\<close>: a string, or else an array of strings. \<open>null\<close> decodes into the empty string, and
  an absent claim is no JSON at all.
\<close>

definition audience_contains :: "json option \<Rightarrow> string \<Rightarrow> bool" where
  "audience_contains raw expected =
     (case raw of
        None \<Rightarrow> False
      | Some v \<Rightarrow>
          (case decode_string v [] of
             Some single \<Rightarrow> single = expected
           | None \<Rightarrow>
               (case decode_slice decode_string [] v ([], []) of
                  None \<Rightarrow> False
                | Some (multiple, _) \<Rightarrow> expected \<in> set multiple)))"

definition claimed_roles :: "claims \<Rightarrow> string set" where
  "claimed_roles c =
     trim_space ` (set (fst (c_realm_roles c)) \<union> set (concat (map (\<lambda>(_, access). fst access) (c_resource_roles c))))
       - {[]}"

text \<open>The part of \<open>Authenticate\<close> after the claims are decoded; \<open>now\<close> is in seconds.\<close>

definition check_claims :: "oidc \<Rightarrow> int \<Rightarrow> claims \<Rightarrow> principal_id result" where
  "check_claims auth now c =
     (if c_iss c \<noteq> oi_issuer auth \<or> \<not> audience_contains (c_aud c) (oi_audience auth)
      then Inl (Error ''JWT issuer or audience is invalid'')
      else case atoi (c_exp c) of
        None \<Rightarrow> Inl (Error ''JWT is expired or has no valid expiry'')
      | Some expires \<Rightarrow>
      if now \<ge> expires then Inl (Error ''JWT is expired or has no valid expiry'')
      else if c_nbf c \<noteq> [] \<and> (case atoi (c_nbf c) of None \<Rightarrow> True | Some not_before \<Rightarrow> now < not_before)
      then Inl (Error ''JWT is not yet valid'')
      else case validated_subject (c_sub c) of
        Inl err \<Rightarrow> Inl err
      | Inr subject \<Rightarrow>
      case validated_clearance (c_clearance c) of
        Inl err \<Rightarrow> Inl err
      | Inr clearance \<Rightarrow>
          Inr \<lparr>a_subject = subject, a_roles = claimed_roles c, a_clearance = clearance,
               a_tenant_id = trim_space (c_tenant_id c)\<rparr>)"

subsection \<open>Authenticate\<close>

text \<open>The token after the \<open>Bearer\<close> scheme, and the key identifier of an RS256 header.\<close>

definition bearer_token :: "http_request \<Rightarrow> string option" where
  "bearer_token request =
     (case cut_at CHR '' '' (trim_space (header_get request ''Authorization'')) of
        (_, None) \<Rightarrow> None
      | (scheme, Some rest) \<Rightarrow>
          if \<not> equal_fold scheme ''Bearer'' \<or> trim_space rest = [] then None
          else Some (trim_space rest))"

definition token_kid :: "string \<Rightarrow> string option" where
  "token_kid header =
     (case Option.bind (json_all header) (decode_strings False [''alg'', ''kid'']) of
        None \<Rightarrow> None
      | Some h \<Rightarrow> if h ''alg'' \<noteq> ''RS256'' \<or> trim_space (h ''kid'') = [] then None else Some (h ''kid''))"

definition oidc_authenticate :: "rsa_libs \<Rightarrow> oidc_env \<Rightarrow> oidc authenticate" where
  "oidc_authenticate R env auth request =
     (case bearer_token request of
        None \<Rightarrow> (Inl (Error ''Bearer authorization is required''), auth)
      | Some token \<Rightarrow>
      case split_on CHR ''.'' token of
        [s0, s1, s2] \<Rightarrow>
          if s0 = [] \<or> s1 = [] \<or> s2 = [] then (Inl (Error ''JWT compact serialization is invalid''), auth)
          else (case decode_base64_url s0 of
            None \<Rightarrow> (Inl (Error ''JWT header is invalid''), auth)
          | Some header \<Rightarrow>
          case token_kid header of
            None \<Rightarrow> (Inl (Error ''JWT algorithm or key ID is invalid''), auth)
          | Some kid \<Rightarrow>
          case oidc_key env auth kid True of
            (Inl err, auth') \<Rightarrow> (Inl err, auth')
          | (Inr key, auth') \<Rightarrow>
          (case decode_base64_url s2 of
            None \<Rightarrow> Inl (Error ''JWT signature is invalid'')
          | Some signature \<Rightarrow>
          if \<not> rl_verify R key (rl_sha256 R (s0 @ ''.'' @ s1)) signature
          then Inl (Error ''JWT signature verification failed'')
          else case Option.bind (decode_base64_url s1) decode_claims of
            None \<Rightarrow> Inl (Error ''JWT claims are invalid'')
          | Some c \<Rightarrow> check_claims auth' (ox_now_claims env div nano) c, auth'))
      | _ \<Rightarrow> (Inl (Error ''JWT compact serialization is invalid''), auth))"

subsection \<open>Keys\<close>

text \<open>A key strong enough to be trusted, and a cache that holds only such keys.\<close>

definition strong_key :: "rsa_key \<Rightarrow> bool" where
  "strong_key k \<longleftrightarrow> 2 ^ 2047 \<le> rk_n k \<and> 3 \<le> rk_e k \<and> odd (rk_e k)"

definition oidc_inv :: "oidc \<Rightarrow> bool" where
  "oidc_inv auth \<longleftrightarrow> (\<forall>(kid, k) \<in> set (oi_keys auth). kid \<noteq> [] \<and> strong_key k)"

lemma approved_key_strong: "approved_key item = Some k \<Longrightarrow> k_kid item \<noteq> [] \<and> strong_key k"
  by (auto simp: approved_key_def strong_key_def split: if_splits option.splits)

text \<open>Every loaded key comes from an approved entry of the document, the last one of its identifier.\<close>

lemma approved_keys_source:
  "(kid, k) \<in> set (approved_keys items loaded) \<Longrightarrow>
     (kid, k) \<in> set loaded \<or> (\<exists>item \<in> set items. k_kid item = kid \<and> approved_key item = Some k)"
proof (induction items arbitrary: loaded)
  case (Cons item items)
  show ?case
  proof (cases "approved_key item")
    case None
    then show ?thesis using Cons by auto
  next
    case (Some key)
    then have "(kid, k) \<in> set (upsert (k_kid item) key loaded)
        \<or> (\<exists>item \<in> set items. k_kid item = kid \<and> approved_key item = Some k)"
      using Cons by simp
    then show ?thesis using set_upsert [of "k_kid item" key loaded] Some by auto
  qed
qed simp

lemma load_keys_None:
  "load_keys env auth = (None, auth') \<longleftrightarrow>
     (\<exists>bdy content document. ox_fetch env = Inr (200, bdy) \<and> read_limited mebibyte bdy = Inr content \<and>
        Option.bind (json_all content) (\<lambda>v. decode_jwks v ([], [])) = Some document \<and>
        approved_keys (fst document) [] \<noteq> [] \<and>
        auth' = auth\<lparr>oi_keys := approved_keys (fst document) [], oi_loaded_at := ox_now_loaded env\<rparr>)"
  by (auto simp: load_keys_def Let_def split: sum.splits prod.splits if_splits option.splits)

lemma load_keys_Some: "load_keys env auth = (Some err, auth') \<Longrightarrow> auth' = auth"
  by (auto simp: load_keys_def Let_def split: sum.splits prod.splits if_splits option.splits)

text \<open>The two ways to a trusted key: a fresh cache, or the document just fetched.\<close>

lemma oidc_key_Inr:
  assumes "oidc_key env auth kid refresh = (Inr key, auth')"
  obtains "ox_now_key env - oi_loaded_at auth < key_ttl" "auth' = auth" "map_of (oi_keys auth) kid = Some key"
  | "load_keys env auth = (None, auth')" "map_of (oi_keys auth') kid = Some key"
  using assms by (auto simp: oidc_key_def Let_def split: if_splits option.splits prod.splits)

lemma oidc_key_state: "oidc_key env auth kid refresh = (res, auth') \<Longrightarrow> auth' = auth \<or> load_keys env auth = (None, auth')"
  by (auto simp: oidc_key_def Let_def dest: load_keys_Some split: if_splits option.splits prod.splits)

lemma oidc_authenticate_state:
  "oidc_authenticate R env auth request = (res, auth') \<Longrightarrow> auth' = auth \<or> load_keys env auth = (None, auth')"
  by (auto simp: oidc_authenticate_def dest!: oidc_key_state
      split: option.splits list.splits if_splits prod.splits sum.splits)

lemma load_keys_inv: "load_keys env auth = (None, auth') \<Longrightarrow> oidc_inv auth'"
  by (auto simp: load_keys_None oidc_inv_def dest!: approved_keys_source dest: approved_key_strong)

text \<open>The authenticator answers requests one after the other.\<close>

fun oidc_run :: "rsa_libs \<Rightarrow> oidc \<Rightarrow> (oidc_env \<times> http_request) list \<Rightarrow> oidc" where
  "oidc_run R auth [] = auth"
| "oidc_run R auth ((env, request) # calls) = oidc_run R (snd (oidc_authenticate R env auth request)) calls"

lemma oidc_inv_run: "oidc_inv auth \<Longrightarrow> oidc_inv (oidc_run R auth calls)"
proof (induction calls arbitrary: auth)
  case (Cons call calls)
  obtain env request where "call = (env, request)" by force
  moreover have "oidc_inv (snd (oidc_authenticate R env auth request))"
    using oidc_authenticate_state [of R env auth request] load_keys_inv Cons.prems
    by (cases "oidc_authenticate R env auth request") auto
  ultimately show ?case using Cons.IH by simp
qed simp

lemma oidc_run_config [simp]:
  "oi_issuer (oidc_run R auth calls) = oi_issuer auth \<and> oi_audience (oidc_run R auth calls) = oi_audience auth"
proof (induction calls arbitrary: auth)
  case (Cons call calls)
  obtain env request where call: "call = (env, request)" by force
  obtain res auth' where a: "oidc_authenticate R env auth request = (res, auth')" by force
  then have "oi_issuer auth' = oi_issuer auth \<and> oi_audience auth' = oi_audience auth"
    using oidc_authenticate_state [OF a] by (auto simp: load_keys_None)
  then show ?case using Cons.IH [of auth'] by (simp add: call a)
qed simp

lemma new_oidc_inv: "new_oidc rf hc issuer audience u ca = Inr auth \<Longrightarrow>
    oidc_inv auth \<and> oi_issuer auth = issuer \<and> oi_audience auth = audience \<and> issuer \<noteq> [] \<and> audience \<noteq> []"
  by (auto simp: new_oidc_def oidc_inv_def Let_def split: option.splits if_splits sum.splits)

text \<open>
  (C26) Whatever documents the JWKS endpoint serves and whatever tokens are presented, the cache of an
  authenticator never holds a key with an empty identifier, with a modulus below 2048 bits, or with an
  exponent that is even or below 3.
\<close>

theorem oidc_cache_strong:
  assumes "new_oidc read_file has_certs issuer audience jwks_url ca_file = Inr auth"
    and "(kid, k) \<in> set (oi_keys (oidc_run R auth calls))"
  shows "kid \<noteq> [] \<and> 2 ^ 2047 \<le> rk_n k \<and> 3 \<le> rk_e k \<and> odd (rk_e k)"
  using oidc_inv_run [of auth R calls] new_oidc_inv [OF assms(1)] assms(2)
  by (auto simp: oidc_inv_def strong_key_def)

subsection \<open>What an accepted request carries\<close>

lemma check_claims_Inr:
  "check_claims auth now c = Inr p \<longleftrightarrow>
     c_iss c = oi_issuer auth \<and> audience_contains (c_aud c) (oi_audience auth) \<and>
     (\<exists>expires. atoi (c_exp c) = Some expires \<and> now < expires) \<and>
     (c_nbf c \<noteq> [] \<longrightarrow> (\<exists>not_before. atoi (c_nbf c) = Some not_before \<and> not_before \<le> now)) \<and>
     validated_subject (c_sub c) = Inr (a_subject p) \<and> validated_clearance (c_clearance c) = Inr (a_clearance p) \<and>
     a_roles p = claimed_roles c \<and> a_tenant_id p = trim_space (c_tenant_id c)"
  by (cases p) (auto simp: check_claims_def split: option.splits sum.splits)

lemma oidc_authenticate_Inr:
  assumes "oidc_authenticate R env auth request = (Inr p, auth')"
  obtains s0 s1 s2 kid key signature payload c where
    "bearer_token request = Some (s0 @ ''.'' @ s1 @ ''.'' @ s2)"
    "Option.bind (decode_base64_url s0) token_kid = Some kid"
    "oidc_key env auth kid True = (Inr key, auth')"
    "decode_base64_url s2 = Some signature"
    "rl_verify R key (rl_sha256 R (s0 @ ''.'' @ s1)) signature"
    "decode_base64_url s1 = Some payload" "decode_claims payload = Some c"
    "check_claims auth' (ox_now_claims env div nano) c = Inr p"
proof -
  obtain token s0 s1 s2 where t: "bearer_token request = Some token" "split_on CHR ''.'' token = [s0, s1, s2]"
    using assms by (auto simp: oidc_authenticate_def split: option.splits list.splits)
  have "token = s0 @ ''.'' @ s1 @ ''.'' @ s2"
    using join_split_on [of "CHR ''.''" token] t(2) by simp
  note auth = assms [unfolded oidc_authenticate_def t(1) option.case t(2) list.case]
  have ne: "\<not> (s0 = [] \<or> s1 = [] \<or> s2 = [])" using auth by (auto split: if_splits)
  note auth = auth [unfolded if_not_P [OF ne]]
  obtain header where h: "decode_base64_url s0 = Some header"
    using auth by (cases "decode_base64_url s0") simp_all
  obtain kid where kid: "token_kid header = Some kid"
    using auth by (cases "token_kid header") (simp_all add: h)
  obtain key a2 where key: "oidc_key env auth kid True = (Inr key, a2)"
    using auth by (cases "oidc_key env auth kid True"; cases "fst (oidc_key env auth kid True)") (simp_all add: h kid)
  obtain signature where sg: "decode_base64_url s2 = Some signature"
    using auth by (cases "decode_base64_url s2") (simp_all add: h kid key)
  have v: "rl_verify R key (rl_sha256 R (s0 @ ''.'' @ s1)) signature"
    using auth by (simp add: h kid key sg split: if_splits)
  obtain c where c: "Option.bind (decode_base64_url s1) decode_claims = Some c"
    using auth v by (cases "Option.bind (decode_base64_url s1) decode_claims") (simp_all add: h kid key sg)
  have "a2 = auth'" "check_claims a2 (ox_now_claims env div nano) c = Inr p"
    using auth v by (auto simp: h kid key sg c)
  then show ?thesis
    using that [of s0 s1 s2 kid key signature _ c] t(1) \<open>token = _\<close> h kid key sg v c
    by (auto simp: bind_eq_Some_conv)
qed

lemma check_claims_wf: "check_claims auth now c = Inr p \<Longrightarrow> principal_wf p"
  unfolding check_claims_Inr principal_wf_def validated_subject_Inr validated_clearance_Inr claimed_roles_def
  using trimmed_roles by (metis (no_types, lifting) trim_space_idem)

interpretation oidc: authenticator "oidc_authenticate R env" for R env
proof unfold_locales
  fix a a' request p
  assume "oidc_authenticate R env a request = (Inr p, a')"
  then obtain now c where "check_claims a' now c = Inr p" by (rule oidc_authenticate_Inr)
  then show "principal_wf p" by (rule check_claims_wf)
qed

text \<open>
  (C3) Only a properly signed, current token of the realm is accepted. A principal comes from a
  compact token in the \<open>Authorization\<close> header whose header says RS256 and names a key of the cache,
  strong enough, under which the signature over header and claims verifies; the claims carry the exact
  issuer, the audience, an expiry in the future and no \<open>nbf\<close> in the future; and the principal is the
  one the claims name.
\<close>

theorem oidc_accepts_only:
  assumes "new_oidc read_file has_certs issuer audience jwks_url ca_file = Inr auth0"
    and "oidc_authenticate R env (oidc_run R auth0 calls) request = (Inr p, auth')"
  shows "\<exists>s0 s1 s2 kid key signature c expires.
    bearer_token request = Some (s0 @ ''.'' @ s1 @ ''.'' @ s2) \<and>
    Option.bind (decode_base64_url s0) token_kid = Some kid \<and>
    map_of (oi_keys auth') kid = Some key \<and> 2 ^ 2047 \<le> rk_n key \<and> 3 \<le> rk_e key \<and> odd (rk_e key) \<and>
    decode_base64_url s2 = Some signature \<and> rl_verify R key (rl_sha256 R (s0 @ ''.'' @ s1)) signature \<and>
    Option.bind (decode_base64_url s1) decode_claims = Some c \<and>
    c_iss c = issuer \<and> audience_contains (c_aud c) audience \<and>
    atoi (c_exp c) = Some expires \<and> ox_now_claims env div nano < expires \<and>
    (c_nbf c = [] \<or> (\<exists>nbf. atoi (c_nbf c) = Some nbf \<and> nbf \<le> ox_now_claims env div nano)) \<and>
    a_subject p = trim_space (c_sub c) \<and> a_roles p = claimed_roles c \<and>
    a_tenant_id p = trim_space (c_tenant_id c) \<and> a_clearance p \<in> {trim_space (c_clearance c), ''public''}"
proof -
  let ?auth = "oidc_run R auth0 calls"
  obtain s0 s1 s2 kid key signature payload c where t:
    "bearer_token request = Some (s0 @ ''.'' @ s1 @ ''.'' @ s2)"
    "Option.bind (decode_base64_url s0) token_kid = Some kid"
    "oidc_key env ?auth kid True = (Inr key, auth')"
    "decode_base64_url s2 = Some signature"
    "rl_verify R key (rl_sha256 R (s0 @ ''.'' @ s1)) signature"
    "decode_base64_url s1 = Some payload" "decode_claims payload = Some c"
    and c: "check_claims auth' (ox_now_claims env div nano) c = Inr p"
    by (rule oidc_authenticate_Inr [OF assms(2)])
  have auth': "auth' = ?auth \<or> load_keys env ?auth = (None, auth')"
    using oidc_key_state [OF t(3)] .
  then have cfg: "oi_issuer auth' = issuer" "oi_audience auth' = audience"
    using new_oidc_inv [OF assms(1)] by (auto simp: load_keys_None)
  have key: "map_of (oi_keys auth') kid = Some key"
    by (rule oidc_key_Inr [OF t(3)]) simp_all
  have "oidc_inv auth'"
    using auth' load_keys_inv oidc_inv_run new_oidc_inv [OF assms(1)] by blast
  then have "strong_key key"
    using map_of_SomeD [OF key] by (auto simp: oidc_inv_def)
  then show ?thesis
    using t c key cfg
    unfolding check_claims_Inr strong_key_def validated_subject_Inr validated_clearance_Inr
    by (metis (no_types, lifting) bind.bind_lunit insertI1 insertI2)
qed

text \<open>
  (C27) Revocation takes effect within five minutes and fails closed: once the cache is that old, a token
  is accepted only if the key set was fetched during this very request and still approves, under the
  token's key identifier, a key that verifies it. An endpoint that is down, answers anything but 200,
  or no longer lists the key means no access.
\<close>

theorem oidc_stale_cache:
  assumes "key_ttl \<le> ox_now_key env - oi_loaded_at auth"
    and "oidc_authenticate R env auth request = (Inr p, auth')"
  shows "\<exists>bdy content document item key s0 s1 s2 signature.
    ox_fetch env = Inr (200, bdy) \<and> read_limited mebibyte bdy = Inr content \<and>
    Option.bind (json_all content) (\<lambda>v. decode_jwks v ([], [])) = Some document \<and>
    item \<in> set (fst document) \<and> approved_key item = Some key \<and>
    bearer_token request = Some (s0 @ ''.'' @ s1 @ ''.'' @ s2) \<and>
    Option.bind (decode_base64_url s0) token_kid = Some (k_kid item) \<and>
    decode_base64_url s2 = Some signature \<and>
    rl_verify R key (rl_sha256 R (s0 @ ''.'' @ s1)) signature"
proof -
  obtain s0 s1 s2 kid key signature where t:
    "bearer_token request = Some (s0 @ ''.'' @ s1 @ ''.'' @ s2)"
    "Option.bind (decode_base64_url s0) token_kid = Some kid"
    "decode_base64_url s2 = Some signature"
    "rl_verify R key (rl_sha256 R (s0 @ ''.'' @ s1)) signature"
    and k: "oidc_key env auth kid True = (Inr key, auth')"
    by (rule oidc_authenticate_Inr [OF assms(2)])
  from k have "load_keys env auth = (None, auth') \<and> map_of (oi_keys auth') kid = Some key"
    using assms(1) by (cases rule: oidc_key_Inr) auto
  then obtain bdy content document where d: "ox_fetch env = Inr (200, bdy)"
      "read_limited mebibyte bdy = Inr content"
      "Option.bind (json_all content) (\<lambda>v. decode_jwks v ([], [])) = Some document"
    and m: "map_of (approved_keys (fst document) []) kid = Some key"
    by (auto simp: load_keys_None)
  obtain item where "item \<in> set (fst document)" "k_kid item = kid" "approved_key item = Some key"
    using approved_keys_source [OF map_of_SomeD [OF m]] by auto
  then show ?thesis using d t by blast
qed

end
