(* ===== verification/Auth_Samples.thy ===== *)
theory Auth_Samples
  imports Auth_Oidc
begin

text \<open>
  A realm with one key and a token it signed, evaluated: the witnesses of the theorems about the OIDC
  authenticator.
\<close>

subsection \<open>Concrete runs\<close>

text \<open>A realm with one key, and a token it signed; the toy signature of a message is its first byte.\<close>

definition sample_rsa :: rsa_libs where
  "sample_rsa = \<lparr>rl_sha256 = (\<lambda>m. m), rl_verify = (\<lambda>k m s. rk_e k = 65537 \<and> s = take 1 m)\<rparr>"

definition sample_jwks :: string where
  "sample_jwks = render (JObj [(''keys'', JArr [JObj [(''kty'', JStr ''RSA''), (''kid'', JStr ''k1''),
     (''use'', JStr ''sig''), (''alg'', JStr ''RS256''), (''n'', JStr (replicate 341 CHR ''_'' @ ''w'')),
     (''e'', JStr ''AQAB'')]])])"

definition sample_claims_json :: string where
  "sample_claims_json = render (JObj [(''iss'', JStr ''realm''), (''sub'', JStr ''alice''),
     (''aud'', JArr [JStr ''evidence'']), (''exp'', JNum ''1700000600''),
     (''realm_access'', JObj [(''roles'', JArr [JStr ''evidence-admin''])]),
     (''clearance'', JStr ''restricted''), (''tenant_id'', JStr ''tenant'')])"

definition sample_header :: string where
  "sample_header = render (JObj [(''alg'', JStr ''RS256''), (''kid'', JStr ''k1'')])"

definition sample_signing_input :: string where
  "sample_signing_input =
     b64_encode True False sample_header @ ''.''
       @ b64_encode True False sample_claims_json"

definition bearing :: "string \<Rightarrow> string \<Rightarrow> http_request" where
  "bearing meth path = \<lparr>rq_method = meth, rq_path = path, rq_query = [],
     rq_headers = [(''Authorization'',
       [''Bearer '' @ sample_signing_input @ ''.'' @ b64_encode True False (take 1 sample_signing_input)])],
     rq_remote_addr = ''192.0.2.1:1'', rq_body = \<lparr>b_bytes = [], b_fault = None\<rparr>\<rparr>"

definition sample_oidc_env :: oidc_env where
  "sample_oidc_env = \<lparr>ox_fetch = Inr (200, \<lparr>b_bytes = sample_jwks, b_fault = None\<rparr>),
     ox_now_key = 1700000000 * nano, ox_now_loaded = 1700000000 * nano, ox_now_claims = 1700000000 * nano\<rparr>"

definition sample_oidc :: oidc where
  "sample_oidc = \<lparr>oi_issuer = ''realm'', oi_audience = ''evidence'',
     oi_jwks_url = empty_url, oi_root_ca = None, oi_keys = [], oi_loaded_at = zero_time\<rparr>"

definition sample_rsa_key :: rsa_key where
  "sample_rsa_key = \<lparr>rk_n = set_bytes (replicate 256 CHR 0xFF), rk_e = 65537\<rparr>"

definition sample_loaded :: oidc where
  "sample_loaded = sample_oidc\<lparr>oi_keys := [(''k1'', sample_rsa_key)], oi_loaded_at := 1700000000 * nano\<rparr>"

definition alice :: principal_id where
  "alice = \<lparr>a_subject = ''alice'', a_roles = {''evidence-admin''},
     a_clearance = ''restricted'', a_tenant_id = ''tenant''\<rparr>"

lemma sample_new_oidc:
  "new_oidc (\<lambda>_. Inr []) (\<lambda>_. True) ''realm'' ''evidence'' (Some empty_url) [] = Inr sample_oidc"
  by code_simp

definition sample_jwk :: jwk where
  "sample_jwk = \<lparr>k_kty = ''RSA'', k_kid = ''k1'', k_use = ''sig'', k_alg = ''RS256'',
     k_n = replicate 341 CHR ''_'' @ ''w'', k_e = ''AQAB''\<rparr>"

lemma set_bytes_ones: "set_bytes (replicate n CHR 0xFF) = 256 ^ n - 1"
proof (induction n)
  case (Suc n)
  have "set_bytes (replicate (Suc n) CHR 0xFF) = 256 * set_bytes (replicate n CHR 0xFF) + 255"
    unfolding set_bytes_def replicate_append_same [symmetric] replicate_Suc by simp
  also have "\<dots> = 256 ^ Suc n - 1"
    using one_le_power [of "256::nat" n] unfolding Suc.IH power_Suc by (simp add: right_diff_distrib')
  finally show ?case .
qed (simp add: set_bytes_def)

lemma run_jwk: "approved_key sample_jwk = Some sample_rsa_key"
proof -
  have "decode_base64_url (k_n sample_jwk) = Some (replicate 256 CHR 0xFF)"
    "decode_base64_url (k_e sample_jwk) = Some [CHR 0x01, CHR 0x00, CHR 0x01]"
    "exponent_of [CHR 0x01, CHR 0x00, CHR 0x01] = 65537" by code_simp+
  moreover have "\<not> set_bytes (replicate 256 CHR 0xFF) < 2 ^ 2047"
    unfolding set_bytes_ones by simp
  ultimately show ?thesis
    by (simp add: approved_key_def sample_rsa_key_def) (simp add: sample_jwk_def)
qed

lemma run_load: "load_keys sample_oidc_env sample_oidc = (None, sample_loaded)"
proof -
  have "read_limited mebibyte \<lparr>b_bytes = sample_jwks, b_fault = None\<rparr> = Inr sample_jwks" by code_simp
  moreover have "Option.bind (json_all sample_jwks) (\<lambda>v. decode_jwks v ([], [])) = Some ([sample_jwk], [])"
    by code_simp
  moreover have "k_kid sample_jwk = ''k1''" by (simp add: sample_jwk_def)
  ultimately show ?thesis
    by (simp add: load_keys_def sample_oidc_env_def run_jwk sample_loaded_def)
qed

lemma run_key:
  "oidc_key sample_oidc_env sample_oidc ''k1'' True = (Inr sample_rsa_key, sample_loaded)"
proof -
  have "oi_keys sample_oidc = []" by (simp add: sample_oidc_def)
  then show ?thesis by (simp add: oidc_key_def run_load) (simp add: sample_loaded_def)
qed

definition sample_claims :: claims where
  "sample_claims = \<lparr>c_iss = ''realm'', c_sub = ''alice'',
     c_aud = Some (JArr [JStr ''evidence'']), c_exp = ''1700000600'', c_nbf = [],
     c_realm_roles = ([''evidence-admin''], []), c_resource_roles = [],
     c_clearance = ''restricted'', c_tenant_id = ''tenant''\<rparr>"

lemma run_oidc:
  assumes "rq_headers request = rq_headers (bearing m p)"
  shows "oidc_authenticate sample_rsa sample_oidc_env sample_oidc request = (Inr alice, sample_loaded)"
proof -
  let ?s0 = "b64_encode True False sample_header"
  let ?s1 = "b64_encode True False sample_claims_json"
  let ?s2 = "b64_encode True False (take 1 sample_signing_input)"
  have "bearer_token (bearing m p) = Some (sample_signing_input @ ''.'' @ ?s2)"
    "split_on CHR ''.'' (sample_signing_input @ ''.'' @ ?s2) = [?s0, ?s1, ?s2]"
    "?s0 \<noteq> []" "?s1 \<noteq> []" "?s2 \<noteq> []" by code_simp+
  moreover have "decode_base64_url ?s0 = Some sample_header"
    "decode_base64_url ?s2 = Some (take 1 sample_signing_input)" "decode_base64_url ?s1 = Some sample_claims_json"
    unfolding decode_base64_url_def by (rule b64_decode_encode)+
  moreover have "token_kid sample_header = Some ''k1''"
    by code_simp
  moreover have "decode_claims sample_claims_json = Some sample_claims" by code_simp
  moreover have "check_claims sample_loaded (ox_now_claims sample_oidc_env div nano) sample_claims = Inr alice"
    by code_simp
  moreover have "bearer_token request = bearer_token (bearing m p)"
    using assms by (simp add: bearer_token_def header_get_def)
  moreover have "sample_signing_input = ?s0 @ ''.'' @ ?s1" by (simp add: sample_signing_input_def)
  ultimately show ?thesis
    by (simp add: oidc_authenticate_def run_key) (simp add: sample_rsa_def sample_rsa_key_def)
qed

lemma oidc_cache_strong_witness: "''k1'' \<noteq> [] \<and> 2 ^ 2047 \<le> rk_n sample_rsa_key \<and> odd (rk_e sample_rsa_key)"
proof -
  have "(''k1'', sample_rsa_key) \<in> set (oi_keys (oidc_run sample_rsa sample_oidc
      [(sample_oidc_env, bearing ''GET'' ''/healthz'')]))"
    by (simp add: run_oidc) (simp add: sample_loaded_def)
  from oidc_cache_strong [OF sample_new_oidc this] show ?thesis by simp
qed

lemma oidc_accepts_only_witness:
  "\<exists>kid key. map_of (oi_keys sample_loaded) kid = Some key \<and> 2 ^ 2047 \<le> rk_n key"
proof -
  have "oidc_authenticate sample_rsa sample_oidc_env (oidc_run sample_rsa sample_oidc [])
      (bearing ''GET'' ''/healthz'') = (Inr alice, sample_loaded)"
    by (simp add: run_oidc)
  from oidc_accepts_only [OF sample_new_oidc this] show ?thesis by blast
qed

lemma oidc_stale_cache_witness:
  "\<exists>item key. approved_key item = Some key \<and> k_kid item = ''k1''"
proof -
  have "key_ttl \<le> ox_now_key sample_oidc_env - oi_loaded_at sample_oidc" by code_simp
  from oidc_stale_cache [OF this run_oidc [OF refl]]
  obtain s0 s1 s2 item key where "bearer_token (bearing [] []) = Some (s0 @ ''.'' @ s1 @ ''.'' @ s2)"
    "Option.bind (decode_base64_url s0) token_kid = Some (k_kid item)" "approved_key item = Some key"
    by blast
  then show ?thesis using run_jwk by (metis (no_types) jwk.select_convs(2) sample_jwk_def)
qed

end
