(* ===== verification/Object_Store.thy ===== *)
theory Object_Store
  imports Evidence_Model
begin

text \<open>
  \<open>internal/objstore/objstore.go\<close>: the configuration and its validation, the credential-free locations,
  the presigned upload and download descriptors, and the digest check of a retained object. The AWS
  SDK and the clock are the parameter \<open>s3_sdk\<close>: what one call to the presigner or to \<open>HeadObject\<close>
  returns for a client made with given options. The texts of wrapped SDK errors are its own.
\<close>

subsection \<open>Configuration\<close>

record object_config =
  oc_endpoint :: string
  oc_region :: string
  oc_bucket :: string
  oc_access_key :: string
  oc_secret_key :: string
  oc_path_style :: bool
  oc_presign_ttl :: int       \<comment> \<open>\<open>time.Duration\<close>, in nanoseconds\<close>

definition hour :: int where "hour = 3600 * nano"

definition object_config_validate ::
  "(string \<Rightarrow> string option) \<Rightarrow> object_config \<Rightarrow> go_error option" where
  "object_config_validate ipl c =
     (let ttl_check =
        (if oc_presign_ttl c \<le> 0 \<or> hour < oc_presign_ttl c
         then Some (Error ''object-store presign TTL must be positive and at most one hour'') else None)
      in
      if trim_space (oc_region c) = [] then Some (Error ''object-store region is required'')
      else if trim_space (oc_bucket c) = [] \<or> contains_any (oc_bucket c) ''/:@''
      then Some (Error ''object-store bucket is required and must be a bare bucket name'')
      else if trim_space (oc_access_key c) = [] \<or> trim_space (oc_secret_key c) = []
      then Some (Error ''object-store credentials must be injected from the environment'')
      else if oc_endpoint c \<noteq> [] then
        (case url_parse ipl (oc_endpoint c) of
           None \<Rightarrow> Some (Error ''object-store endpoint must be an absolute http(s) URL'')
         | Some parsed \<Rightarrow>
             if u_scheme parsed \<noteq> ''https'' \<and> u_scheme parsed \<noteq> ''http'' \<or> u_host parsed = []
             then Some (Error ''object-store endpoint must be an absolute http(s) URL'')
             else if u_user parsed \<or> u_raw_query parsed \<noteq> [] \<or> u_fragment parsed \<noteq> []
             then Some (Error ''object-store endpoint must not contain credentials, query parameters or fragments'')
             else ttl_check)
      else ttl_check)"

subsection \<open>The client\<close>

text \<open>The options a client of the SDK is made with.\<close>

record s3_options =
  so_region :: string
  so_access_key :: string
  so_secret_key :: string
  so_path_style :: bool
  so_base_endpoint :: "string option"

text \<open>
  \<open>PresignPutObject\<close> (bucket, key, checksum, expiry), \<open>PresignGetObject\<close> (bucket, key, expiry) with the
  URL they sign, \<open>HeadObject\<close> with checksum mode enabled (bucket, key) and the \<open>ChecksumSHA256\<close> it
  returns, and \<open>time.Now()\<close>.
\<close>

record s3_sdk =
  s3_put :: "s3_options \<Rightarrow> string \<Rightarrow> string \<Rightarrow> string \<Rightarrow> int \<Rightarrow> string result"
  s3_get :: "s3_options \<Rightarrow> string \<Rightarrow> string \<Rightarrow> int \<Rightarrow> string result"
  s3_head :: "s3_options \<Rightarrow> string \<Rightarrow> string \<Rightarrow> string option result"
  s3_now :: time

record client =
  cl_config :: object_config
  cl_presign :: s3_options
  cl_heads :: s3_options

definition new_client :: "(string \<Rightarrow> string option) \<Rightarrow> object_config \<Rightarrow> client result" where
  "new_client ipl config =
     (case object_config_validate ipl config of
        Some err \<Rightarrow> Inl err
      | None \<Rightarrow>
          (let s3_client =
             \<lparr>so_region = oc_region config, so_access_key = oc_access_key config,
              so_secret_key = oc_secret_key config, so_path_style = oc_path_style config,
              so_base_endpoint = (if oc_endpoint config \<noteq> [] then Some (oc_endpoint config) else None)\<rparr>
           in Inr \<lparr>cl_config = config, cl_presign = s3_client, cl_heads = s3_client\<rparr>))"

definition client_object_location :: "client \<Rightarrow> string \<Rightarrow> string" where
  "client_object_location c key = ''s3://'' @ oc_bucket (cl_config c) @ ''/'' @ key"

definition parse_location :: "(string \<Rightarrow> string option) \<Rightarrow> client \<Rightarrow> string \<Rightarrow> string result" where
  "parse_location ipl c location =
     (case url_parse ipl location of
        None \<Rightarrow> Inl (Error ''content location is not in the approved evidence bucket'')
      | Some parsed \<Rightarrow>
          if u_scheme parsed \<noteq> ''s3'' \<or> u_host parsed \<noteq> oc_bucket (cl_config c)
          then Inl (Error ''content location is not in the approved evidence bucket'')
          else let key = trim_prefix (u_path parsed) ''/'' in
            if key = [] \<or> contains_sub key ''..''
            then Inl (Error ''content location object key is invalid'')
            else Inr key)"

subsection \<open>Descriptors and the digest check\<close>

record upload_descriptor =
  ud_method :: string
  ud_url :: string
  ud_headers :: "(string \<times> string) list"
  ud_expires_at :: time

record download_descriptor =
  dd_method :: string
  dd_url :: string
  dd_expires_at :: time

definition checksum_base64 :: "string \<Rightarrow> string result" where
  "checksum_base64 expected =
     (case hex_decode expected of
        None \<Rightarrow> Inl (Error ''expected digest must be a lower-case SHA-256 hexadecimal digest'')
      | Some raw \<Rightarrow>
          if length raw \<noteq> 32
          then Inl (Error ''expected digest must be a lower-case SHA-256 hexadecimal digest'')
          else Inr (b64_encode False True raw))"

definition presigned_upload :: "s3_sdk \<Rightarrow> client \<Rightarrow> string \<Rightarrow> string \<Rightarrow> upload_descriptor result" where
  "presigned_upload sdk c key expected =
     (case checksum_base64 expected of
        Inl err \<Rightarrow> Inl err
      | Inr checksum \<Rightarrow>
          (case s3_put sdk (cl_presign c) (oc_bucket (cl_config c)) key checksum
                  (oc_presign_ttl (cl_config c)) of
             Inl err \<Rightarrow> Inl (Wrap ''presign evidence upload'' err)
           | Inr signed_url \<Rightarrow>
               Inr \<lparr>ud_method = ''PUT'', ud_url = signed_url,
                    ud_headers = [(''x-amz-checksum-sha256'', checksum)],
                    ud_expires_at = s3_now sdk + oc_presign_ttl (cl_config c)\<rparr>))"

definition presigned_download :: "s3_sdk \<Rightarrow> client \<Rightarrow> string \<Rightarrow> download_descriptor result" where
  "presigned_download sdk c key =
     (case s3_get sdk (cl_presign c) (oc_bucket (cl_config c)) key (oc_presign_ttl (cl_config c)) of
        Inl err \<Rightarrow> Inl (Wrap ''presign evidence download'' err)
      | Inr signed_url \<Rightarrow>
          Inr \<lparr>dd_method = ''GET'', dd_url = signed_url,
               dd_expires_at = s3_now sdk + oc_presign_ttl (cl_config c)\<rparr>)"

definition verify_digest :: "s3_sdk \<Rightarrow> client \<Rightarrow> string \<Rightarrow> string \<Rightarrow> go_error option" where
  "verify_digest sdk c key expected =
     (case checksum_base64 expected of
        Inl err \<Rightarrow> Some err
      | Inr _ \<Rightarrow>
          (case s3_head sdk (cl_heads c) (oc_bucket (cl_config c)) key of
             Inl err \<Rightarrow> Some (Wrap ''head evidence object'' err)
           | Inr None \<Rightarrow> Some (Error ''evidence object carries no server-side SHA-256 checksum'')
           | Inr (Some checksum) \<Rightarrow>
               (case b64_decode False True checksum of
                  None \<Rightarrow> Some (Error ''evidence object digest does not match the recorded digest'')
                | Some decoded \<Rightarrow>
                    if hex_encode decoded \<noteq> expected
                    then Some (Error ''evidence object digest does not match the recorded digest'')
                    else None)))"

text \<open>The interface the API uses: \<open>objstore.Store\<close>.\<close>

record object_store =
  os_presigned_upload :: "string \<Rightarrow> string \<Rightarrow> upload_descriptor result"
  os_presigned_download :: "string \<Rightarrow> download_descriptor result"
  os_verify_digest :: "string \<Rightarrow> string \<Rightarrow> go_error option"

definition client_store :: "s3_sdk \<Rightarrow> client \<Rightarrow> object_store" where
  "client_store sdk c =
     \<lparr>os_presigned_upload = presigned_upload sdk c, os_presigned_download = presigned_download sdk c,
      os_verify_digest = verify_digest sdk c\<rparr>"

subsection \<open>Digests\<close>

lemma checksum_base64_Inr:
  "checksum_base64 expected = Inr checksum \<longleftrightarrow>
     (\<exists>raw. hex_decode expected = Some raw \<and> length raw = 32 \<and> checksum = b64_encode False True raw)"
  by (auto simp: checksum_base64_def split: option.splits)

lemma valid_sha256_decode:
  "valid_sha256 s \<longleftrightarrow> (\<exists>raw. hex_decode s = Some raw \<and> length raw = 32 \<and> hex_encode raw = s)"
  by (auto simp: valid_sha256_def dest: hex_decode_length split: option.split)

lemma checksum_base64_valid: "valid_sha256 s \<Longrightarrow> \<exists>c. checksum_base64 s = Inr c"
  by (auto simp: valid_sha256_decode checksum_base64_Inr)

text \<open>
  The digest check passes exactly when the recorded digest is a lower-case SHA-256 and the object
  store answers the HEAD with the base64 of those very bytes: a missing object, a missing checksum, a
  checksum of another form and a digest in upper case all fail.
\<close>

theorem verify_digest_iff:
  "verify_digest sdk c key expected = None \<longleftrightarrow>
     valid_sha256 expected \<and>
     (\<exists>checksum. s3_head sdk (cl_heads c) (oc_bucket (cl_config c)) key = Inr (Some checksum) \<and>
        b64_decode False True checksum = hex_decode expected)"
proof
  assume "verify_digest sdk c key expected = None"
  then obtain checksum decoded where *: "\<exists>x. checksum_base64 expected = Inr x"
      "s3_head sdk (cl_heads c) (oc_bucket (cl_config c)) key = Inr (Some checksum)"
      "b64_decode False True checksum = Some decoded" "hex_encode decoded = expected"
    by (auto simp: verify_digest_def split: sum.splits option.splits if_splits)
  then have "hex_decode expected = Some decoded" by auto
  with * show "valid_sha256 expected \<and>
     (\<exists>checksum. s3_head sdk (cl_heads c) (oc_bucket (cl_config c)) key = Inr (Some checksum) \<and>
        b64_decode False True checksum = hex_decode expected)"
    by (auto simp: valid_sha256_decode checksum_base64_Inr)
next
  assume *: "valid_sha256 expected \<and>
     (\<exists>checksum. s3_head sdk (cl_heads c) (oc_bucket (cl_config c)) key = Inr (Some checksum) \<and>
        b64_decode False True checksum = hex_decode expected)"
  then obtain x where "checksum_base64 expected = Inr x" using checksum_base64_valid by blast
  with * show "verify_digest sdk c key expected = None"
    by (auto simp: verify_digest_def valid_sha256_decode)
qed

lemma upload_header:
  "presigned_upload sdk c key expected = Inr ud \<Longrightarrow>
     \<exists>checksum. checksum_base64 expected = Inr checksum \<and>
       ud_headers ud = [(''x-amz-checksum-sha256'', checksum)] \<and> ud_method ud = ''PUT'' \<and>
       s3_put sdk (cl_presign c) (oc_bucket (cl_config c)) key checksum
         (oc_presign_ttl (cl_config c)) = Inr (ud_url ud)"
  by (auto simp: presigned_upload_def split: sum.splits)

text \<open>
  (C33) Upload and confirmation agree: when the object store reports for an object the checksum that the
  upload descriptor of the same digest demanded, the digest check passes. The header of the descriptor
  and the check use the same encoding of the digest.
\<close>

theorem upload_then_verify:
  assumes "valid_sha256 expected" and "presigned_upload sdk c key expected = Inr ud"
    and "s3_head sdk' (cl_heads c) (oc_bucket (cl_config c)) key =
      Inr (map_of (ud_headers ud) ''x-amz-checksum-sha256'')"
  shows "verify_digest sdk' c key expected = None"
proof -
  obtain checksum raw where "ud_headers ud = [(''x-amz-checksum-sha256'', checksum)]"
      "hex_decode expected = Some raw" "length raw = 32" "checksum = b64_encode False True raw"
    using upload_header [OF assms(2)] by (auto simp: checksum_base64_Inr)
  then show ?thesis
    using assms(1,3) by (auto simp: verify_digest_def checksum_base64_def valid_sha256_decode)
qed

subsection \<open>Locations\<close>

lemma url_parse_s3:
  assumes "list_all plain b" and "plain_path t"
  shows "url_parse ipl (''s3://'' @ b @ ''/'' @ t)
    = Some (empty_url\<lparr>u_scheme := ''s3'', u_host := b, u_path := ''/'' @ t\<rparr>)"
proof -
  have "CHR ''#'' \<notin> set (''s3://'' @ b @ ''/'' @ t)"
    using assms by (auto simp: list_all_iff plain_path_def dest: plain_not)
  from cut_at_notin [OF this] show ?thesis
    using parse_common_s3 [OF assms, of ipl False] by (simp add: url_parse_def del: append_Cons append_Nil append.simps)
qed

text \<open>
  \<open>ParseLocation\<close> undoes \<open>ObjectLocation\<close>, and resolves nothing but the client's own locations:
  for a bucket name and a key of the characters the service uses, the key comes back exactly when the
  bucket is the client's, the key is not empty and has no \<open>..\<close> in it.
\<close>

theorem parse_location_iff:
  assumes "list_all plain b" and "plain_path key"
  shows "parse_location ipl c (''s3://'' @ b @ ''/'' @ key) = Inr k \<longleftrightarrow>
     ''s3://'' @ b @ ''/'' @ key = client_object_location c k \<and> b = oc_bucket (cl_config c) \<and>
     k \<noteq> [] \<and> \<not> contains_sub k ''..''"
proof -
  have "trim_prefix (''/'' @ key) ''/'' = key" by (rule trim_prefix_append)
  then show ?thesis
    unfolding parse_location_def url_parse_s3 [OF assms]
    by (auto simp: Let_def empty_url_def client_object_location_def)
qed

subsection \<open>Concrete runs\<close>

definition sample_object_config :: object_config where
  "sample_object_config = \<lparr>oc_endpoint = ''https://s3.example.invalid'', oc_region = ''eu'',
     oc_bucket = ''bucket'', oc_access_key = ''ak'', oc_secret_key = ''sk'', oc_path_style = True,
     oc_presign_ttl = 900 * nano\<rparr>"

definition sample_client :: client where
  "sample_client =
     (let s3_client = \<lparr>so_region = ''eu'', so_access_key = ''ak'', so_secret_key = ''sk'',
        so_path_style = True, so_base_endpoint = Some ''https://s3.example.invalid''\<rparr>
      in \<lparr>cl_config = sample_object_config, cl_presign = s3_client, cl_heads = s3_client\<rparr>)"

definition sample_digest :: string where "sample_digest = replicate 64 CHR ''a''"

definition sample_sdk :: "(string \<Rightarrow> string option) \<Rightarrow> s3_sdk" where
  "sample_sdk objects = \<lparr>s3_put = (\<lambda>_ _ key _ _. Inr key), s3_get = (\<lambda>_ _ key _. Inr key),
     s3_head = (\<lambda>_ _ key. Inr (objects key)), s3_now = 0\<rparr>"

lemma sample_new_client: "new_client (\<lambda>_. None) sample_object_config = Inr sample_client"
  by code_simp

definition sample_upload :: upload_descriptor where
  "sample_upload = \<lparr>ud_method = ''PUT'', ud_url = ''k'',
     ud_headers = [(''x-amz-checksum-sha256'', ''qqqqqqqqqqqqqqqqqqqqqqqqqqqqqqqqqqqqqqqqqqo='')],
     ud_expires_at = 900 * nano\<rparr>"

lemma run_upload:
  "presigned_upload (sample_sdk (\<lambda>_. None)) sample_client ''k'' sample_digest = Inr sample_upload"
  by code_simp

lemma upload_then_verify_witness:
  "verify_digest (sample_sdk (\<lambda>_. Some ''qqqqqqqqqqqqqqqqqqqqqqqqqqqqqqqqqqqqqqqqqqo='')) sample_client ''k''
     sample_digest = None"
proof (rule upload_then_verify [OF _ run_upload])
  show "valid_sha256 sample_digest" by code_simp
qed (simp add: sample_sdk_def sample_upload_def)

lemma parse_location_iff_witness:
  "parse_location (\<lambda>_. None) sample_client (''s3://'' @ ''bucket'' @ ''/'' @ ''evidence/a'') = Inr ''evidence/a''"
proof -
  have "list_all plain ''bucket''" "plain_path ''evidence/a''" "\<not> contains_sub ''evidence/a'' ''..''" by code_simp+
  from parse_location_iff [OF this(1,2), of "\<lambda>_. None" sample_client "''evidence/a''"] this(3) show ?thesis
    by (simp add: client_object_location_def sample_client_def sample_object_config_def Let_def)
qed

end
