(* ===== verification/Go_Mux.thy ===== *)
theory Go_Mux
  imports Go_Http Go_Url
begin

text \<open>
  \<open>http.ServeMux\<close> with method and path patterns, and \<open>URL.Query\<close>, as \<open>internal/api\<close> uses them. Paths
  are in escaped form, as the multiplexer sees them; the segments it hands to a handler are unescaped.
\<close>

subsection \<open>Clean paths\<close>

text \<open>\<open>path.Clean\<close> of a rooted path, segment by segment; \<open>acc\<close> is in reverse.\<close>

fun clean_segments :: "string list \<Rightarrow> string list \<Rightarrow> string list" where
  "clean_segments acc [] = rev acc"
| "clean_segments acc (s # ss) =
     (if s = [] \<or> s = ''.'' then clean_segments acc ss
      else if s = ''..'' then clean_segments (tl acc) ss
      else clean_segments (s # acc) ss)"

definition clean_path :: "string \<Rightarrow> string" where
  "clean_path p0 =
     (let p = (if p0 = [] then ''/'' else if has_prefix p0 ''/'' then p0 else CHR ''/'' # p0);
          np = CHR ''/'' # join_with ''/'' (clean_segments [] (split_on CHR ''/'' p))
      in if last p = CHR ''/'' \<and> np \<noteq> ''/'' then np @ ''/'' else np)"

subsection \<open>Matching\<close>

text \<open>A segment of a pattern: literal text, or a wildcard \<open>{name}\<close>.\<close>

datatype pattern_segment = Lit string | Wild

text \<open>
  The segments of a path, unescaped; a trailing slash is the segment \<open>/\<close>, which no wildcard matches.
\<close>

definition path_unescape :: "string \<Rightarrow> string" where
  "path_unescape s = (case unescape False s of Some t \<Rightarrow> t | None \<Rightarrow> s)"

fun mark_trailing :: "string list \<Rightarrow> string list" where
  "mark_trailing [] = []"
| "mark_trailing [s] = [if s = [] then ''/'' else path_unescape s]"
| "mark_trailing (s # t # ss) = path_unescape s # mark_trailing (t # ss)"

definition path_segments :: "string \<Rightarrow> string list" where
  "path_segments path = mark_trailing (split_on CHR ''/'' (tl path))"

fun match_segments :: "pattern_segment list \<Rightarrow> string list \<Rightarrow> string list option" where
  "match_segments [] [] = Some []"
| "match_segments (Lit l # ps) (s # ss) = (if s = l then match_segments ps ss else None)"
| "match_segments (Wild # ps) (s # ss) =
     (if s = ''/'' then None else map_option (\<lambda>m. s # m) (match_segments ps ss))"
| "match_segments _ _ = None"

text \<open>
  What the multiplexer makes of a request. The patterns of the table must not overlap, so their order
  does not matter. \<open>BadTarget\<close> is the answer to \<open>*\<close>, \<open>Redirected\<close> the one to a path that is not clean.
\<close>

datatype 'e routed =
    Routed 'e "string list"
  | Redirected string
  | MethodNotAllowed
  | NoRoute
  | BadTarget

type_synonym 'e route_table = "(string \<times> pattern_segment list \<times> 'e) list"

definition match_method :: "'e route_table \<Rightarrow> string \<Rightarrow> string list \<Rightarrow> ('e \<times> string list) option" where
  "match_method table meth segs =
     (case List.map_filter (\<lambda>(m, ps, e). if m = meth then map_option (\<lambda>ms. (e, ms)) (match_segments ps segs) else None)
             table of
        [] \<Rightarrow> None
      | r # _ \<Rightarrow> Some r)"

definition route :: "'e route_table \<Rightarrow> string \<Rightarrow> string \<Rightarrow> 'e routed" where
  "route table meth escaped_path =
     (if escaped_path = ''*'' then BadTarget
      else let path = (if meth = ''CONNECT'' then escaped_path else clean_path escaped_path);
               segs = path_segments path;
               found = (case match_method table meth segs of
                  Some r \<Rightarrow> Some r
                | None \<Rightarrow> if meth = ''HEAD'' then match_method table ''GET'' segs else None) in
        if path \<noteq> escaped_path then Redirected path
        else case found of
               Some (e, ms) \<Rightarrow> Routed e ms
             | None \<Rightarrow>
                 if list_ex (\<lambda>(_, ps, _). match_segments ps segs \<noteq> None) table then MethodNotAllowed
                 else NoRoute)"

text \<open>The library's own answers are modelled by their status; they have no body here.\<close>

definition library_page :: "nat \<Rightarrow> http_response" where
  "library_page status = \<lparr>rs_status = status, rs_headers = [], rs_body = []\<rparr>"

subsection \<open>Queries\<close>

text \<open>\<open>url.QueryUnescape\<close>.\<close>

definition query_unescape :: "string \<Rightarrow> string option" where
  "query_unescape s = unescape False (map (\<lambda>c. if c = CHR ''+'' then CHR '' '' else c) s)"

text \<open>
  \<open>URL.Query\<close>: a pair with a semicolon, an empty key or a bad escape is dropped, and a query of more
  than 10000 pairs is dropped as a whole.
\<close>

definition query_pair :: "string \<Rightarrow> (string \<times> string) option" where
  "query_pair p =
     (if CHR '';'' \<in> set p \<or> p = [] then None
      else case cut_at CHR ''='' p of (k, v) \<Rightarrow>
        do { key \<leftarrow> query_unescape k;
             val \<leftarrow> query_unescape (case v of None \<Rightarrow> [] | Some t \<Rightarrow> t);
             Some (key, val) })"

definition url_query :: "string \<Rightarrow> (string \<times> string) list" where
  "url_query q =
     (let ps = split_on CHR ''&'' q in
      if 10000 < length ps then [] else List.map_filter query_pair ps)"

text \<open>\<open>Values.Get\<close>: the first value of the key.\<close>

definition query_get :: "http_request \<Rightarrow> string \<Rightarrow> string" where
  "query_get r key = (case map_of (url_query (rq_query r)) key of Some v \<Rightarrow> v | None \<Rightarrow> [])"

subsection \<open>What routing gives\<close>

text \<open>A routed request matched a pattern of its own method, or of GET for HEAD.\<close>

lemma match_segments_Nil [simp]: "match_segments [] ss = (if ss = [] then Some [] else None)"
  by (cases ss) simp_all

lemma match_method_Some:
  "match_method table meth segs = Some (e, ms) \<Longrightarrow>
     \<exists>ps. (meth, ps, e) \<in> set table \<and> match_segments ps segs = Some ms"
  unfolding match_method_def
  by (induction table) (auto simp: map_filter_simps split: if_splits option.splits)

lemma route_Routed:
  assumes "route table meth path = Routed e ms"
  obtains ps where "(meth, ps, e) \<in> set table \<or> meth = ''HEAD'' \<and> (''GET'', ps, e) \<in> set table"
    and "match_segments ps (path_segments path) = Some ms"
proof -
  consider "match_method table meth (path_segments path) = Some (e, ms)"
    | "meth = ''HEAD''" "match_method table ''GET'' (path_segments path) = Some (e, ms)"
    using assms by (auto simp: route_def Let_def split: if_splits option.splits)
  then show ?thesis
  proof cases
    case 1
    then show ?thesis using that match_method_Some [OF 1] by blast
  next
    case 2
    then show ?thesis using that match_method_Some [OF 2(2)] by blast
  qed
qed

end
