(* ===== verification/Api_Server.thy ===== *)
theory Api_Server
  imports Object_Store Auth_Principal Go_Mux
begin

text \<open>
  \<open>internal/api/server.go\<close>: the handlers behind \<open>/v1/evidence\<close>, over the two interfaces the server is
  given, a store of packages and an object store. The store's operations change a world of type
  \<open>'w\<close>; a handler gives its reply and the world it leaves.

  A reply is the status and the payload handed to \<open>writeJSON\<close> (a \<open>map[string]any\<close> whose values are the
  constructors of \<open>payload\<close>) or the message handed to \<open>writeError\<close>; \<open>write_reply\<close> renders it.
\<close>

subsection \<open>The interfaces and the server\<close>

record 'w api_store =
  as_create :: "create_request \<Rightarrow> 'w \<Rightarrow> (package \<times> bool) result \<times> 'w"
  as_get :: "string \<Rightarrow> 'w \<Rightarrow> package result \<times> 'w"
  as_record_validation :: "string \<Rightarrow> validation_request \<Rightarrow> 'w \<Rightarrow> unit result \<times> 'w"
  as_list :: "string \<Rightarrow> int \<Rightarrow> int \<Rightarrow> 'w \<Rightarrow> package list result \<times> 'w"

record list_limits =
  ll_default :: int
  ll_max :: int

record 'w server =
  sv_store :: "'w api_store"
  sv_objects :: object_store
  sv_bucket :: string
  sv_limits :: list_limits

definition new_server ::
  "'w api_store option \<Rightarrow> object_store option \<Rightarrow> string \<Rightarrow> list_limits \<Rightarrow> 'w server result" where
  "new_server store objects bucket limits =
     (case store of
        None \<Rightarrow> Inl (Error ''api store is required'')
      | Some st \<Rightarrow>
      case objects of
        None \<Rightarrow> Inl (Error ''api object store is required'')
      | Some os \<Rightarrow>
      if trim_space bucket = [] then Inl (Error ''api evidence bucket is required'')
      else if ll_default limits < 1 \<or> ll_max limits < ll_default limits
      then Inl (Error ''api list limits are invalid'')
      else Inr \<lparr>sv_store = st, sv_objects = os, sv_bucket = bucket, sv_limits = limits\<rparr>)"

subsection \<open>Replies\<close>

datatype payload =
    PPackage package
  | PPackages "package list"
  | PUpload upload_descriptor
  | PDownload download_descriptor
  | PText string
  | PInt int
  | PBool bool

datatype reply =
    ErrorReply nat string
  | JsonReply nat "(string \<times> payload) list"

text \<open>\<open>json.Marshal\<close> of a time fails when its year does not have four digits, and with it the whole payload.\<close>

definition time_json :: "time \<Rightarrow> json option" where
  "time_json t = map_option jstr (marshal_time t)"

definition package_json :: "package \<Rightarrow> json option" where
  "package_json p =
     do { received \<leftarrow> time_json (p_received_at p);
          created \<leftarrow> time_json (p_created_at p);
          Some (JObj [(''evidence_package_id'', jstr (p_evidence_package_id p)),
            (''idempotency_key'', jstr (p_idempotency_key p)), (''tenant_id'', jstr (p_tenant_id p)),
            (''external_reference'', jstr (p_external_reference p)),
            (''evidence_type'', jstr (p_evidence_type p)), (''content_sha256'', jstr (p_content_sha256 p)),
            (''content_location'', jstr (p_content_location p)), (''received_at'', received),
            (''classification'', jstr (p_classification p)), (''correlation_id'', jstr (p_correlation_id p)),
            (''created_at'', created), (''validation_status'', jstr (p_validation_status p))]) }"

definition upload_json :: "upload_descriptor \<Rightarrow> json option" where
  "upload_json u = map_option (\<lambda>t. JObj [(''method'', jstr (ud_method u)), (''url'', jstr (ud_url u)),
     (''headers'', JObj (map (\<lambda>(k, v). (quote k, jstr v)) (go_map (ud_headers u)))), (''expires_at'', t)])
     (time_json (ud_expires_at u))"

definition download_json :: "download_descriptor \<Rightarrow> json option" where
  "download_json d = map_option (\<lambda>t. JObj [(''method'', jstr (dd_method d)), (''url'', jstr (dd_url d)),
     (''expires_at'', t)]) (time_json (dd_expires_at d))"

definition int_json :: "int \<Rightarrow> json" where
  "int_json n = JNum (if n < 0 then CHR ''-'' # decimal (nat (- n)) else decimal (nat n))"

definition all_some :: "'a option list \<Rightarrow> 'a list option" where
  "all_some xs = (if list_all (\<lambda>x. x \<noteq> None) xs then Some (map the xs) else None)"

definition payload_value_json :: "payload \<Rightarrow> json option" where
  "payload_value_json v =
     (case v of
        PPackage p \<Rightarrow> package_json p
      | PPackages ps \<Rightarrow> map_option JArr (all_some (map package_json ps))
      | PUpload u \<Rightarrow> upload_json u
      | PDownload d \<Rightarrow> download_json d
      | PText t \<Rightarrow> Some (jstr t)
      | PInt n \<Rightarrow> Some (int_json n)
      | PBool b \<Rightarrow> Some (JBool b))"

text \<open>
  \<open>writeError\<close> and \<open>writeJSON\<close>: the encoder ends its output with a newline. When the payload cannot be
  marshalled the status has been written already and the body stays empty.
\<close>

definition write_reply :: "reply \<Rightarrow> http_response" where
  "write_reply r =
     (case r of
        ErrorReply status message \<Rightarrow>
          json_response status (render (JObj [(''error'', jstr message)]) @ [CHR 0x0A])
      | JsonReply status kvs \<Rightarrow>
          json_response status
            (case all_some (map (\<lambda>(k, v). map_option (\<lambda>j. (quote k, j)) (payload_value_json v)) (go_map kvs)) of
               None \<Rightarrow> []
             | Some ms \<Rightarrow> render (JObj ms) @ [CHR 0x0A]))"

subsection \<open>Helpers\<close>

definition server_object_location :: "'w server \<Rightarrow> string \<Rightarrow> string" where
  "server_object_location sv idempotency_key = ''s3://'' @ sv_bucket sv @ ''/evidence/'' @ idempotency_key"

definition object_key :: "'w server \<Rightarrow> string \<Rightarrow> string result" where
  "object_key sv location =
     (let pre = ''s3://'' @ sv_bucket sv @ ''/'' in
      if \<not> has_prefix location pre
      then Inl (Error ''content location is not in the approved evidence bucket'')
      else Inr (trim_prefix location pre))"

definition parse_limit :: "'w server \<Rightarrow> http_request \<Rightarrow> int" where
  "parse_limit sv request =
     (let raw = trim_space (query_get request ''limit'') in
      if raw = [] then ll_default (sv_limits sv)
      else case atoi raw of
             None \<Rightarrow> ll_default (sv_limits sv)
           | Some value \<Rightarrow>
               if value \<le> 0 then ll_default (sv_limits sv)
               else if ll_max (sv_limits sv) < value then ll_max (sv_limits sv)
               else value)"

definition parse_offset :: "http_request \<Rightarrow> int" where
  "parse_offset request =
     (let raw = trim_space (query_get request ''offset'') in
      if raw = [] then 0
      else case atoi raw of
             None \<Rightarrow> 0
           | Some value \<Rightarrow> if value < 0 then 0 else value)"

text \<open>
  The first value in the first mebibyte of the body. The decoder stops at the bracket that closes it; a
  value without brackets needs the byte after it, which a failing body does not deliver.
\<close>

definition first_value :: "body \<Rightarrow> json option" where
  "first_value b =
     (let s = take mebibyte (b_bytes b) in
      case parse_value (json_fuel s) max_depth s of
        None \<Rightarrow> None
      | Some (v, rest) \<Rightarrow>
          if rest = [] \<and> length (b_bytes b) < mebibyte \<and> b_fault b \<noteq> None
             \<and> (case v of JObj _ \<Rightarrow> False | JArr _ \<Rightarrow> False | _ \<Rightarrow> True)
          then None else Some v)"

text \<open>\<open>decodeJSON\<close> into a struct of string fields; an unknown field is an error.\<close>

definition decode_json :: "string list \<Rightarrow> http_request \<Rightarrow> (string \<Rightarrow> string) result" where
  "decode_json names request =
     (case Option.bind (first_value (rq_body request)) (decode_strings True names) of
        None \<Rightarrow> Inl (Error ''request body is not valid JSON'')
      | Some f \<Rightarrow> Inr f)"

definition parse_time :: "string \<Rightarrow> time result" where
  "parse_time value =
     (case parse_rfc3339 (trim_space value) of
        None \<Rightarrow> Inl (Error ''invalid timestamp'')
      | Some t \<Rightarrow> Inr t)"

definition principal_or_fail :: "auth_context \<Rightarrow> reply + principal_id" where
  "principal_or_fail ctx =
     (case principal_from ctx of
        None \<Rightarrow> Inl (ErrorReply 403 ''principal unavailable'')
      | Some p \<Rightarrow> Inr p)"

text \<open>\<open>loadPackage\<close>: the tenant boundary first, reported as not found, then the clearance floor.\<close>

definition load_package :: "'w server \<Rightarrow> string \<Rightarrow> principal_id \<Rightarrow> 'w \<Rightarrow> (reply + package) \<times> 'w" where
  "load_package sv package_id p w =
     (case as_get (sv_store sv) package_id w of
        (Inl err, w) \<Rightarrow>
          (Inl (if errors_is err ErrNotFound then ErrorReply 404 ''evidence package not found''
                else ErrorReply 500 ''evidence package query failed''), w)
      | (Inr record, w) \<Rightarrow>
          (if p_tenant_id record \<noteq> a_tenant_id p
           then Inl (ErrorReply 404 ''evidence package not found'')
           else if \<not> clearance_covers (a_clearance p) (p_classification record)
           then Inl (ErrorReply 403 ''clearance does not cover the package classification'')
           else Inr record, w))"

subsection \<open>The handlers\<close>

definition create_body_fields :: "string list" where
  "create_body_fields = [''idempotency_key'', ''external_reference'', ''evidence_type'', ''content_sha256'',
     ''received_at'', ''classification'', ''correlation_id'']"

definition create_package ::
  "(string \<Rightarrow> string option) \<Rightarrow> 'w server \<Rightarrow> http_request \<Rightarrow> auth_context \<Rightarrow> 'w \<Rightarrow> reply \<times> 'w" where
  "create_package ipl sv request ctx w =
     (case principal_or_fail ctx of Inl r \<Rightarrow> (r, w) | Inr p \<Rightarrow>
      if trim_space (a_tenant_id p) = [] then (ErrorReply 403 ''principal has no tenant binding'', w)
      else case decode_json create_body_fields request of
        Inl err \<Rightarrow> (ErrorReply 400 (error_text err), w)
      | Inr b \<Rightarrow>
      case parse_time (b ''received_at'') of
        Inl err \<Rightarrow> (ErrorReply 400 ''received_at must be RFC 3339'', w)
      | Inr received_at \<Rightarrow>
      (let req = \<lparr>cr_idempotency_key = b ''idempotency_key'', cr_tenant_id = a_tenant_id p,
                  cr_external_reference = b ''external_reference'', cr_evidence_type = b ''evidence_type'',
                  cr_content_sha256 = b ''content_sha256'',
                  cr_content_location = server_object_location sv (b ''idempotency_key''),
                  cr_received_at = received_at, cr_classification = b ''classification'',
                  cr_correlation_id = b ''correlation_id''\<rparr> in
      case create_validate ipl req of
        Some err \<Rightarrow> (ErrorReply 400 (error_text err), w)
      | None \<Rightarrow>
      case as_create (sv_store sv) req w of
        (Inl err, w) \<Rightarrow>
          (if errors_is err ErrIdempotencyConflict then ErrorReply 409 (error_text err)
           else ErrorReply 500 ''evidence package creation failed'', w)
      | (Inr (record, created), w) \<Rightarrow>
      case object_key sv (p_content_location record) of
        Inl err \<Rightarrow> (ErrorReply 500 ''evidence object location is invalid'', w)
      | Inr key \<Rightarrow>
      case os_presigned_upload (sv_objects sv) key (p_content_sha256 record) of
        Inl err \<Rightarrow> (ErrorReply 503 ''evidence upload authorization is unavailable'', w)
      | Inr upload \<Rightarrow>
          (JsonReply (if created then 201 else 200) [(''package'', PPackage record), (''upload'', PUpload upload)], w)))"

definition get_package :: "'w server \<Rightarrow> string \<Rightarrow> auth_context \<Rightarrow> 'w \<Rightarrow> reply \<times> 'w" where
  "get_package sv package_id ctx w =
     (case principal_or_fail ctx of Inl r \<Rightarrow> (r, w) | Inr p \<Rightarrow>
      case load_package sv package_id p w of (Inl r, w) \<Rightarrow> (r, w) | (Inr record, w) \<Rightarrow>
      case object_key sv (p_content_location record) of
        Inl err \<Rightarrow> (ErrorReply 500 ''evidence object location is invalid'', w)
      | Inr key \<Rightarrow>
      case os_presigned_download (sv_objects sv) key of
        Inl err \<Rightarrow> (ErrorReply 503 ''evidence download authorization is unavailable'', w)
      | Inr download \<Rightarrow>
          (JsonReply 200 [(''package'', PPackage record), (''download'', PDownload download)], w))"

definition validation_body_fields :: "string list" where
  "validation_body_fields = [''validation_status'', ''reason_code'', ''occurred_at'', ''correlation_id'']"

definition post_validation ::
  "'w server \<Rightarrow> string \<Rightarrow> http_request \<Rightarrow> auth_context \<Rightarrow> 'w \<Rightarrow> reply \<times> 'w" where
  "post_validation sv package_id request ctx w =
     (case principal_or_fail ctx of Inl r \<Rightarrow> (r, w) | Inr p \<Rightarrow>
      case load_package sv package_id p w of (Inl r, w) \<Rightarrow> (r, w) | (Inr _, w) \<Rightarrow>
      case decode_json validation_body_fields request of
        Inl err \<Rightarrow> (ErrorReply 400 (error_text err), w)
      | Inr b \<Rightarrow>
      case parse_time (b ''occurred_at'') of
        Inl err \<Rightarrow> (ErrorReply 400 ''occurred_at must be RFC 3339'', w)
      | Inr occurred_at \<Rightarrow>
      (let validation = \<lparr>v_validation_status = b ''validation_status'', v_reason_code = b ''reason_code'',
                         v_actor_subject_reference = a_subject p, v_occurred_at = occurred_at,
                         v_correlation_id = b ''correlation_id''\<rparr> in
      case validation_validate validation of
        Some err \<Rightarrow> (ErrorReply 400 (error_text err), w)
      | None \<Rightarrow>
      case as_record_validation (sv_store sv) package_id validation w of
        (Inl err, w) \<Rightarrow>
          (if errors_is err ErrNotFound then ErrorReply 404 ''evidence package not found''
           else if errors_is err ErrTerminalValidation then ErrorReply 409 (error_text err)
           else ErrorReply 500 ''evidence validation failed'', w)
      | (Inr _, w) \<Rightarrow>
      case as_get (sv_store sv) package_id w of
        (Inl err, w) \<Rightarrow> (ErrorReply 500 ''evidence package reload failed'', w)
      | (Inr record, w) \<Rightarrow>
          (JsonReply 201 [(''package'', PPackage record),
             (''validation_status'', PText (v_validation_status validation))], w)))"

definition confirm_upload :: "'w server \<Rightarrow> string \<Rightarrow> auth_context \<Rightarrow> 'w \<Rightarrow> reply \<times> 'w" where
  "confirm_upload sv package_id ctx w =
     (case principal_or_fail ctx of Inl r \<Rightarrow> (r, w) | Inr p \<Rightarrow>
      case load_package sv package_id p w of (Inl r, w) \<Rightarrow> (r, w) | (Inr record, w) \<Rightarrow>
      case object_key sv (p_content_location record) of
        Inl err \<Rightarrow> (ErrorReply 500 ''evidence object location is invalid'', w)
      | Inr key \<Rightarrow>
      case os_verify_digest (sv_objects sv) key (p_content_sha256 record) of
        Some err \<Rightarrow> (ErrorReply 409 (''evidence object digest is not yet verified: '' @ error_text err), w)
      | None \<Rightarrow>
          (JsonReply 200 [(''evidence_package_id'', PText (p_evidence_package_id record)),
             (''content_sha256'', PText (p_content_sha256 record)), (''digest_verified'', PBool True)], w))"

definition list_handler :: "'w server \<Rightarrow> http_request \<Rightarrow> auth_context \<Rightarrow> 'w \<Rightarrow> reply \<times> 'w" where
  "list_handler sv request ctx w =
     (case principal_or_fail ctx of Inl r \<Rightarrow> (r, w) | Inr p \<Rightarrow>
      (let limit = parse_limit sv request; offset = parse_offset request in
      case as_list (sv_store sv) (a_tenant_id p) limit offset w of
        (Inl err, w) \<Rightarrow> (ErrorReply 500 ''evidence package listing failed'', w)
      | (Inr records, w) \<Rightarrow>
          (JsonReply 200
             [(''packages'', PPackages (filter (\<lambda>r. clearance_covers (a_clearance p) (p_classification r)) records)),
              (''limit'', PInt limit), (''offset'', PInt offset)], w)))"

subsection \<open>Routes\<close>

datatype endpoint = CreatePackage | ListPackagesRoute | GetPackageRoute | RecordValidationRoute | ConfirmUpload

datatype route_target = Endpoint endpoint | Healthz

definition routes :: "route_target route_table" where
  "routes =
     (let base = [Lit ''v1'', Lit ''evidence'', Lit ''packages''] in
      [(''POST'', base, Endpoint CreatePackage),
       (''GET'', base, Endpoint ListPackagesRoute),
       (''GET'', base @ [Wild], Endpoint GetPackageRoute),
       (''POST'', base @ [Wild, Lit ''validations''], Endpoint RecordValidationRoute),
       (''POST'', base @ [Wild, Lit ''upload-confirmation''], Endpoint ConfirmUpload),
       (''GET'', [Lit ''healthz''], Healthz)])"

definition route_roles :: "endpoint \<Rightarrow> string list" where
  "route_roles e =
     (case e of
        CreatePackage \<Rightarrow> [''evidence-writer'', ''evidence-admin'']
      | ListPackagesRoute \<Rightarrow> [''evidence-reader'', ''evidence-validator'', ''evidence-admin'']
      | GetPackageRoute \<Rightarrow> [''evidence-reader'', ''evidence-validator'', ''evidence-admin'']
      | RecordValidationRoute \<Rightarrow> [''evidence-validator'', ''evidence-admin'']
      | ConfirmUpload \<Rightarrow> [''evidence-writer'', ''evidence-admin''])"

text \<open>The reply of an endpoint; \<open>package_id\<close> is the path value \<open>id\<close>, empty where the pattern has none.\<close>

definition endpoint_reply ::
  "(string \<Rightarrow> string option) \<Rightarrow> 'w server \<Rightarrow> endpoint \<Rightarrow> string \<Rightarrow> http_request \<Rightarrow> auth_context \<Rightarrow> 'w \<Rightarrow> reply \<times> 'w" where
  "endpoint_reply ipl sv e package_id request ctx w =
     (case e of
        CreatePackage \<Rightarrow> create_package ipl sv request ctx w
      | ListPackagesRoute \<Rightarrow> list_handler sv request ctx w
      | GetPackageRoute \<Rightarrow> get_package sv package_id ctx w
      | RecordValidationRoute \<Rightarrow> post_validation sv package_id request ctx w
      | ConfirmUpload \<Rightarrow> confirm_upload sv package_id ctx w)"

definition endpoint_handler ::
  "(string \<Rightarrow> string option) \<Rightarrow> 'w server \<Rightarrow> endpoint \<Rightarrow> string \<Rightarrow> 'w handler" where
  "endpoint_handler ipl sv e package_id request ctx w =
     (case endpoint_reply ipl sv e package_id request ctx w of (r, w') \<Rightarrow> (write_reply r, w'))"

text \<open>The health check has no role check of its own and writes its body without the encoder's newline.\<close>

definition healthz :: "'w handler" where
  "healthz request ctx w = (json_response 200 (render (JObj [(''status'', JStr ''ok'')])), w)"

definition mux :: "(string \<Rightarrow> string option) \<Rightarrow> 'w server \<Rightarrow> 'w handler" where
  "mux ipl sv request ctx w =
     (case route routes (rq_method request) (rq_path request) of
        Routed (Endpoint e) ms \<Rightarrow>
          require_roles (endpoint_handler ipl sv e (case ms of [] \<Rightarrow> [] | i # _ \<Rightarrow> i)) (route_roles e) request ctx w
      | Routed Healthz _ \<Rightarrow> healthz request ctx w
      | Redirected _ \<Rightarrow> (library_page 301, w)
      | MethodNotAllowed \<Rightarrow> (library_page 405, w)
      | NoRoute \<Rightarrow> (library_page 404, w)
      | BadTarget \<Rightarrow> (library_page 400, w))"

definition server_handler ::
  "(string \<Rightarrow> string option) \<Rightarrow> 'w server \<Rightarrow> 'a authenticate \<Rightarrow> http_request \<Rightarrow> 'a \<times> 'w \<Rightarrow> http_response \<times> 'a \<times> 'w" where
  "server_handler ipl sv authenticate request aw = middleware authenticate (mux ipl sv) request None aw"

lemmas [handler_simps] = principal_or_fail_def load_package_def create_package_def get_package_def
  post_validation_def confirm_upload_def list_handler_def

end
