(* ===== verification/Auth_Proxy.thy ===== *)
theory Auth_Proxy
  imports Auth_Principal
begin

text \<open>
  \<open>TrustedProxyAuthenticator\<close>: identity headers are believed only from the approved proxies. Its
  answer depends on the request alone, so its state is the unit.
\<close>

record trusted_proxy =
  tp_cidrs :: "ip_net list"
  tp_identity :: string

definition remote_host :: "string \<Rightarrow> string" where
  "remote_host remote_addr =
     (case split_host_port (trim_space remote_addr) of
        Some (host, _) \<Rightarrow> host
      | None \<Rightarrow> trim_space remote_addr)"

definition proxy_authenticate :: "trusted_proxy \<Rightarrow> http_request \<Rightarrow> principal_id result" where
  "proxy_authenticate tp request =
     (case parse_ip (remote_host (rq_remote_addr request)) of
        None \<Rightarrow> Inl (Error ''trusted proxy source address is invalid'')
      | Some remote_ip \<Rightarrow>
      if \<not> list_ex (\<lambda>network. net_contains network remote_ip) (tp_cidrs tp)
      then Inl (Error ''request source is not an approved trusted proxy'')
      else if trim_space (header_get request ''X-Blueeconomy-Authenticated-By'') \<noteq> tp_identity tp
      then Inl (Error ''trusted proxy identity is missing or invalid'')
      else case validated_subject (header_get request ''X-Blueeconomy-Authenticated-Subject'') of
        Inl err \<Rightarrow> Inl err
      | Inr subject \<Rightarrow>
      case validated_roles (header_get request ''X-Blueeconomy-Authenticated-Roles'') of
        Inl err \<Rightarrow> Inl err
      | Inr roles \<Rightarrow>
      case validated_clearance (header_get request ''X-Blueeconomy-Authenticated-Clearance'') of
        Inl err \<Rightarrow> Inl err
      | Inr clearance \<Rightarrow>
          Inr \<lparr>a_subject = subject, a_roles = roles, a_clearance = clearance,
               a_tenant_id = trim_space (header_get request ''X-Blueeconomy-Tenant-Id'')\<rparr>)"

definition proxy_step :: "trusted_proxy \<Rightarrow> unit authenticate" where
  "proxy_step tp u request = (proxy_authenticate tp request, u)"

subsection \<open>Whom the proxy authenticator believes\<close>

lemma proxy_authenticate_Inr:
  assumes "proxy_authenticate tp request = Inr p"
  obtains a where "parse_ip (remote_host (rq_remote_addr request)) = Some a"
    and "\<exists>network \<in> set (tp_cidrs tp). net_contains network a"
    and "trim_space (header_get request ''X-Blueeconomy-Authenticated-By'') = tp_identity tp"
    and "validated_subject (header_get request ''X-Blueeconomy-Authenticated-Subject'') = Inr (a_subject p)"
    and "validated_roles (header_get request ''X-Blueeconomy-Authenticated-Roles'') = Inr (a_roles p)"
    and "validated_clearance (header_get request ''X-Blueeconomy-Authenticated-Clearance'') = Inr (a_clearance p)"
    and "a_tenant_id p = trim_space (header_get request ''X-Blueeconomy-Tenant-Id'')"
  using assms
  by (auto simp: proxy_authenticate_def list_ex_iff split: option.splits sum.splits if_splits)

interpretation proxy: authenticator "proxy_step tp" for tp
proof unfold_locales
  fix a a' :: unit and request p
  assume "proxy_step tp a request = (Inr p, a')"
  then have "proxy_authenticate tp request = Inr p" by (simp add: proxy_step_def)
  then show "principal_wf p"
    by (rule proxy_authenticate_Inr)
      (auto simp: principal_wf_def validated_subject_Inr validated_clearance_Inr dest: validated_roles_Inr)
qed

text \<open>
  (C28) A request from outside the approved networks is refused whatever headers it carries: with an
  address that does not parse, or that lies in none of the networks, no handler runs and the answer is
  401 without a change of state.
\<close>

theorem proxy_refuses_foreign_source:
  assumes "case parse_ip (remote_host (rq_remote_addr request)) of
      None \<Rightarrow> True | Some a \<Rightarrow> \<forall>network \<in> set (tp_cidrs tp). \<not> net_contains network a"
  shows "middleware (proxy_step tp) h request ctx ((), s) = (write_unauthorized, (), s)"
proof (rule proxy.middleware_refused)
  have "\<exists>err. proxy_authenticate tp request = Inl err"
    using assms by (auto simp: proxy_authenticate_def list_ex_iff split: option.splits)
  then show "proxy_step tp () request = (Inl (projl (proxy_authenticate tp request)), ())"
    by (auto simp: proxy_step_def)
qed

text \<open>
  A principal the proxy authenticator accepts is the one the headers name: the header fields are not
  mixed up, and the request came from an approved network.
\<close>

lemma proxy_principal:
  assumes "proxy_authenticate tp request = Inr p"
  shows "a_subject p = trim_space (header_get request ''X-Blueeconomy-Authenticated-Subject'') \<and>
    a_roles p = trim_space ` set (split_on CHR '','' (header_get request ''X-Blueeconomy-Authenticated-Roles'')) - {[]} \<and>
    a_tenant_id p = trim_space (header_get request ''X-Blueeconomy-Tenant-Id'')"
  by (rule proxy_authenticate_Inr [OF assms])
    (auto simp: validated_subject_Inr dest: validated_roles_Inr)

subsection \<open>Concrete runs\<close>

definition sample_proxy :: trusted_proxy where
  "sample_proxy = \<lparr>tp_cidrs = [\<lparr>n_ip = [10, 0, 0, 0], n_mask = [255, 0, 0, 0]\<rparr>], tp_identity = ''edge''\<rparr>"

definition proxied :: "string \<Rightarrow> http_request" where
  "proxied remote = \<lparr>rq_method = ''GET'', rq_path = ''/healthz'', rq_query = [],
     rq_headers = [(''X-Blueeconomy-Authenticated-By'', [''edge'']),
       (''X-Blueeconomy-Authenticated-Subject'', ['' alice '']),
       (''X-Blueeconomy-Authenticated-Roles'', [''evidence-reader, ,evidence-admin'']),
       (''X-Blueeconomy-Tenant-Id'', [''tenant''])],
     rq_remote_addr = remote, rq_body = \<lparr>b_bytes = [], b_fault = None\<rparr>\<rparr>"

lemma run_proxy:
  "proxy_authenticate sample_proxy (proxied ''10.1.2.3:5000'') = Inr \<lparr>a_subject = ''alice'',
     a_roles = {''evidence-reader'', ''evidence-admin''}, a_clearance = ''public'', a_tenant_id = ''tenant''\<rparr>"
  by code_simp

lemma proxy_refuses_foreign_source_witness:
  "middleware (proxy_step sample_proxy) (\<lambda>_ _ n. (write_forbidden, Suc n)) (proxied ''192.0.2.7:5000'') None ((), 0)
     = (write_unauthorized, (), 0)"
proof (rule proxy_refuses_foreign_source)
  show "case parse_ip (remote_host (rq_remote_addr (proxied ''192.0.2.7:5000''))) of
      None \<Rightarrow> True | Some a \<Rightarrow> \<forall>network \<in> set (tp_cidrs sample_proxy). \<not> net_contains network a"
    by code_simp
qed

end
