(* ===== verification/Api_Behaviour.thy ===== *)
theory Api_Behaviour
  imports Api_Server Auth_Oidc Auth_Proxy
begin

text \<open>
  What the API promises, proved against the contract of a package store (the locale \<open>package_store\<close>):
  tenants see their own packages only, reads respect the clearance floor, a package of another tenant
  cannot be told from one that does not exist, paging stays within the configured limits, and nothing
  happens without an authenticated principal that has a role of the route.
\<close>

subsection \<open>What a reply discloses\<close>

definition payload_packages :: "payload \<Rightarrow> package list" where
  "payload_packages v = (case v of PPackage p \<Rightarrow> [p] | PPackages ps \<Rightarrow> ps | _ \<Rightarrow> [])"

definition disclosed :: "reply \<Rightarrow> package list" where
  "disclosed r = (case r of ErrorReply _ _ \<Rightarrow> [] | JsonReply _ kvs \<Rightarrow> concat (map (payload_packages \<circ> snd) kvs))"

lemma disclosed_simps [simp]:
  "disclosed (ErrorReply s m) = []"
  "disclosed (JsonReply s []) = []"
  "disclosed (JsonReply s ((k, v) # kvs)) = payload_packages v @ disclosed (JsonReply s kvs)"
  by (simp_all add: disclosed_def)

lemma payload_packages_simps [simp]:
  "payload_packages (PPackage p) = [p]" "payload_packages (PPackages ps) = ps"
  "payload_packages (PUpload u) = []" "payload_packages (PDownload d) = []"
  "payload_packages (PText t) = []" "payload_packages (PInt n) = []" "payload_packages (PBool b) = []"
  by (simp_all add: payload_packages_def)

definition granted :: "reply \<Rightarrow> bool" where
  "granted r \<longleftrightarrow> (case r of ErrorReply _ _ \<Rightarrow> False | JsonReply _ _ \<Rightarrow> True)"

lemma granted_simps [simp]: "\<not> granted (ErrorReply s m)" "granted (JsonReply s kvs)"
  by (simp_all add: granted_def)

subsection \<open>The contract of a package store\<close>

text \<open>
  \<open>inv\<close> is what the store's world satisfies, \<open>evolves\<close> how it changes, by its own operations and by
  whatever else runs in between: the tenant and the classification of a package never do.
\<close>

locale package_store =
  fixes store :: "'w api_store"
    and inv :: "'w \<Rightarrow> bool"
    and evolves :: "'w \<Rightarrow> 'w \<Rightarrow> bool"
  assumes evolves_refl: "evolves w w"
    and evolves_trans: "evolves u v \<Longrightarrow> evolves v w \<Longrightarrow> evolves u w"
    and create_evolves: "inv w \<Longrightarrow> as_create store r w = (cres, w') \<Longrightarrow> inv w' \<and> evolves w w'"
    and get_evolves: "inv w \<Longrightarrow> as_get store i w = (gres, w') \<Longrightarrow> inv w' \<and> evolves w w'"
    and record_evolves: "inv w \<Longrightarrow> as_record_validation store i vr w = (vres, w') \<Longrightarrow> inv w' \<and> evolves w w'"
    and list_evolves: "inv w \<Longrightarrow> as_list store t limit offset w = (lres, w') \<Longrightarrow> inv w' \<and> evolves w w'"
    and created_matches: "inv w \<Longrightarrow> as_create store r w = (Inr (p, fresh), w') \<Longrightarrow>
        p_tenant_id p = cr_tenant_id r \<and> p_content_location p = cr_content_location r \<and>
        p_classification p = cr_classification r"
    and get_stable: "inv w \<Longrightarrow> as_get store i w = (Inr p, u) \<Longrightarrow> evolves u v \<Longrightarrow> inv v \<Longrightarrow>
        as_get store i v = (Inr q, w') \<Longrightarrow>
        p_tenant_id q = p_tenant_id p \<and> p_classification q = p_classification p"
    and list_tenant: "inv w \<Longrightarrow> as_list store t limit offset w = (Inr ps, w') \<Longrightarrow>
        (\<forall>p \<in> set ps. p_tenant_id p = t) \<and> int (length ps) \<le> limit \<and> trim_space t \<noteq> []"
begin

lemma load_package_Inr:
  assumes "sv_store sv = store" and "load_package sv i p w = (Inr q, w')"
  shows "as_get store i w = (Inr q, w') \<and> p_tenant_id q = a_tenant_id p \<and>
    clearance_covers (a_clearance p) (p_classification q)"
  using assms by (auto simp: load_package_def split: prod.splits sum.splits if_splits)

lemma load_package_denied: "load_package sv i p w = (Inl r, w') \<Longrightarrow> \<exists>status m. r = ErrorReply status m"
  by (auto simp: load_package_def split: prod.splits sum.splits if_splits)

lemma load_package_evolves:
  "sv_store sv = store \<Longrightarrow> inv w \<Longrightarrow> load_package sv i p w = (res, w') \<Longrightarrow> inv w' \<and> evolves w w'"
  by (auto simp: load_package_def dest: get_evolves split: prod.splits sum.splits)

text \<open>Every endpoint keeps the store's invariant.\<close>

lemma get_package_evolves:
  assumes "sv_store sv = store" and "inv w" and "get_package sv i ctx w = (r, w')"
  shows "inv w' \<and> evolves w w'"
proof (cases "principal_or_fail ctx")
  case (Inl e)
  then show ?thesis using assms(2,3) evolves_refl by (simp add: get_package_def)
next
  case (Inr p)
  obtain res u where l: "load_package sv i p w = (res, u)" by force
  then have "w' = u" using assms(3) Inr by (auto simp: get_package_def split: sum.splits option.splits)
  then show ?thesis using load_package_evolves [OF assms(1,2) l] by simp
qed

lemma confirm_upload_evolves:
  assumes "sv_store sv = store" and "inv w" and "confirm_upload sv i ctx w = (r, w')"
  shows "inv w' \<and> evolves w w'"
proof (cases "principal_or_fail ctx")
  case (Inl e)
  then show ?thesis using assms(2,3) evolves_refl by (simp add: confirm_upload_def)
next
  case (Inr p)
  obtain res u where l: "load_package sv i p w = (res, u)" by force
  then have "w' = u" using assms(3) Inr by (auto simp: confirm_upload_def split: sum.splits option.splits)
  then show ?thesis using load_package_evolves [OF assms(1,2) l] by simp
qed

lemma create_package_evolves:
  "sv_store sv = store \<Longrightarrow> inv w \<Longrightarrow> create_package ipl sv request ctx w = (r, w') \<Longrightarrow> inv w' \<and> evolves w w'"
  using evolves_refl
  by (auto simp: create_package_def Let_def dest: create_evolves
      split: prod.splits sum.splits option.splits if_splits)

lemma list_handler_evolves:
  "sv_store sv = store \<Longrightarrow> inv w \<Longrightarrow> list_handler sv request ctx w = (r, w') \<Longrightarrow> inv w' \<and> evolves w w'"
  using evolves_refl
  by (auto simp: list_handler_def Let_def dest: list_evolves split: prod.splits sum.splits)

text \<open>The way through \<open>recordValidation\<close>: a loaded package, a valid decision, the record, the reload.\<close>

lemma post_validation_cases:
  assumes "sv_store sv = store" and "post_validation sv i request ctx w = (r, w')"
  obtains (early) "\<exists>status m. r = ErrorReply status m" "w' = w"
  | (loaded) p res where "load_package sv i p w = (res, w')" "\<exists>status m. r = ErrorReply status m"
  | (recorded) p q u vr vres where "principal_from ctx = Some p" "load_package sv i p w = (Inr q, u)"
      "as_record_validation store i vr u = (vres, w')" "\<exists>status m. r = ErrorReply status m"
  | (reloaded) p q u vr v gres where "principal_from ctx = Some p" "load_package sv i p w = (Inr q, u)"
      "validation_validate vr = None" "v_actor_subject_reference vr = a_subject p"
      "as_record_validation store i vr u = (Inr (), v)" "as_get store i v = (gres, w')"
      "r = (case gres of Inl _ \<Rightarrow> ErrorReply 500 ''evidence package reload failed''
         | Inr q \<Rightarrow> JsonReply 201 [(''package'', PPackage q), (''validation_status'', PText (v_validation_status vr))])"
      "\<exists>b. decode_json validation_body_fields request = Inr b \<and> v_validation_status vr = b ''validation_status''"
proof (cases "principal_from ctx")
  case None
  then have "r = ErrorReply 403 ''principal unavailable''" "w' = w"
    using assms(2) by (simp_all add: post_validation_def principal_or_fail_def)
  then show ?thesis using early by simp
next
  case (Some p)
  note pr = this
  obtain lres u where l: "load_package sv i p w = (lres, u)" by force
  show ?thesis
  proof (cases lres)
    case (Inl e)
    then show ?thesis
      using loaded [of p lres] assms(2) l pr load_package_denied [OF l [unfolded Inl]]
      by (simp add: post_validation_def principal_or_fail_def)
  next
    case (Inr q)
    show ?thesis
    proof (cases "\<exists>b t. decode_json validation_body_fields request = Inr b \<and> parse_time (b ''occurred_at'') = Inr t \<and>
        validation_validate \<lparr>v_validation_status = b ''validation_status'', v_reason_code = b ''reason_code'',
          v_actor_subject_reference = a_subject p, v_occurred_at = t, v_correlation_id = b ''correlation_id''\<rparr> = None")
      case False
      then have "u = w'" "\<exists>status m. r = ErrorReply status m"
        using assms(2) l pr Inr
        by (auto simp: post_validation_def principal_or_fail_def Let_def split: sum.splits option.splits)
      then show ?thesis using loaded l by blast
    next
      case True
      then obtain b t where bt: "decode_json validation_body_fields request = Inr b"
        "parse_time (b ''occurred_at'') = Inr t" by blast
      define vr where "vr = \<lparr>v_validation_status = b ''validation_status'', v_reason_code = b ''reason_code'',
          v_actor_subject_reference = a_subject p, v_occurred_at = t, v_correlation_id = b ''correlation_id''\<rparr>"
      have ok: "validation_validate vr = None" using True bt by (auto simp: vr_def)
      obtain vres v where rec: "as_record_validation store i vr u = (vres, v)" by force
      note eq = assms(2) [unfolded post_validation_def principal_or_fail_def pr option.case sum.case l Inr prod.case
          bt Let_def, folded vr_def, unfolded ok option.case assms(1) rec prod.case]
      show ?thesis
      proof (cases vres)
        case (Inl e)
        then have "w' = v" "\<exists>status m. r = ErrorReply status m" using eq by (auto simp: Inl)
        then show ?thesis using recorded [OF pr l [unfolded Inr]] rec by simp
      next
        case unit: (Inr x)
        obtain gres z where g: "as_get store i v = (gres, z)" by force
        have "z = w'" "r = (case gres of Inl _ \<Rightarrow> ErrorReply 500 ''evidence package reload failed''
         | Inr q \<Rightarrow> JsonReply 201 [(''package'', PPackage q), (''validation_status'', PText (v_validation_status vr))])"
          using eq unit g by (cases gres; auto)+
        then show ?thesis
          using reloaded [OF pr l [unfolded Inr] ok] rec unit g bt(1) by (simp add: vr_def)
      qed
    qed
  qed
qed

lemma post_validation_evolves:
  assumes "sv_store sv = store" and "inv w" and "post_validation sv i request ctx w = (r, w')"
  shows "inv w' \<and> evolves w w'"
  using assms(1,3)
proof (cases rule: post_validation_cases)
  case early
  then show ?thesis using assms(2) evolves_refl by simp
next
  case (loaded p res)
  then show ?thesis by (intro load_package_evolves [OF assms(1,2)])
next
  case (recorded p q u vr vres)
  have u: "inv u \<and> evolves w u" by (rule load_package_evolves [OF assms(1,2) recorded(2)])
  have "inv w' \<and> evolves u w'" by (rule record_evolves [OF conjunct1 [OF u] recorded(3)])
  then show ?thesis using u evolves_trans by blast
next
  case (reloaded p q u vr v gres)
  have u: "inv u \<and> evolves w u" by (rule load_package_evolves [OF assms(1,2) reloaded(2)])
  have v: "inv v \<and> evolves u v" by (rule record_evolves [OF conjunct1 [OF u] reloaded(5)])
  have "inv w' \<and> evolves v w'" by (rule get_evolves [OF conjunct1 [OF v] reloaded(6)])
  then show ?thesis using u v evolves_trans by blast
qed

lemma endpoint_evolves:
  assumes "sv_store sv = store" and "inv w" and "endpoint_reply ipl sv e i request ctx w = (r, w')"
  shows "inv w' \<and> evolves w w'"
proof (cases e)
  case CreatePackage
  then show ?thesis using create_package_evolves [OF assms(1,2)] assms(3) by (simp add: endpoint_reply_def)
next
  case ListPackagesRoute
  then show ?thesis using list_handler_evolves [OF assms(1,2)] assms(3) by (simp add: endpoint_reply_def)
next
  case GetPackageRoute
  then show ?thesis using get_package_evolves [OF assms(1,2)] assms(3) by (simp add: endpoint_reply_def)
next
  case RecordValidationRoute
  then show ?thesis using post_validation_evolves [OF assms(1,2)] assms(3) by (simp add: endpoint_reply_def)
next
  case ConfirmUpload
  then show ?thesis using confirm_upload_evolves [OF assms(1,2)] assms(3) by (simp add: endpoint_reply_def)
qed

text \<open>
  Tenant isolation and the clearance floor: a reply discloses packages of the caller's tenant only, and
  reads only those the caller's clearance covers; a creation discloses the package it created or kept.
\<close>

lemma disclosed_within:
  assumes "sv_store sv = store" and "inv w" and "principal_from ctx = Some p"
    and "endpoint_reply ipl sv e i request ctx w = (r, w')" and "q \<in> set (disclosed r)"
  shows "p_tenant_id q = a_tenant_id p \<and>
    (e = CreatePackage \<or> clearance_covers (a_clearance p) (p_classification q))"
proof (cases e)
  case CreatePackage
  then show ?thesis
    using assms
    by (auto simp: endpoint_reply_def create_package_def principal_or_fail_def Let_def dest!: created_matches
        split: prod.splits sum.splits option.splits if_splits)
next
  case ListPackagesRoute
  then show ?thesis
    using assms
    by (auto simp: endpoint_reply_def list_handler_def principal_or_fail_def Let_def dest!: list_tenant
        split: prod.splits sum.splits)
next
  case GetPackageRoute
  obtain res u where l: "load_package sv i p w = (res, u)" by force
  show ?thesis
  proof (cases res)
    case (Inl e)
    then show ?thesis
      using assms GetPackageRoute l load_package_denied [of sv i p w e u]
      by (auto simp: endpoint_reply_def get_package_def principal_or_fail_def)
  next
    case (Inr q')
    then have "q = q'"
      using assms(3-5) GetPackageRoute l
      by (auto simp: endpoint_reply_def get_package_def principal_or_fail_def split: sum.splits)
    then show ?thesis using load_package_Inr [OF assms(1) l [unfolded Inr]] by simp
  qed
next
  case RecordValidationRoute
  then have "post_validation sv i request ctx w = (r, w')"
    using assms(4) by (simp add: endpoint_reply_def)
  with assms(1) show ?thesis
  proof (cases rule: post_validation_cases)
    case (reloaded p' q' u vr v gres)
    have g: "as_get store i w = (Inr q', u)" "p_tenant_id q' = a_tenant_id p"
        "clearance_covers (a_clearance p) (p_classification q')"
      using load_package_Inr [OF assms(1) reloaded(2)] reloaded(1) assms(3) by auto
    have u: "inv u" using load_package_evolves [OF assms(1,2) reloaded(2)] by blast
    have v: "inv v \<and> evolves u v" using record_evolves [OF u reloaded(5)] .
    have "gres = Inr q" using reloaded(7) assms(5) by (cases gres) auto
    with get_stable [OF assms(2) g(1)] v reloaded(6) g show ?thesis by auto
  qed (use assms(5) in auto)
next
  case ConfirmUpload
  then show ?thesis
    using assms
    by (auto simp: endpoint_reply_def confirm_upload_def principal_or_fail_def dest!: load_package_denied
        split: prod.splits sum.splits option.splits)
qed

text \<open>A listing has at most \<open>limit\<close> packages, and needs a tenant.\<close>

lemma list_bounded:
  assumes "sv_store sv = store" and "inv w" and "list_handler sv request ctx w = (r, w')"
  shows "int (length (disclosed r)) \<le> max 0 (parse_limit sv request)"
proof (cases "disclosed r = []")
  case False
  have "principal_or_fail ctx \<noteq> Inl e" for e
    using False assms(3) by (auto simp: list_handler_def principal_or_fail_def split: option.splits)
  then obtain p where p: "principal_or_fail ctx = Inr p" by (cases "principal_or_fail ctx") auto
  obtain lres u where l: "as_list store (a_tenant_id p) (parse_limit sv request) (parse_offset request) w = (lres, u)"
    by force
  obtain ps where ps: "lres = Inr ps" "disclosed r = filter (\<lambda>q. clearance_covers (a_clearance p) (p_classification q)) ps"
    using False assms(1,3) p l by (cases lres) (auto simp: list_handler_def Let_def)
  show ?thesis
    using list_tenant [OF assms(2) l [unfolded ps(1)]] ps(2)
      length_filter_le [of "\<lambda>q. clearance_covers (a_clearance p) (p_classification q)" ps]
    by (metis (no_types, lifting) max.coboundedI2 of_nat_mono order_trans)
qed simp

end

subsection \<open>Access\<close>

text \<open>What the router and the role check make of a request whose principal is known.\<close>

lemma mux_served:
  assumes "mux ipl sv request (Some p) w = (resp, w')" and p: "principal_from (Some p) = Some p"
  obtains (refused) "w' = w" "rs_status resp \<in> {200, 301, 400, 403, 404, 405}"
      "rs_status resp = 200 \<Longrightarrow> route routes (rq_method request) (rq_path request) = Routed Healthz []"
  | (endpoint) e ids r where "route routes (rq_method request) (rq_path request) = Routed (Endpoint e) ids"
      "a_roles p \<inter> set (route_roles e) \<noteq> {}"
      "endpoint_reply ipl sv e (case ids of [] \<Rightarrow> [] | i # _ \<Rightarrow> i) request (Some p) w = (r, w')"
      "resp = write_reply r"
proof (cases "route routes (rq_method request) (rq_path request)")
  case (Routed t ids)
  show ?thesis
  proof (cases t)
    case (Endpoint e)
    have roles: "list_ex (has_role p) (route_roles e) \<longleftrightarrow> a_roles p \<inter> set (route_roles e) \<noteq> {}"
      by (auto simp: list_ex_iff has_role_def)
    show ?thesis
    proof (cases "list_ex (has_role p) (route_roles e)")
      case True
      obtain r w3 where "endpoint_reply ipl sv e (case ids of [] \<Rightarrow> [] | i # _ \<Rightarrow> i) request (Some p) w = (r, w3)"
        by force
      then show ?thesis using assms Routed Endpoint True roles
        by (intro endpoint [of e ids r]) (simp_all add: mux_def require_roles_def endpoint_handler_def)
    next
      case False
      then have "resp = write_forbidden" "w' = w"
        using assms Routed Endpoint by (simp_all add: mux_def require_roles_def)
      then show ?thesis by (intro refused) (simp_all add: write_forbidden_def json_response_def)
    qed
  next
    case Healthz
    have "ids = []"
      by (rule route_Routed [OF Routed [unfolded Healthz]])
        (auto simp: routes_def Let_def elim!: match_segments.elims split: if_splits)
    then show ?thesis
      using assms Routed Healthz by (intro refused) (auto simp: mux_def healthz_def json_response_def)
  qed
next
  case (Redirected x)
  show ?thesis by (rule refused) (use assms(1) Redirected in \<open>auto simp: mux_def library_page_def\<close>)
next
  case MethodNotAllowed
  show ?thesis by (rule refused) (use assms(1) MethodNotAllowed in \<open>auto simp: mux_def library_page_def\<close>)
next
  case NoRoute
  show ?thesis by (rule refused) (use assms(1) NoRoute in \<open>auto simp: mux_def library_page_def\<close>)
next
  case BadTarget
  show ?thesis by (rule refused) (use assms(1) BadTarget in \<open>auto simp: mux_def library_page_def\<close>)
qed

context authenticator
begin

text \<open>
  What a request comes to: a refusal that leaves the store's world alone, or an endpoint that runs for an
  authenticated principal with one of the roles of the route.
\<close>

lemma served:
  assumes "server_handler ipl sv authenticate request (a, w) = (resp, a', w')"
  obtains (refused) "w' = w" "rs_status resp \<in> {200, 301, 400, 401, 403, 404, 405}"
      "rs_status resp = 200 \<Longrightarrow> route routes (rq_method request) (rq_path request) = Routed Healthz []"
  | (endpoint) p e ids r where "authenticate a request = (Inr p, a')" "principal_wf p"
      "principal_from (Some p) = Some p"
      "route routes (rq_method request) (rq_path request) = Routed (Endpoint e) ids"
      "a_roles p \<inter> set (route_roles e) \<noteq> {}"
      "endpoint_reply ipl sv e (case ids of [] \<Rightarrow> [] | i # _ \<Rightarrow> i) request (Some p) w = (r, w')"
      "resp = write_reply r"
proof -
  obtain ares a2 where a: "authenticate a request = (ares, a2)" by force
  show ?thesis
  proof (cases ares)
    case (Inl err)
    then have "w' = w" "resp = write_unauthorized"
      using assms a by (auto simp: server_handler_def middleware_def)
    then show ?thesis by (intro refused) (simp_all add: write_unauthorized_def json_response_def)
  next
    case (Inr p)
    have wf: "principal_wf p" "principal_from (Some p) = Some p"
      using authenticated principal_available a Inr by blast+
    have m: "mux ipl sv request (Some p) w = (resp, w')" and a': "a' = a2"
      using assms a Inr by (auto simp: server_handler_def middleware_def with_principal_def split: prod.splits)
    from m wf(2) show ?thesis
    proof (cases rule: mux_served)
      case (endpoint e ids r)
      show ?thesis by (rule that(2) [OF _ wf endpoint]) (simp add: a Inr a')
    qed (use that(1) in auto)
  qed
qed

end

text \<open>
  (C29) Existence of another tenant's package is not disclosed: reading it, deciding on it or confirming
  its upload gives the very reply that an identifier no package has gives, and nothing else happens.
\<close>

theorem foreign_package_hidden:
  assumes "principal_from ctx = Some p" and "e \<notin> {CreatePackage, ListPackagesRoute}"
    and "as_get (sv_store sv) i v = (Inl ErrNotFound, v')"
    and "as_get (sv_store sv) i w = (Inr q, w')" and "p_tenant_id q \<noteq> a_tenant_id p"
  shows "endpoint_reply ipl sv e i request ctx v = (ErrorReply 404 ''evidence package not found'', v') \<and>
    endpoint_reply ipl sv e i request ctx w = (ErrorReply 404 ''evidence package not found'', w')"
proof -
  have "load_package sv i p v = (Inl (ErrorReply 404 ''evidence package not found''), v')"
    "load_package sv i p w = (Inl (ErrorReply 404 ''evidence package not found''), w')"
    using assms(3-5) by (simp_all add: load_package_def)
  then show ?thesis
    using assms(1,2)
    by (cases e) (simp_all add: endpoint_reply_def get_package_def post_validation_def confirm_upload_def
        principal_or_fail_def)
qed

subsection \<open>Limits and locations\<close>

text \<open>
  Whatever the query says, a server that was built lists between one and its maximum of rows from an
  offset that is not negative: an absent, malformed, overflowing or out-of-range number falls back to
  the default or the cap.
\<close>

lemma parse_limit_bounds:
  assumes "new_server store objects bucket limits = Inr sv"
  shows "1 \<le> parse_limit sv request \<and> parse_limit sv request \<le> ll_max limits \<and>
    0 \<le> parse_offset request \<and> parse_offset request \<le> max_int64"
proof -
  have l: "sv_limits sv = limits" "1 \<le> ll_default limits" "ll_default limits \<le> ll_max limits"
    using assms by (auto simp: new_server_def split: option.splits if_splits)
  have "1 \<le> parse_limit sv request \<and> parse_limit sv request \<le> ll_max limits"
    using l by (auto simp: parse_limit_def Let_def split: option.splits)
  moreover have "0 \<le> parse_offset request \<and> parse_offset request \<le> max_int64"
    by (auto simp: parse_offset_def Let_def max_int64_def min_int64_def dest: atoi_range split: option.splits)
  ultimately show ?thesis by blast
qed

lemma object_key_location: "object_key sv (server_object_location sv k) = Inr (''evidence/'' @ k)"
proof -
  have "server_object_location sv k = (''s3://'' @ sv_bucket sv @ ''/'') @ (''evidence/'' @ k)"
    by (simp add: server_object_location_def)
  then show ?thesis
    unfolding object_key_def Let_def using has_prefix_append trim_prefix_append by metis
qed

lemma plain_path_evidence: "list_all plain k \<Longrightarrow> plain_path (''evidence/'' @ k)"
proof -
  have "plain_path ''evidence/''" by code_simp
  then show "list_all plain k \<Longrightarrow> plain_path (''evidence/'' @ k)"
    by (auto simp: plain_path_def list_all_iff)
qed

lemma uuid_no_dot: "is_uuid k \<Longrightarrow> CHR ''.'' \<notin> set k"
proof
  assume u: "is_uuid k" and "CHR ''.'' \<in> set k"
  then obtain i where i: "i < length k" "k ! i = CHR ''.''" by (auto simp: in_set_conv_nth)
  have "hex_value CHR ''.'' = None" by code_simp
  then show False
    using uuid_shape_char [of k i] u i by (auto simp: is_uuid_iff_shape dest: uuid_shape_def [THEN iffD1])
qed

text \<open>
  (C35) The location the API derives for an upload is consistent with every component that reads it: for
  a plain bucket name and an idempotency key that passes validation, the domain model accepts it, the
  API finds the object key in it, and the object store's \<open>ParseLocation\<close> finds the same key.
\<close>

theorem object_location_consistent:
  assumes "list_all plain (sv_bucket sv)" and "sv_bucket sv \<noteq> []" and "is_uuid k"
    and "oc_bucket (cl_config c) = sv_bucket sv"
  shows "validate_content_location ipl (server_object_location sv k) = None \<and>
    object_key sv (server_object_location sv k) = Inr (''evidence/'' @ k) \<and>
    parse_location ipl c (server_object_location sv k) = Inr (''evidence/'' @ k) \<and>
    client_object_location c (''evidence/'' @ k) = server_object_location sv k"
proof -
  have p: "plain_path (''evidence/'' @ k)" using is_uuid_plain [OF assms(3)] by (rule plain_path_evidence)
  have loc: "server_object_location sv k = ''s3://'' @ sv_bucket sv @ ''/'' @ ''evidence/'' @ k"
    by (simp add: server_object_location_def)
  have "CHR ''.'' \<notin> set (''evidence/'' @ k)" using uuid_no_dot [OF assms(3)] by simp
  then have dots: "\<not> contains_sub (''evidence/'' @ k) ''..''"
    unfolding contains_sub_iff by (metis Un_iff list.set_intros(1) set_append)
  have "parse_request_uri ipl (server_object_location sv k) =
      Some (empty_url\<lparr>u_scheme := ''s3'', u_host := sv_bucket sv, u_path := ''/'' @ ''evidence/'' @ k\<rparr>)"
    unfolding loc parse_request_uri_def by (rule parse_common_s3 [OF assms(1) p])
  then have "validate_content_location ipl (server_object_location sv k) = None"
    using assms(2) by (simp add: validate_content_location_def empty_url_def)
  moreover have cl: "client_object_location c (''evidence/'' @ k) = server_object_location sv k"
    using assms(4) by (simp add: client_object_location_def server_object_location_def)
  moreover have "parse_location ipl c (''s3://'' @ sv_bucket sv @ ''/'' @ ''evidence/'' @ k) = Inr (''evidence/'' @ k)"
    unfolding parse_location_def url_parse_s3 [OF assms(1) p]
    using assms(4) dots trim_prefix_append [of "''/''" "''evidence/'' @ k"] by (simp add: empty_url_def)
  ultimately show ?thesis using object_key_location [of sv k] unfolding loc [symmetric] by blast
qed

end
