(* ===== verification/Api_Service.thy ===== *)
theory Api_Service
  imports Api_Behaviour Evidence_Behaviour
begin

text \<open>
  The API over the PostgreSQL store: the store's operations in a world that supplies each call with its
  environment, and in which other requests and the publisher run between any two calls. The store
  satisfies the contract \<open>package_store\<close>, so the API's lemmas hold of the whole service.
\<close>

subsection \<open>The world\<close>

text \<open>
  The database, the environments of the calls to come, what the rest of the system does to the database
  before each of them, and the number of the next call.
\<close>

record world =
  wd_db :: database
  wd_calls :: "nat \<Rightarrow> env"
  wd_others :: "nat \<Rightarrow> database \<Rightarrow> database"
  wd_tick :: nat

definition store_call :: "(env \<Rightarrow> database \<Rightarrow> 'r \<times> database) \<Rightarrow> world \<Rightarrow> 'r \<times> world" where
  "store_call f w =
     (case f (wd_calls w (wd_tick w)) (wd_others w (wd_tick w) (wd_db w)) of
        (res, db) \<Rightarrow> (res, w\<lparr>wd_db := db, wd_tick := Suc (wd_tick w)\<rparr>))"

text \<open>\<open>api.Store\<close> as \<open>evidence.Store\<close> implements it.\<close>

definition evidence_store :: "libs \<Rightarrow> driver \<Rightarrow> store \<Rightarrow> world api_store" where
  "evidence_store L d st =
     \<lparr>as_create = (\<lambda>r. store_call (\<lambda>e db. create L d st e db r)),
      as_get = (\<lambda>i. store_call (\<lambda>e db. (get d e db i, db))),
      as_record_validation = (\<lambda>i v. store_call (\<lambda>e db. record_validation L d st e db i v)),
      as_list = (\<lambda>t limit offset. store_call (\<lambda>e db. (list_packages d e db t limit offset, db)))\<rparr>"

text \<open>What is assumed of the rest of the system: generated identifiers are canonical, and everybody else takes steps of the chain of custody.\<close>

definition world_laws :: "driver \<Rightarrow> world \<Rightarrow> bool" where
  "world_laws d w \<longleftrightarrow> (\<forall>n. env_laws d (wd_calls w n)) \<and> (\<forall>n db. custody_step\<^sup>*\<^sup>* db (wd_others w n db))"

definition world_inv :: "driver \<Rightarrow> world \<Rightarrow> bool" where
  "world_inv d w \<longleftrightarrow> db_inv (wd_db w) \<and> world_laws d w"

definition world_evolves :: "world \<Rightarrow> world \<Rightarrow> bool" where
  "world_evolves v w \<longleftrightarrow> custody_step\<^sup>*\<^sup>* (wd_db v) (wd_db w)"

lemma db_inv_steps: "custody_step\<^sup>*\<^sup>* db db' \<Longrightarrow> db_inv db \<Longrightarrow> db_inv db'"
  using steps_evolve by blast

lemma store_call_evolves:
  assumes "store_call f w = (res, w')" and "world_inv d w"
    and "\<And>e db res db'. env_laws d e \<Longrightarrow> db_inv db \<Longrightarrow> f e db = (res, db') \<Longrightarrow> custody_step\<^sup>*\<^sup>* db db'"
  shows "world_inv d w' \<and> world_evolves w w'"
proof -
  let ?db = "wd_others w (wd_tick w) (wd_db w)"
  have o: "custody_step\<^sup>*\<^sup>* (wd_db w) ?db" using assms(2) by (simp add: world_inv_def world_laws_def)
  have inv: "db_inv ?db" using db_inv_steps [OF o] assms(2) by (simp add: world_inv_def)
  obtain db where f: "f (wd_calls w (wd_tick w)) ?db = (res, db)"
    and w': "w' = w\<lparr>wd_db := db, wd_tick := Suc (wd_tick w)\<rparr>"
    using assms(1) by (auto simp: store_call_def split: prod.splits)
  have "env_laws d (wd_calls w (wd_tick w))" using assms(2) by (simp add: world_inv_def world_laws_def)
  then have "custody_step\<^sup>*\<^sup>* ?db db" using assms(3) inv f by blast
  then have s: "custody_step\<^sup>*\<^sup>* (wd_db w) db" using o by (rule rtranclp_trans [rotated])
  then show ?thesis
    using assms(2) w' db_inv_steps [OF s] by (simp add: world_inv_def world_laws_def world_evolves_def)
qed

lemma get_Inr:
  assumes "get d e db i = Inr p"
  shows "d_uuid d i = Some (p_evidence_package_id p) \<and> p \<in> set (evidence_packages db)"
proof -
  have "call e GetPackage (select_package d db i) = Inr p"
    using assms by (cases "call e GetPackage (select_package d db i)") (simp_all add: get_def split: if_splits)
  then show ?thesis by (auto simp: call_Inr dest: select_package_Inr)
qed

lemma successor_fields:
  "successor p q \<Longrightarrow> p_tenant_id q = p_tenant_id p \<and> p_classification q = p_classification p \<and>
     p_evidence_package_id q = p_evidence_package_id p \<and> p_content_location q = p_content_location p \<and>
     p_content_sha256 q = p_content_sha256 p"
  by (auto simp: successor_def)

text \<open>Two packages of one identifier, at two times, are the same but for the status.\<close>

lemma same_package:
  assumes "custody_step\<^sup>*\<^sup>* db db'" and "db_inv db" and "p \<in> set (evidence_packages db)"
    and "q \<in> set (evidence_packages db')" and "p_evidence_package_id p = p_evidence_package_id q"
  shows "successor p q"
proof -
  have inv: "db_inv db'" and ev: "evolves db db'" using steps_evolve [OF assms(1,2)] by auto
  obtain q' where q': "q' \<in> set (evidence_packages db')" "successor p q'"
    using package_survives [OF ev assms(3)] by blast
  have "p_evidence_package_id q' = p_evidence_package_id p" using successor_fields [OF q'(2)] by simp
  then have "q = q'" by (intro distinct_id_eq [OF inv assms(4) q'(1)]) (simp add: assms(5))
  then show ?thesis using q' by simp
qed

subsection \<open>The store keeps the contract\<close>

lemma create_steps:
  "env_laws d e \<Longrightarrow> create L d st e db r = (res, db') \<Longrightarrow> custody_step\<^sup>*\<^sup>* db db'"
  by (drule (1) create_step) auto

lemma record_steps:
  "db_inv db \<Longrightarrow> record_validation L d st e db i r = (res, db') \<Longrightarrow> custody_step\<^sup>*\<^sup>* db db'"
  by (drule (1) record_step) auto

lemma create_result_fields:
  assumes "env_laws d e" and "create L d st e db r = (Inr (p, fresh), db')"
  shows "p_tenant_id p = cr_tenant_id r \<and> p_content_location p = cr_content_location r \<and>
    p_classification p = cr_classification r \<and> p_content_sha256 p = cr_content_sha256 r \<and>
    p \<in> set (evidence_packages db')"
  using assms
proof (cases rule: create_cases)
  case (retained q)
  then show ?thesis by (auto simp: create_request_matches_package_def)
next
  case (inserted q)
  then show ?thesis
    by (auto elim!: create_inserts.cases simp: created_db_def dest: package_row_fields)
qed simp_all

lemma list_packages_Inr:
  assumes "list_packages d e db t limit offset = Inr ps"
  shows "(\<forall>p \<in> set ps. p_tenant_id p = t \<and> p \<in> set (evidence_packages db)) \<and> int (length ps) \<le> limit \<and> trim_space t \<noteq> []"
proof -
  have ok: "trim_space t \<noteq> []" "0 \<le> limit" and ps: "ps = take (nat limit) (drop (nat offset)
      (sort_key list_order (filter (\<lambda>p. p_tenant_id p = t) (evidence_packages db))))"
    using assms by (auto simp: list_packages_def call_Inr bind_params_Inr text_param_def
        split: if_splits sum.splits)
  then have "set ps \<subseteq> set (filter (\<lambda>p. p_tenant_id p = t) (evidence_packages db))"
    using set_take_subset set_drop_subset by fastforce
  then show ?thesis using ok ps by auto
qed

interpretation pg: package_store "evidence_store L d st" "world_inv d" world_evolves for L d st
proof unfold_locales
  show "world_evolves w w" for w by (simp add: world_evolves_def)
  show "world_evolves u v \<Longrightarrow> world_evolves v w \<Longrightarrow> world_evolves u w" for u v w
    by (simp add: world_evolves_def)
  show "world_inv d w' \<and> world_evolves w w'"
    if "world_inv d w" "as_create (evidence_store L d st) r w = (res, w')" for w w' r res
    using store_call_evolves [of _ w res w' d] that create_steps by (fastforce simp: evidence_store_def)
  show "world_inv d w' \<and> world_evolves w w'"
    if "world_inv d w" "as_get (evidence_store L d st) i w = (res, w')" for w w' i res
    using store_call_evolves [of _ w res w' d] that by (fastforce simp: evidence_store_def)
  show "world_inv d w' \<and> world_evolves w w'"
    if "world_inv d w" "as_record_validation (evidence_store L d st) i v w = (res, w')" for w w' i v res
    using store_call_evolves [of _ w res w' d] that record_steps by (fastforce simp: evidence_store_def)
  show "world_inv d w' \<and> world_evolves w w'"
    if "world_inv d w" "as_list (evidence_store L d st) t l ofs w = (res, w')" for w w' t l ofs res
    using store_call_evolves [of _ w res w' d] that by (fastforce simp: evidence_store_def)
  show "p_tenant_id p = cr_tenant_id r \<and> p_content_location p = cr_content_location r \<and>
      p_classification p = cr_classification r"
    if "world_inv d w" "as_create (evidence_store L d st) r w = (Inr (p, fresh), w')" for w w' r p fresh
    using that create_result_fields
    by (fastforce simp: evidence_store_def store_call_def world_inv_def world_laws_def split: prod.splits)
  show "(\<forall>p \<in> set ps. p_tenant_id p = t) \<and> int (length ps) \<le> limit \<and> trim_space t \<noteq> []"
    if "world_inv d w" "as_list (evidence_store L d st) t limit ofs w = (Inr ps, w')" for w w' t limit ofs ps
    using that list_packages_Inr
    by (fastforce simp: evidence_store_def store_call_def split: prod.splits)
  show "p_tenant_id q = p_tenant_id p \<and> p_classification q = p_classification p"
    if w: "world_inv d w" and p: "as_get (evidence_store L d st) i w = (Inr p, u)" and uv: "world_evolves u v"
      and v: "world_inv d v" and q: "as_get (evidence_store L d st) i v = (Inr q, w')" for w u v w' i p q
  proof -
    obtain e e' where
      gp: "get d e (wd_db u) i = Inr p" and
      gq: "get d e' (wd_db w') i = Inr q" and
      s: "custody_step\<^sup>*\<^sup>* (wd_db v) (wd_db w')" and
      u: "custody_step\<^sup>*\<^sup>* (wd_db w) (wd_db u)"
      using p q w v
      by (auto simp: evidence_store_def store_call_def world_inv_def world_laws_def)
    have "db_inv (wd_db u)" using db_inv_steps [OF u] w by (simp add: world_inv_def)
    moreover have "custody_step\<^sup>*\<^sup>* (wd_db u) (wd_db w')"
      using uv s by (simp add: world_evolves_def)
    ultimately have "successor p q"
      using same_package get_Inr [OF gp] get_Inr [OF gq] by (metis option.inject)
    then show ?thesis by (auto dest: successor_fields)
  qed
qed

end
