(* ===== verification/Api_Properties.thy ===== *)
theory Api_Properties
  imports Api_Service
begin

text \<open>
  The properties of the whole API service, from the bearer token to the tables: isolation of tenants in
  what is read and what is written, the roles writes need, a reachable database after any sequence of
  requests, and the life of a package from its creation to its decision.
\<close>

subsection \<open>Any sequence of requests\<close>

fun serve_all ::
  "(string \<Rightarrow> string option) \<Rightarrow> world server \<Rightarrow> rsa_libs \<Rightarrow> oidc \<times> world \<Rightarrow> (oidc_env \<times> http_request) list \<Rightarrow> oidc \<times> world" where
  "serve_all ipl sv R aw [] = aw"
| "serve_all ipl sv R aw ((env, request) # rest) =
     serve_all ipl sv R (snd (server_handler ipl sv (oidc_authenticate R env) request aw)) rest"

lemma serve_step:
  assumes "world_inv d w" and "sv_store sv = evidence_store L d st"
    and "server_handler ipl sv (oidc_authenticate R env) request (auth, w) = (resp, auth', w')"
  shows "world_inv d w' \<and> world_evolves w w'"
  using assms(3)
proof (cases rule: oidc.served)
  case refused
  then show ?thesis using assms(1) by (simp add: world_evolves_def)
next
  case (endpoint p e ids r)
  show ?thesis by (rule pg.endpoint_evolves [OF assms(2,1) endpoint(6)])
qed

lemma serve_all_steps:
  assumes "world_inv d w" and "sv_store sv = evidence_store L d st"
  shows "world_inv d (snd (serve_all ipl sv R (auth, w) rs)) \<and> world_evolves w (snd (serve_all ipl sv R (auth, w) rs))"
  using assms(1)
proof (induction rs arbitrary: auth w)
  case Nil
  then show ?case by (simp add: world_evolves_def)
next
  case (Cons x rs)
  obtain env request where x: "x = (env, request)" by force
  obtain resp auth' w' where s: "server_handler ipl sv (oidc_authenticate R env) request (auth, w) = (resp, auth', w')"
    by (metis prod.exhaust)
  have "world_inv d w' \<and> world_evolves w w'" by (rule serve_step [OF Cons.prems assms(2) s])
  moreover have "world_inv d (snd (serve_all ipl sv R (auth', w') rs)) \<and>
      world_evolves w' (snd (serve_all ipl sv R (auth', w') rs))"
    using Cons.IH calculation by blast
  ultimately show ?case using rtranclp_trans by (fastforce simp: x s world_evolves_def)
qed

text \<open>
  (C14) Whatever requests arrive, with whatever tokens, and whatever fails, the service and the rest of the
  system together only take steps of the chain of custody: the database stays reachable, and every
  package retained before is there afterwards, unchanged but for its one decision.
\<close>

theorem service_reachable:
  assumes "world_laws d w" and "reachable (wd_db w)" and "sv_store sv = evidence_store L d st"
    and "serve_all ipl sv R (auth, w) rs = (auth', w')"
  shows "reachable (wd_db w') \<and>
    (\<forall>p \<in> set (evidence_packages (wd_db w)). \<exists>q \<in> set (evidence_packages (wd_db w')). successor p q)"
proof -
  have inv: "db_inv (wd_db w)" using assms(2) by (rule reachable_inv)
  then have "world_evolves w w'"
    using serve_all_steps [of d w sv L st ipl R auth rs] assms(1,3,4) by (simp add: world_inv_def)
  then have s: "custody_step\<^sup>*\<^sup>* (wd_db w) (wd_db w')" by (simp add: world_evolves_def)
  then have "reachable (wd_db w')" using assms(2) unfolding reachable_def by (rule rtranclp_trans [rotated])
  then show ?thesis using steps_evolve [OF s inv] package_survives by blast
qed

subsection \<open>Writing\<close>

text \<open>A world in which nobody else is at work.\<close>

definition undisturbed :: "world \<Rightarrow> bool" where
  "undisturbed w \<longleftrightarrow> wd_others w = (\<lambda>_ db. db)"

lemma store_call_alone:
  "undisturbed w \<Longrightarrow> store_call f w = (res, w') \<Longrightarrow>
     f (wd_calls w (wd_tick w)) (wd_db w) = (res, wd_db w') \<and> undisturbed w' \<and>
     wd_calls w' = wd_calls w \<and> wd_tick w' = Suc (wd_tick w)"
  by (auto simp: store_call_def undisturbed_def split: prod.splits)

text \<open>The rows of a tenant: its packages, their history and their events.\<close>

definition owned :: "database \<Rightarrow> string \<Rightarrow> string \<Rightarrow> bool" where
  "owned db t i \<longleftrightarrow> (\<exists>p \<in> set (tenant_packages db t). p_evidence_package_id p = i)"

definition tenant_rows :: "database \<Rightarrow> string \<Rightarrow> package list \<times> history_row list \<times> outbox_row list" where
  "tenant_rows db t = (tenant_packages db t,
     filter (\<lambda>h. owned db t (h_evidence_package_id h)) (evidence_validation_history db),
     filter (\<lambda>r. owned db t (o_evidence_package_id r)) (evidence_outbox db))"

text \<open>A step that adds rows of one package, of another tenant, leaves the rows of a tenant alone.\<close>

lemma tenant_rows_added:
  assumes "tenant_packages db' t = tenant_packages db t" and "\<not> owned db t i"
    and "evidence_validation_history db' = evidence_validation_history db @ [h]" and "h_evidence_package_id h = i"
    and "evidence_outbox db' = evidence_outbox db @ rows" and "\<forall>r \<in> set rows. o_evidence_package_id r = i"
  shows "tenant_rows db' t = tenant_rows db t"
proof -
  have o: "owned db' t = owned db t" unfolding owned_def assms(1) ..
  have "filter (\<lambda>r. owned db t (o_evidence_package_id r)) rows = []"
    using assms(2,6) by (simp add: filter_empty_conv)
  then show ?thesis using assms(1-5) by (simp add: tenant_rows_def o)
qed

lemma create_scope:
  assumes "env_laws d e" and "create L d st e db r = (res, db')" and "t \<noteq> cr_tenant_id r"
  shows "tenant_rows db' t = tenant_rows db t"
proof -
  have ins: "tenant_rows db2 t = tenant_rows db t" if "create_inserts L d st e db r p db2" for p db2
    using that
  proof cases
    case (1 rows)
    have "p_tenant_id p \<noteq> t" using package_row_fields(4) [OF 1(1)] assms(3) by simp
    moreover have "\<not> owned db t (p_evidence_package_id p)"
      using 1(4) by (auto simp: owned_def tenant_packages_def package_exists_def image_iff)
    ultimately show ?thesis
      using 1(7,9) by (intro tenant_rows_added) (auto simp: created_db_def tenant_packages_def fresh_events_def)
  qed
  show ?thesis using assms(1,2) by (cases rule: create_cases) (auto dest: ins)
qed

lemma record_scope:
  assumes "db_inv db" and "record_validation L d st e db i r = (res, db')"
    and "q \<in> set (evidence_packages db)" and "d_uuid d i = Some (p_evidence_package_id q)"
    and "t \<noteq> p_tenant_id q"
  shows "tenant_rows db' t = tenant_rows db t"
proof -
  have ins: "tenant_rows db2 t = tenant_rows db t" if r: "record_inserts L d st e db i r p h db2" for p h db2
    using r
  proof cases
    case (1 rows)
    have id: "p_evidence_package_id p = p_evidence_package_id q" using 1(2) assms(4) by simp
    have other: "p_evidence_package_id x \<noteq> p_evidence_package_id q" if "x \<in> set (tenant_packages db t)" for x
      using distinct_id_eq [OF assms(1) _ assms(3), of x] that assms(5) by (auto simp: tenant_packages_def)
    have "tenant_packages db2 t = map (decided (p_evidence_package_id q) (v_validation_status r)) (tenant_packages db t)"
      using 1(10) by (simp add: tenant_packages_def id filter_map o_def)
    also have "\<dots> = tenant_packages db t" by (rule map_idI) (use other in \<open>auto simp: decided_def\<close>)
    finally have "tenant_packages db2 t = tenant_packages db t" .
    moreover have "\<not> owned db t (p_evidence_package_id q)" using other by (auto simp: owned_def)
    moreover have "h_evidence_package_id h = p_evidence_package_id q"
      using validation_row_fields(1) [OF 1(5)] assms(4) by simp
    ultimately show ?thesis using 1(8,10) id by (intro tenant_rows_added) (auto simp: fresh_events_def)
  qed
  show ?thesis using assms(1,2) by (cases rule: record_cases) (auto dest: ins)
qed

text \<open>Reads leave the database as it is.\<close>

lemma alone_get:
  "undisturbed w \<Longrightarrow> as_get (evidence_store L d st) i w = (res, w') \<Longrightarrow>
     wd_db w' = wd_db w \<and> undisturbed w' \<and> res = get d (wd_calls w (wd_tick w)) (wd_db w) i \<and>
     wd_calls w' = wd_calls w \<and> wd_tick w' = Suc (wd_tick w)"
  using store_call_alone [of w "\<lambda>e db. (get d e db i, db)" res w'] by (auto simp: evidence_store_def)

lemma alone_load:
  assumes "undisturbed w" and "sv_store sv = evidence_store L d st" and "load_package sv i p w = (res, w')"
  shows "wd_db w' = wd_db w \<and> undisturbed w'"
proof -
  have "as_get (evidence_store L d st) i w = (fst (as_get (evidence_store L d st) i w), w')"
    using assms(2,3) by (auto simp: load_package_def split: prod.splits sum.splits)
  from alone_get [OF assms(1) this] show ?thesis by blast
qed

lemma alone_create_package:
  assumes "undisturbed w" and "world_inv d w" and "sv_store sv = evidence_store L d st"
    and "principal_from ctx = Some p" and "create_package ipl sv request ctx w = (r, w')" and "t \<noteq> a_tenant_id p"
  shows "tenant_rows (wd_db w') t = tenant_rows (wd_db w) t"
proof -
  have "w' = w \<or> (\<exists>req res. cr_tenant_id req = a_tenant_id p \<and> as_create (evidence_store L d st) req w = (res, w'))"
    using assms(3-5)
    by (auto simp: create_package_def principal_or_fail_def Let_def
        split: sum.splits option.splits if_splits prod.splits intro: exI [where x = "\<lparr>cr_idempotency_key = _,
          cr_tenant_id = _, cr_external_reference = _, cr_evidence_type = _, cr_content_sha256 = _,
          cr_content_location = _, cr_received_at = _, cr_classification = _, cr_correlation_id = _\<rparr>"])
  then show ?thesis
  proof
    assume "\<exists>req res. cr_tenant_id req = a_tenant_id p \<and> as_create (evidence_store L d st) req w = (res, w')"
    then obtain req res where req: "cr_tenant_id req = a_tenant_id p"
      and "as_create (evidence_store L d st) req w = (res, w')" by blast
    then have "create L d st (wd_calls w (wd_tick w)) (wd_db w) req = (res, wd_db w')"
      using store_call_alone [OF assms(1)] by (fastforce simp: evidence_store_def)
    moreover have "env_laws d (wd_calls w (wd_tick w))" using assms(2) by (simp add: world_inv_def world_laws_def)
    ultimately show ?thesis using create_scope req assms(6) by metis
  qed simp
qed

lemma alone_post_validation:
  assumes "undisturbed w" and "world_inv d w" and sv: "sv_store sv = evidence_store L d st"
    and "principal_from ctx = Some p" and "post_validation sv i request ctx w = (r, w')" and "t \<noteq> a_tenant_id p"
  shows "tenant_rows (wd_db w') t = tenant_rows (wd_db w) t"
proof -
  have rec: "tenant_rows (wd_db v) t = tenant_rows (wd_db w) t \<and> undisturbed v"
    if l: "load_package sv i p w = (Inr q, u)"
      and r: "as_record_validation (evidence_store L d st) i vr u = (vres, v)" for q u vr vres v
  proof -
    have u: "wd_db u = wd_db w" "undisturbed u" using alone_load [OF assms(1) sv l] by simp_all
    have g: "as_get (evidence_store L d st) i w = (Inr q, u)" "p_tenant_id q = a_tenant_id p"
      using pg.load_package_Inr [OF sv l] by simp_all
    have q: "d_uuid d i = Some (p_evidence_package_id q)" "q \<in> set (evidence_packages (wd_db w))"
      using alone_get [OF assms(1) g(1)] get_Inr by metis+
    have v: "record_validation L d st (wd_calls u (wd_tick u)) (wd_db w) i vr = (vres, wd_db v)" "undisturbed v"
      using r store_call_alone [OF u(2)] u(1) by (fastforce simp: evidence_store_def)+
    have "db_inv (wd_db w)" using assms(2) by (simp add: world_inv_def)
    from record_scope [OF this v(1) q(2,1)] show ?thesis using g(2) assms(6) v(2) by simp
  qed
  from sv assms(5) show ?thesis
  proof (cases rule: pg.post_validation_cases)
    case (loaded p' res)
    then show ?thesis using alone_load [OF assms(1) sv loaded(1)] by simp
  next
    case (recorded p' q u vr vres)
    then show ?thesis using rec [of q u vr vres w'] assms(4) by simp
  next
    case (reloaded p' q u vr v gres)
    then show ?thesis using rec [of q u vr "Inr ()" v] alone_get [of v] assms(4) by simp
  qed simp
qed

text \<open>The routes that read change nothing; the others write at most the rows of the caller's tenant.\<close>

lemma alone_reads:
  assumes "undisturbed w" and sv: "sv_store sv = evidence_store L d st" and "principal_from ctx = Some p"
    and "endpoint_reply ipl sv e i request ctx w = (r, w')" and "e \<noteq> CreatePackage" "e \<noteq> RecordValidationRoute"
  shows "wd_db w' = wd_db w"
proof (cases e)
  case ListPackagesRoute
  obtain res u where l: "as_list (evidence_store L d st) (a_tenant_id p) (parse_limit sv request) (parse_offset request) w
      = (res, u)" by force
  have "w' = u"
    using assms(2-4) ListPackagesRoute l
    by (auto simp: endpoint_reply_def list_handler_def principal_or_fail_def Let_def split: sum.splits)
  moreover have "wd_db u = wd_db w"
    using l store_call_alone [OF assms(1)] by (fastforce simp: evidence_store_def)
  ultimately show ?thesis by simp
next
  case GetPackageRoute
  obtain res u where l: "load_package sv i p w = (res, u)" by force
  have "w' = u"
    using assms(3,4) GetPackageRoute l
    by (auto simp: endpoint_reply_def get_package_def principal_or_fail_def split: sum.splits)
  then show ?thesis using alone_load [OF assms(1) sv l] by simp
next
  case ConfirmUpload
  obtain res u where l: "load_package sv i p w = (res, u)" by force
  have "w' = u"
    using assms(3,4) ConfirmUpload l
    by (auto simp: endpoint_reply_def confirm_upload_def principal_or_fail_def split: sum.splits option.splits)
  then show ?thesis using alone_load [OF assms(1) sv l] by simp
qed (use assms in simp_all)

lemma alone_endpoint:
  assumes "undisturbed w" and "world_inv d w" and "sv_store sv = evidence_store L d st"
    and "principal_from ctx = Some p" and "endpoint_reply ipl sv e i request ctx w = (r, w')" and "t \<noteq> a_tenant_id p"
  shows "tenant_rows (wd_db w') t = tenant_rows (wd_db w) t"
proof (cases "e \<in> {CreatePackage, RecordValidationRoute}")
  case True
  then show ?thesis
    using assms(5) alone_create_package [OF assms(1-4) _ assms(6)] alone_post_validation [OF assms(1-4) _ assms(6)]
    by (auto simp: endpoint_reply_def)
next
  case False
  then show ?thesis using alone_reads [OF assms(1,3,4,5)] by simp
qed

text \<open>
  (C10) No request writes outside the caller's tenant, or without the role for it: the packages of every
  other tenant are as they were, and if the database changed at all the caller was authenticated and
  created a package with a writer's or administrator's role, or decided on one with a validator's or
  administrator's.
\<close>

theorem service_writes_authorised:
  assumes "world_inv d w" and "undisturbed w" and "sv_store sv = evidence_store L d st"
    and "server_handler ipl sv (oidc_authenticate R env) request (auth, w) = (resp, auth', w')"
  shows "wd_db w' = wd_db w \<or>
    (\<exists>p e ids. oidc_authenticate R env auth request = (Inr p, auth') \<and>
       route routes (rq_method request) (rq_path request) = Routed (Endpoint e) ids \<and>
       (e = CreatePackage \<and> a_roles p \<inter> {''evidence-writer'', ''evidence-admin''} \<noteq> {} \<or>
        e = RecordValidationRoute \<and> a_roles p \<inter> {''evidence-validator'', ''evidence-admin''} \<noteq> {}) \<and>
       (\<forall>t. t \<noteq> a_tenant_id p \<longrightarrow> tenant_packages (wd_db w') t = tenant_packages (wd_db w) t))"
  using assms(4)
proof (cases rule: oidc.served)
  case (endpoint p e ids r)
  have scope: "tenant_packages (wd_db w') t = tenant_packages (wd_db w) t" if "t \<noteq> a_tenant_id p" for t
    using alone_endpoint [OF assms(2,1,3) endpoint(3,6) that] by (simp add: tenant_rows_def)
  show ?thesis
  proof (cases "e \<in> {CreatePackage, RecordValidationRoute}")
    case True
    then show ?thesis using endpoint scope by (auto simp: route_roles_def)
  next
    case False
    then show ?thesis using alone_reads [OF assms(2,3) endpoint(3,6)] by simp
  qed
qed simp

subsection \<open>The life of a package\<close>

lemma create_package_granted:
  assumes "create_package ipl sv request ctx w = (JsonReply status kvs, w')"
  obtains p b req pk fresh key upload where "principal_from ctx = Some p"
    "decode_json create_body_fields request = Inr b" "cr_idempotency_key req = b ''idempotency_key''"
    "cr_tenant_id req = a_tenant_id p" "cr_content_location req = server_object_location sv (b ''idempotency_key'')"
    "as_create (sv_store sv) req w = (Inr (pk, fresh), w')" "status = (if fresh then 201 else 200)"
    "object_key sv (p_content_location pk) = Inr key"
    "os_presigned_upload (sv_objects sv) key (p_content_sha256 pk) = Inr upload"
    "kvs = [(''package'', PPackage pk), (''upload'', PUpload upload)]"
proof -
  obtain p where p: "principal_from ctx = Some p"
    using assms by (auto simp: create_package_def principal_or_fail_def split: option.splits)
  obtain b where b: "decode_json create_body_fields request = Inr b"
    using assms p by (cases "decode_json create_body_fields request")
      (simp_all add: create_package_def principal_or_fail_def split: if_splits)
  obtain t where t: "parse_time (b ''received_at'') = Inr t"
    using assms p b by (cases "parse_time (b ''received_at'')")
      (simp_all add: create_package_def principal_or_fail_def split: if_splits)
  define req where "req = \<lparr>cr_idempotency_key = b ''idempotency_key'', cr_tenant_id = a_tenant_id p,
      cr_external_reference = b ''external_reference'', cr_evidence_type = b ''evidence_type'',
      cr_content_sha256 = b ''content_sha256'',
      cr_content_location = server_object_location sv (b ''idempotency_key''),
      cr_received_at = t, cr_classification = b ''classification'', cr_correlation_id = b ''correlation_id''\<rparr>"
  obtain res u where c: "as_create (sv_store sv) req w = (res, u)" by force
  note eq = assms [unfolded create_package_def principal_or_fail_def p option.case sum.case b t Let_def,
      folded req_def, unfolded c prod.case]
  obtain pk fresh where r: "res = Inr (pk, fresh)"
    using eq by (cases res) (auto split: if_splits option.splits)
  obtain key where key: "object_key sv (p_content_location pk) = Inr key"
    using eq r by (cases "object_key sv (p_content_location pk)") (auto split: if_splits option.splits)
  obtain upload where up: "os_presigned_upload (sv_objects sv) key (p_content_sha256 pk) = Inr upload"
    using eq r key by (cases "os_presigned_upload (sv_objects sv) key (p_content_sha256 pk)")
      (auto split: if_splits option.splits)
  show ?thesis
    by (rule that [of p b req pk fresh key upload])
      (use eq r key up p b c in \<open>auto simp: req_def split: if_splits option.splits\<close>)
qed

lemma evidence_create:
  assumes "world_inv d w" and "as_create (evidence_store L d st) req w = (Inr (pk, fresh), w')"
  shows "p_tenant_id pk = cr_tenant_id req \<and> p_content_location pk = cr_content_location req \<and>
    pk \<in> set (evidence_packages (wd_db w')) \<and>
    (fresh \<longrightarrow> d_uuid d (p_evidence_package_id pk) = Some (p_evidence_package_id pk))"
proof -
  let ?e = "wd_calls w (wd_tick w)" and ?db = "wd_others w (wd_tick w) (wd_db w)"
  have c: "create L d st ?e ?db req = (Inr (pk, fresh), wd_db w')"
    using assms(2) by (auto simp: evidence_store_def store_call_def split: prod.splits)
  have laws: "env_laws d ?e" using assms(1) by (simp add: world_inv_def world_laws_def)
  have "fresh \<Longrightarrow> p_evidence_package_id pk = e_package_uuid ?e"
    using laws c by (cases rule: create_cases) (auto elim!: create_inserts.cases dest: package_row_fields(1))
  then show ?thesis
    using create_result_fields [OF laws c] laws by (auto simp: env_laws_def)
qed

lemma evidence_get:
  assumes "world_inv d w" and "e_fault (wd_calls w (wd_tick w)) GetPackage = None"
    and "p \<in> set (evidence_packages (wd_db w))" and "d_uuid d i = Some (p_evidence_package_id p)"
  shows "\<exists>q w'. as_get (evidence_store L d st) i w = (Inr q, w') \<and> successor p q"
proof -
  let ?db = "wd_others w (wd_tick w) (wd_db w)"
  have s: "custody_step\<^sup>*\<^sup>* (wd_db w) ?db" and inv: "db_inv (wd_db w)"
    using assms(1) by (simp_all add: world_inv_def world_laws_def)
  have inv': "db_inv ?db" and ev: "evolves (wd_db w) ?db" using steps_evolve [OF s inv] by simp_all
  obtain q where q: "q \<in> set (evidence_packages ?db)" "successor p q"
    using package_survives [OF ev assms(3)] by blast
  have "get d (wd_calls w (wd_tick w)) ?db i = Inr q"
    using get_result [OF inv' assms(4), of "wd_calls w (wd_tick w)"] assms(2) q successor_fields by simp
  then show ?thesis using q(2) by (auto simp: evidence_store_def store_call_def)
qed

text \<open>
  (C17) What was created can be read: once a creation was answered with 201, anyone of the same tenant
  whose clearance covers the package reads it back under its identifier, at any later time and whatever
  happened meanwhile, with the same fields (the status may be decided by then) and a download descriptor,
  provided the query and the presigner work.
\<close>

theorem created_package_readable:
  assumes "world_inv d w" and "sv_store sv = evidence_store L d st" and "principal_from ctx = Some p"
    and "create_package ipl sv request ctx w = (JsonReply 201 kvs, w1)"
    and "world_inv d v" and "world_evolves w1 v" and "e_fault (wd_calls v (wd_tick v)) GetPackage = None"
    and "principal_from ctx2 = Some p2" and "a_tenant_id p2 = a_tenant_id p"
    and "\<forall>q \<in> set (disclosed (JsonReply 201 kvs)). clearance_covers (a_clearance p2) (p_classification q)"
    and "\<forall>key. os_presigned_download (sv_objects sv) key = Inr (dl key)"
  shows "\<exists>pk q key v'. disclosed (JsonReply 201 kvs) = [pk] \<and> successor pk q \<and>
    get_package sv (p_evidence_package_id pk) ctx2 v =
      (JsonReply 200 [(''package'', PPackage q), (''download'', PDownload (dl key))], v') \<and>
    object_key sv (p_content_location pk) = Inr key"
proof -
  obtain p' b req pk fresh key upload where c: "principal_from ctx = Some p'"
      "decode_json create_body_fields request = Inr b" "cr_idempotency_key req = b ''idempotency_key''"
      "cr_tenant_id req = a_tenant_id p'" "cr_content_location req = server_object_location sv (b ''idempotency_key'')"
      "as_create (sv_store sv) req w = (Inr (pk, fresh), w1)" "201 = (if fresh then 201 else (200::nat))"
      "object_key sv (p_content_location pk) = Inr key"
      "os_presigned_upload (sv_objects sv) key (p_content_sha256 pk) = Inr upload"
      "kvs = [(''package'', PPackage pk), (''upload'', PUpload upload)]"
    by (rule create_package_granted [OF assms(4)])
  have fresh: "fresh" using c(7) by (auto split: if_splits)
  note r = evidence_create [OF assms(1) c(6) [unfolded assms(2)]]
  have inv1: "world_inv d w1" using pg.create_evolves [OF assms(1) c(6) [unfolded assms(2)]] by blast
  have s: "custody_step\<^sup>*\<^sup>* (wd_db w1) (wd_db v)" using assms(6) by (simp add: world_evolves_def)
  have "evolves (wd_db w1) (wd_db v)" using steps_evolve [OF s] inv1 by (simp add: world_inv_def)
  then obtain q1 where q1: "q1 \<in> set (evidence_packages (wd_db v))" "successor pk q1"
    using package_survives r by blast
  have "d_uuid d (p_evidence_package_id pk) = Some (p_evidence_package_id q1)"
    using r fresh successor_fields [OF q1(2)] by simp
  then obtain q v' where q: "as_get (evidence_store L d st) (p_evidence_package_id pk) v = (Inr q, v')" "successor q1 q"
    using evidence_get [OF assms(5,7) q1(1)] by blast
  have rq: "successor pk q" using q1(2) q(2) by (rule successor_trans)
  have "load_package sv (p_evidence_package_id pk) p2 v = (Inr q, v')"
    using q(1) assms(2,3,9,10) c(1,4,10) r successor_fields [OF rq] by (simp add: load_package_def)
  then have "get_package sv (p_evidence_package_id pk) ctx2 v =
      (JsonReply 200 [(''package'', PPackage q), (''download'', PDownload (dl key))], v')"
    using assms(8,11) c(8) successor_fields [OF rq] by (simp add: get_package_def principal_or_fail_def)
  moreover have "disclosed (JsonReply 201 kvs) = [pk]" using c(10) by simp
  ultimately show ?thesis using rq c(8) by blast
qed

lemma record_decides:
  assumes "db_inv db" and "record_validation L d st e db i r = (Inr (), db')"
  shows "\<exists>p \<in> set (evidence_packages db). \<exists>q \<in> set (evidence_packages db'). d_uuid d i = Some (p_evidence_package_id p) \<and>
    p_evidence_package_id q = p_evidence_package_id p \<and> p_validation_status p = StatusReceived \<and>
    p_validation_status q = v_validation_status r \<and> terminal_status (v_validation_status r)"
  using assms
proof (cases rule: record_cases)
  case (recorded p h)
  from recorded(1) show ?thesis
  proof cases
    case (1 rows)
    let ?q = "decided (p_evidence_package_id p) (v_validation_status r) p"
    have "?q \<in> set (evidence_packages db')" using 1(1,10) by simp
    then show ?thesis using 1(1-4)
      by (intro bexI [of _ p] bexI [of _ ?q]) simp_all
  qed
qed simp_all

lemma evidence_record:
  assumes "world_inv d w" and "as_record_validation (evidence_store L d st) i r w = (Inr (), w')"
  shows "\<exists>db p q. custody_step\<^sup>*\<^sup>* (wd_db w) db \<and> db_inv db \<and> p \<in> set (evidence_packages db) \<and>
    q \<in> set (evidence_packages (wd_db w')) \<and> d_uuid d i = Some (p_evidence_package_id p) \<and>
    p_evidence_package_id q = p_evidence_package_id p \<and> p_validation_status p = StatusReceived \<and>
    p_validation_status q = v_validation_status r \<and> terminal_status (v_validation_status r)"
proof -
  let ?db = "wd_others w (wd_tick w) (wd_db w)"
  have s: "custody_step\<^sup>*\<^sup>* (wd_db w) ?db" and inv: "db_inv (wd_db w)"
    using assms(1) by (simp_all add: world_inv_def world_laws_def)
  have "record_validation L d st (wd_calls w (wd_tick w)) ?db i r = (Inr (), wd_db w')"
    using assms(2) by (auto simp: evidence_store_def store_call_def split: prod.splits)
  with record_decides [OF db_inv_steps [OF s inv]] s db_inv_steps [OF s inv] show ?thesis by blast
qed

text \<open>A decided package and its history stay as they are, and every further decision on it is refused.\<close>

lemma decided_stays:
  assumes "custody_step\<^sup>*\<^sup>* db db'" and "db_inv db" and "p \<in> set (evidence_packages db)"
    and "terminal_status (p_validation_status p)"
  shows "p \<in> set (evidence_packages db') \<and>
    history_of db' (p_evidence_package_id p) = history_of db (p_evidence_package_id p)"
proof -
  have inv: "db_inv db'" and ev: "evolves db db'" using steps_evolve [OF assms(1,2)] by auto
  have nr: "p_validation_status p \<noteq> StatusReceived" using assms(4) received_not_terminal by auto
  obtain q where "q \<in> set (evidence_packages db')" "successor p q" using package_survives [OF ev assms(3)] by blast
  then have p: "p \<in> set (evidence_packages db')" using nr by (auto simp: successor_def)
  have two: "length (history_of x (p_evidence_package_id p)) = 2" if "custody x p" for x
    using that [unfolded custody_def, THEN arg_cong [where f = length]] nr by simp
  obtain hs where "evidence_validation_history db' = evidence_validation_history db @ hs"
    using ev by (auto simp: evolves_def prefix_def)
  then have "history_of db' (p_evidence_package_id p) = history_of db (p_evidence_package_id p) @
      filter (\<lambda>h. h_evidence_package_id h = p_evidence_package_id p) hs"
    by (simp add: history_of_def)
  moreover have "custody db p" "custody db' p" using assms(2,3) inv p by (simp_all add: db_inv_def)
  ultimately show ?thesis
    using p two [of db] two [of db'] by (metis append_Nil2 append_eq_append_conv)
qed

lemma decided_refused:
  assumes "world_inv d v" and "sv_store sv = evidence_store L d st"
    and "p \<in> set (evidence_packages (wd_db v))" and "terminal_status (p_validation_status p)"
    and "d_uuid d j = Some (p_evidence_package_id p)"
  shows "\<not> granted (fst (post_validation sv j request ctx v))"
proof
  assume g: "granted (fst (post_validation sv j request ctx v))"
  obtain r v2 where r: "post_validation sv j request ctx v = (r, v2)" by force
  then have g2: "granted r" using g by simp
  from assms(2) r show False
  proof (cases rule: pg.post_validation_cases)
    case (reloaded p' q' t vr t2 gres)
    have t: "world_inv d t \<and> world_evolves v t" by (rule pg.load_package_evolves [OF assms(2,1) reloaded(2)])
    obtain db y where y: "custody_step\<^sup>*\<^sup>* (wd_db t) db" "y \<in> set (evidence_packages db)"
        "d_uuid d j = Some (p_evidence_package_id y)" "p_validation_status y = StatusReceived"
      using evidence_record [OF _ reloaded(5)] t by blast
    have "custody_step\<^sup>*\<^sup>* (wd_db v) db" using t y(1) rtranclp_trans unfolding world_evolves_def by fast
    from same_package [OF this _ assms(3) y(2)] have "successor p y"
      using assms(1,5) y(3) by (simp add: world_inv_def)
    then show False using assms(4) y(4) received_not_terminal by (auto simp: successor_def)
  qed (use g2 in auto)
qed

lemma post_validation_decides:
  assumes "world_inv d w" and "sv_store sv = evidence_store L d st"
    and "post_validation sv i request ctx w = (JsonReply 201 kvs, w1)"
  obtains b p where "decode_json validation_body_fields request = Inr b" "d_uuid d i = Some (p_evidence_package_id p)"
    "p_validation_status p = b ''validation_status''" "terminal_status (p_validation_status p)"
    "p \<in> set (evidence_packages (wd_db w1))" "world_inv d w1"
  using assms(2,3)
proof (cases rule: pg.post_validation_cases)
  case (reloaded p q u vr v gres)
  have u: "world_inv d u" using pg.load_package_evolves [OF assms(2,1) reloaded(2)] by blast
  have v: "world_inv d v" using pg.record_evolves [OF u reloaded(5)] by blast
  have w1: "world_inv d w1 \<and> world_evolves v w1" using pg.get_evolves [OF v reloaded(6)] .
  obtain x where x: "x \<in> set (evidence_packages (wd_db v))" "d_uuid d i = Some (p_evidence_package_id x)"
      "p_validation_status x = v_validation_status vr" "terminal_status (v_validation_status vr)"
    using evidence_record [OF u reloaded(5)] by auto
  have "x \<in> set (evidence_packages (wd_db w1))"
    using decided_stays [of "wd_db v" "wd_db w1" x] w1 v x(1,3,4) by (simp add: world_evolves_def world_inv_def)
  then show ?thesis using that x reloaded(8) w1 by metis
qed simp_all

text \<open>
  (C4) A decision is final. Once one was answered with 201, the addressed package has the status the
  request asked for; and after any further sequence of requests, from whomever and with whatever failing,
  with other requests and the publisher running in between, it still has exactly that status and the same
  history of two rows, and a decision on it, under any spelling of its identifier and with whatever body,
  is not granted.
\<close>

theorem decision_final:
  assumes "world_inv d w" and "sv_store sv = evidence_store L d st"
    and "post_validation sv i request ctx w = (JsonReply 201 kvs, w1)"
    and "serve_all ipl sv R (auth, w1) rs = (auth', w2)"
  shows "\<exists>b p. decode_json validation_body_fields request = Inr b \<and>
    d_uuid d i = Some (p_evidence_package_id p) \<and>
    p_validation_status p = b ''validation_status'' \<and> p_validation_status p \<in> {StatusValidated, StatusRejected} \<and>
    p \<in> set (evidence_packages (wd_db w1)) \<and> p \<in> set (evidence_packages (wd_db w2)) \<and>
    history_of (wd_db w2) (p_evidence_package_id p) = history_of (wd_db w1) (p_evidence_package_id p) \<and>
    map h_validation_status (history_of (wd_db w2) (p_evidence_package_id p)) = [StatusReceived, p_validation_status p] \<and>
    (\<forall>j request2 ctx2. d_uuid d j = Some (p_evidence_package_id p) \<longrightarrow>
       \<not> granted (fst (post_validation sv j request2 ctx2 w2)))"
proof -
  obtain b p where b: "decode_json validation_body_fields request = Inr b" "d_uuid d i = Some (p_evidence_package_id p)"
    "p_validation_status p = b ''validation_status''" and fin: "terminal_status (p_validation_status p)"
    and p: "p \<in> set (evidence_packages (wd_db w1))" and inv: "world_inv d w1"
    by (rule post_validation_decides [OF assms(1-3)])
  have w2: "world_inv d w2" "custody_step\<^sup>*\<^sup>* (wd_db w1) (wd_db w2)"
    using serve_all_steps [OF inv assms(2), of ipl R auth rs] assms(4) by (simp_all add: world_evolves_def)
  have inv1: "db_inv (wd_db w1)" and inv2: "db_inv (wd_db w2)" using inv w2(1) by (simp_all add: world_inv_def)
  note stays = decided_stays [OF w2(2) inv1 p fin]
  have c: "custody (wd_db w2) p" using inv2 stays by (simp add: db_inv_def)
  have nr: "p_validation_status p \<noteq> StatusReceived" using fin received_not_terminal by auto
  have "map h_validation_status (history_of (wd_db w2) (p_evidence_package_id p)) = [StatusReceived, p_validation_status p]"
    using c [unfolded custody_def, THEN arg_cong [where f = "map snd"]] nr by (simp add: comp_def)
  moreover have "\<forall>j request2 ctx2. d_uuid d j = Some (p_evidence_package_id p) \<longrightarrow>
      \<not> granted (fst (post_validation sv j request2 ctx2 w2))"
    using decided_refused [OF w2(1) assms(2) conjunct1 [OF stays] fin] by blast
  ultimately show ?thesis
    using b p stays fin [unfolded terminal_status_iff] by (intro exI [of _ b] exI [of _ p] conjI) simp_all
qed

text \<open>
  (C22) The object of an upload is named by the idempotency key alone, while since migration 0004 a key is
  only unique within its tenant: two creations with the same key, by whatever tenants, are given uploads
  of one and the same object.
\<close>

theorem object_shared_across_tenants:
  assumes "world_inv d w" and "world_inv d v" and "sv_store sv = evidence_store L d st"
    and "create_package ipl sv request1 ctx1 w = (JsonReply s1 kvs1, w')"
    and "create_package ipl sv request2 ctx2 v = (JsonReply s2 kvs2, v')"
    and "decode_json create_body_fields request1 = Inr b1" and "decode_json create_body_fields request2 = Inr b2"
    and "b1 ''idempotency_key'' = b2 ''idempotency_key''"
    and "q1 \<in> set (disclosed (JsonReply s1 kvs1))" and "q2 \<in> set (disclosed (JsonReply s2 kvs2))"
  shows "object_key sv (p_content_location q1) = Inr (''evidence/'' @ b1 ''idempotency_key'') \<and>
    object_key sv (p_content_location q2) = Inr (''evidence/'' @ b1 ''idempotency_key'')"
proof -
  have key: "object_key sv (p_content_location q) = Inr (''evidence/'' @ b ''idempotency_key'')"
    if "world_inv d u" "create_package ipl sv request ctx u = (JsonReply s kvs, u')"
      "decode_json create_body_fields request = Inr b" "q \<in> set (disclosed (JsonReply s kvs))"
    for u u' request ctx s kvs b q
    using that(2)
  proof (cases rule: create_package_granted)
    case (1 p b' req pk fresh key upload)
    have "p_content_location pk = server_object_location sv (b ''idempotency_key'')"
      using evidence_create [OF that(1) 1(6) [unfolded assms(3)]] 1(2,5) that(3) by simp
    moreover have "q = pk" using that(4) 1(10) by simp
    ultimately show ?thesis by (simp add: object_key_location)
  qed
  show ?thesis using key [OF assms(1,4,6,9)] key [OF assms(2,5,7,10)] assms(8) by simp
qed

subsection \<open>Pages\<close>

text \<open>
  (C34) Whatever limit and offset a request asks for, huge, negative or no number at all, the listing reads
  between one and the configured maximum of rows from an offset that is not negative and fits an
  \<open>int64\<close>, and the reply has no more packages than that.
\<close>

theorem list_page_bounded:
  assumes "world_inv d w" and "new_server (Some (evidence_store L d st)) objects bucket limits = Inr sv"
    and "list_handler sv request ctx w = (r, w')"
  shows "1 \<le> parse_limit sv request \<and> parse_limit sv request \<le> ll_max limits \<and>
    0 \<le> parse_offset request \<and> parse_offset request \<le> max_int64 \<and>
    int (length (disclosed r)) \<le> parse_limit sv request"
proof -
  have "sv_store sv = evidence_store L d st" using assms(2) by (auto simp: new_server_def split: option.splits if_splits)
  then show ?thesis using pg.list_bounded [OF _ assms(1,3)] parse_limit_bounds [OF assms(2), of request] by fastforce
qed

end
