(* ===== verification/Api_Isolation.thy ===== *)
theory Api_Isolation
  imports Api_Properties
begin

text \<open>
  Isolation as noninterference: two databases that differ only in what a principal has no right to see are
  the same to it. Each operation of the store, and then each endpoint, is run on both; the replies are
  equal and the databases still look the same afterwards.
\<close>

subsection \<open>What looks the same\<close>

text \<open>
  \<open>V\<close> says which packages of the tenant can be seen in full. Of the others a principal can tell that they
  are there: the identifier (an existing one is answered with 403 instead of 404), the classification (it
  decides about that), and the place in the listing, which \<open>received_at\<close> gives (pages are cut before
  the clearance is applied). Everything else of them may differ.
\<close>

definition agree :: "(package \<Rightarrow> bool) \<Rightarrow> package \<Rightarrow> package \<Rightarrow> bool" where
  "agree V p q \<longleftrightarrow>
     p_evidence_package_id p = p_evidence_package_id q \<and> p_tenant_id p = p_tenant_id q \<and>
     p_classification p = p_classification q \<and> p_received_at p = p_received_at q \<and>
     (V p \<or> V q \<longrightarrow> p = q)"

definition same_view :: "(package \<Rightarrow> bool) \<Rightarrow> string \<Rightarrow> database \<Rightarrow> database \<Rightarrow> bool" where
  "same_view V t db1 db2 \<longleftrightarrow> list_all2 (agree V) (tenant_packages db1 t) (tenant_packages db2 t)"

lemma agree_refl [simp]: "agree V p p"
  by (simp add: agree_def)

lemma agree_seen: "agree V p q \<Longrightarrow> V p \<or> V q \<Longrightarrow> p = q"
  by (simp add: agree_def)

lemma find_seen:
  "list_all2 (agree V) ps qs \<Longrightarrow> (\<And>p. p \<in> set ps \<union> set qs \<Longrightarrow> P p \<Longrightarrow> V p) \<Longrightarrow> find P ps = find P qs"
proof (induction rule: list_all2_induct)
  case (Cons p ps q qs)
  have IH: "find P ps = find P qs" using Cons.IH Cons.prems by simp
  show ?case
  proof (cases "P p \<or> P q")
    case True
    then have "V p \<or> V q" using Cons.prems [of p] Cons.prems [of q] by auto
    then have "p = q" using agree_seen Cons.hyps(1) by blast
    then show ?thesis using IH by simp
  qed (simp add: IH)
qed simp

lemma find_id_agree:
  "list_all2 (agree V) ps qs \<Longrightarrow>
     rel_option (agree V) (find (\<lambda>p. p_evidence_package_id p = u) ps) (find (\<lambda>p. p_evidence_package_id p = u) qs)"
proof (induction rule: list_all2_induct)
  case (Cons p ps q qs)
  have "p_evidence_package_id p = p_evidence_package_id q" using Cons.hyps(1) by (simp add: agree_def)
  then show ?case using Cons by simp
qed simp

text \<open>The package of an identifier, looked for among those of one tenant.\<close>

lemma find_filter_unique:
  "distinct (map f xs) \<Longrightarrow>
     find (\<lambda>x. f x = u) (filter Q xs) = (case find (\<lambda>x. f x = u) xs of None \<Rightarrow> None | Some x \<Rightarrow> if Q x then Some x else None)"
proof (induction xs)
  case (Cons x xs)
  have "find (\<lambda>x. f x = u) (filter Q xs) = None" if "f x = u"
    using Cons.prems that by (auto simp: find_None_iff image_iff)
  then show ?case using Cons by auto
qed simp

lemma find_tenant:
  assumes "db_inv db"
  shows "find (\<lambda>p. p_evidence_package_id p = u) (tenant_packages db t) =
    (case find (\<lambda>p. p_evidence_package_id p = u) (evidence_packages db) of
       None \<Rightarrow> None | Some p \<Rightarrow> if p_tenant_id p = t then Some p else None)"
  unfolding tenant_packages_def
  by (rule find_filter_unique) (use assms in \<open>simp add: db_inv_def\<close>)

text \<open>Sorting by what both show keeps the two lists in step.\<close>

lemma insort_key_map: "insort_key f (g x) (map g xs) = map g (insort_key (f \<circ> g) x xs)"
  by (induction xs) simp_all

lemma sort_key_map: "sort_key f (map g xs) = map g (sort_key (f \<circ> g) xs)"
  by (induction xs) (simp_all add: insort_key_map [unfolded comp_def] comp_def)

lemma insort_key_cong: "f x = g x \<Longrightarrow> \<forall>y \<in> set xs. f y = g y \<Longrightarrow> insort_key f x xs = insort_key g x xs"
  by (induction xs) simp_all

lemma sort_key_cong: "\<forall>x \<in> set xs. f x = g x \<Longrightarrow> sort_key f xs = sort_key g xs"
proof (induction xs)
  case (Cons x xs)
  have "insort_key f x (sort_key g xs) = insort_key g x (sort_key g xs)"
    by (rule insort_key_cong) (use Cons.prems in simp_all)
  then show ?case using Cons by simp
qed simp

lemma sort_agree:
  assumes "list_all2 (agree V) ps qs"
  shows "list_all2 (agree V) (sort_key list_order ps) (sort_key list_order qs)"
proof -
  let ?zs = "zip ps qs"
  have len: "length ps = length qs" using assms by (rule list_all2_lengthD)
  have z: "agree V (fst z) (snd z)" if "z \<in> set ?zs" for z
    using assms that by (auto simp: list_all2_iff split: prod.splits)
  then have "\<forall>z \<in> set ?zs. (list_order \<circ> fst) z = (list_order \<circ> snd) z"
    by (simp add: list_order_def agree_def)
  then have keys: "sort_key (list_order \<circ> fst) ?zs = sort_key (list_order \<circ> snd) ?zs" by (rule sort_key_cong)
  have "sort_key list_order ps = map fst (sort_key (list_order \<circ> fst) ?zs)"
    using len by (simp flip: sort_key_map)
  moreover have "sort_key list_order qs = map snd (sort_key (list_order \<circ> fst) ?zs)"
    using len unfolding keys by (simp flip: sort_key_map)
  ultimately show ?thesis using z by (simp add: list_all2_map1 list_all2_map2 list_all2_same)
qed

subsection \<open>The store on two databases\<close>

text \<open>The identifiers generated for a call are new.\<close>

definition fresh_env :: "env \<Rightarrow> database \<Rightarrow> bool" where
  "fresh_env e db \<longleftrightarrow>
     \<not> package_exists db (e_package_uuid e) \<and>
     e_history_uuid e \<notin> h_validation_history_id ` set (evidence_validation_history db) \<and>
     e_outbox_uuid e \<notin> o_event_id ` set (evidence_outbox db)"

text \<open>What the outbox makes of an event does not depend on the rows that are there.\<close>

definition probe :: "string \<Rightarrow> database" where
  "probe u = empty_database\<lparr>evidence_packages := [\<lparr>p_evidence_package_id = u, p_idempotency_key = [],
     p_tenant_id = [], p_external_reference = [], p_evidence_type = [], p_content_sha256 = [],
     p_content_location = [], p_received_at = 0, p_classification = [], p_correlation_id = [],
     p_created_at = 0, p_validation_status = []\<rparr>]\<rparr>"

definition event_outcome ::
  "libs \<Rightarrow> driver \<Rightarrow> store \<Rightarrow> env \<Rightarrow> string \<Rightarrow> string \<Rightarrow> string \<Rightarrow> string \<Rightarrow> (string \<times> payload_value) list \<Rightarrow> time
     \<Rightarrow> string \<Rightarrow> outbox_row list result" where
  "event_outcome L d st e event_type topic corr subject payload at u =
     map_sum id evidence_outbox (enqueue_outbox L d st e (probe u) event_type topic corr subject payload at)"

lemma enqueue_outcome:
  assumes "d_uuid d subject = Some u" and "package_exists tx u"
    and "e_outbox_uuid e \<notin> o_event_id ` set (evidence_outbox tx)"
  shows "enqueue_outbox L d st e tx event_type topic corr subject payload at =
    map_sum id (\<lambda>rows. tx\<lparr>evidence_outbox := evidence_outbox tx @ rows\<rparr>)
      (event_outcome L d st e event_type topic corr subject payload at u)"
  using assms
  by (auto simp: event_outcome_def enqueue_outbox_def call_def bind_params_def insert_outbox_def package_exists_def
      probe_def empty_database_def split: option.split sum.split)

text \<open>A creation, said in terms of the one package of the tenant that may have its idempotency key.\<close>

definition checked :: "package \<Rightarrow> package result" where
  "checked p = (if package_checks p then Inr p else violation ''check constraint'')"

definition retained :: "database \<Rightarrow> string \<Rightarrow> string \<Rightarrow> package option" where
  "retained db t k = find (\<lambda>q. p_idempotency_key q = k) (tenant_packages db t)"

lemma find_filter: "find P (filter Q xs) = find (\<lambda>x. Q x \<and> P x) xs"
  by (induction xs) auto

lemma retained_taken: "idempotency_taken db t k \<longleftrightarrow> retained db t k \<noteq> None"
  by (auto simp: idempotency_taken_def retained_def tenant_packages_def find_filter find_None_iff list_ex_iff)

lemma insert_package_fresh:
  "\<not> package_exists db (p_evidence_package_id p) \<Longrightarrow> insert_package db p =
     (case checked p of Inl err \<Rightarrow> Inl err
      | Inr _ \<Rightarrow> (case retained db (p_tenant_id p) (p_idempotency_key p) of
          Some _ \<Rightarrow> Inr (db, None)
        | None \<Rightarrow> Inr (db\<lparr>evidence_packages := evidence_packages db @ [p]\<rparr>, Some p)))"
  by (auto simp: insert_package_def checked_def retained_taken split: option.split)

lemma select_retained_row:
  assumes "package_row d e r = Some p"
  shows "select_retained d db r =
    (case retained db (p_tenant_id p) (p_idempotency_key p) of None \<Rightarrow> Inl ErrNoRows | Some q \<Rightarrow> Inr q)"
proof -
  have "text_param d (cr_tenant_id r) = Some (p_tenant_id p)"
    using assms by (auto simp: package_row_def text_param_def split: if_splits Option.bind_splits)
  then show ?thesis
    using package_row_fields(5) [OF assms]
    by (simp add: select_retained_def bind_params_def retained_def tenant_packages_def find_filter)
qed

definition received_outcome :: "libs \<Rightarrow> driver \<Rightarrow> store \<Rightarrow> env \<Rightarrow> package \<Rightarrow> outbox_row list result" where
  "received_outcome L d st e p = event_outcome L d st e ''evidence.package.received'' TopicPackage (p_correlation_id p)
     (p_evidence_package_id p) (received_payload p) (p_received_at p) (p_evidence_package_id p)"

lemma create_outcome:
  assumes "env_laws d e" and "fresh_env e db" and row: "package_row d e r = Some p"
  shows "create L d st e db r =
    (if trim_space (cr_tenant_id r) = []
     then (Inl (Error ''evidence creation requires a tenant binding''), db)
     else case call e BeginTx (Inr ()) of Inl err \<Rightarrow> (Inl (Wrap ''begin evidence creation transaction'' err), db)
     | Inr _ \<Rightarrow> case call e InsertPackage (checked p) of Inl err \<Rightarrow> (Inl (Wrap ''insert evidence package'' err), db)
     | Inr _ \<Rightarrow> case retained db (p_tenant_id p) (p_idempotency_key p) of
         Some q \<Rightarrow> (case call e SelectRetained (Inr q) of
             Inl err \<Rightarrow> (Inl (Wrap ''load retained idempotency key'' err), db)
           | Inr q \<Rightarrow> if \<not> create_request_matches_package r q then (Inl ErrIdempotencyConflict, db)
                      else commit e ''commit idempotent lookup'' db db (q, False))
       | None \<Rightarrow> (case call e InsertInitialHistory (Inr ()) of
             Inl err \<Rightarrow> (Inl (Wrap ''record initial validation history'' err), db)
           | Inr _ \<Rightarrow> case received_outcome L d st e p of
               Inl err \<Rightarrow> (Inl err, db)
             | Inr rows \<Rightarrow> commit e ''commit evidence creation'' db (created_db e db p rows) (p, True)))"
proof -
  note f = package_row_fields [OF row]
  let ?tx = "db\<lparr>evidence_packages := evidence_packages db @ [p]\<rparr>"
  let ?tx2 = "?tx\<lparr>evidence_validation_history := evidence_validation_history db @ [initial_history e p]\<rparr>"
  have new: "\<not> package_exists db (p_evidence_package_id p)" using assms(2) f(1) by (simp add: fresh_env_def)
  have hist: "insert_history ?tx (initial_history e p) = Inr ?tx2"
    using assms(2) f(1) by (simp add: insert_history_Inr initial_history_checks fresh_env_def)
  have id: "d_uuid d (p_evidence_package_id p) = Some (p_evidence_package_id p)"
    using assms(1) f(1) by (simp add: env_laws_def)
  have "enqueue_outbox L d st e ?tx2 ''evidence.package.received'' TopicPackage (p_correlation_id p)
      (p_evidence_package_id p) (received_payload p) (p_received_at p) =
    map_sum id (\<lambda>rows. created_db e db p rows) (received_outcome L d st e p)"
    unfolding received_outcome_def
    by (subst enqueue_outcome [OF id]) (use assms(2) in \<open>simp_all add: fresh_env_def created_db_def [abs_def]\<close>)
  note enq = this
  show ?thesis
    unfolding create_def row bind_params_def option.case insert_package_fresh [OF new] select_retained_row [OF row]
    using hist enq
    by (auto simp: call_def checked_def bind_params_def retained_def split: option.split sum.split)
qed

text \<open>Both databases unchanged, or both with the same package received.\<close>

lemma same_view_received:
  "same_view V t db1 db2 \<Longrightarrow> same_view V t (created_db e db1 p rows) (created_db e db2 p rows)"
  by (simp add: same_view_def created_db_def tenant_packages_def list_all2_appendI)

lemma create_same:
  assumes "env_laws d e" and "fresh_env e db1" "fresh_env e db2" and view: "same_view V (cr_tenant_id r) db1 db2"
    and key: "\<And>q. d_uuid d (cr_idempotency_key r) = Some (p_idempotency_key q) \<Longrightarrow> V q"
    and "create L d st e db1 r = (res1, db1')" and "create L d st e db2 r = (res2, db2')"
  shows "res1 = res2 \<and> same_view V (cr_tenant_id r) db1' db2'"
proof (cases "package_row d e r")
  case None
  then have "res1 = res2 \<and> db1' = db1 \<and> db2' = db2"
    using assms(6,7) by (auto simp: create_def bind_params_def call_def split: if_splits option.splits)
  then show ?thesis using view by simp
next
  case (Some p)
  have "retained db1 (p_tenant_id p) (p_idempotency_key p) = retained db2 (p_tenant_id p) (p_idempotency_key p)"
    unfolding retained_def
    by (rule find_seen [OF view [unfolded same_view_def package_row_fields(4) [OF Some, symmetric]]])
      (use key package_row_fields(5) [OF Some] in simp)
  then show ?thesis
    using assms(6,7) view
    unfolding create_outcome [OF assms(1,2) Some] create_outcome [OF assms(1,3) Some]
    by (auto simp: commit_def split: if_splits sum.splits option.splits commit_outcome.splits
        intro: same_view_received)
qed

text \<open>A decision, said in terms of the package it addresses.\<close>

definition update_outcome :: "driver \<Rightarrow> package \<Rightarrow> string \<Rightarrow> unit result" where
  "update_outcome d q s =
     bind_params (text_param d s) (\<lambda>s.
       if \<not> mutation_allowed TG_UPDATE q (q\<lparr>p_validation_status := s\<rparr>)
       then violation ''evidence_packages rows are immutable except the terminal validation_status transition; create validation history instead''
       else if \<not> package_checks (q\<lparr>p_validation_status := s\<rparr>) then violation ''check constraint''
       else Inr ())"

lemma update_status_outcome:
  assumes "db_inv db" and "q \<in> set (evidence_packages db)" and "d_uuid d i = Some (p_evidence_package_id q)"
    and "evidence_packages tx = evidence_packages db"
  shows "update_status d tx i s = map_sum id (\<lambda>_. tx\<lparr>evidence_packages :=
    map (decided (p_evidence_package_id q) s) (evidence_packages tx)\<rparr>) (update_outcome d q s)"
proof -
  have only: "list_ex (\<lambda>x. p_evidence_package_id x = p_evidence_package_id q \<and> P x) (evidence_packages tx) \<longleftrightarrow> P q" for P
    using distinct_id_eq [OF assms(1) _ assms(2)] assms(2) unfolding assms(4) list_ex_iff by blast
  have dec: "(\<lambda>x. if p_evidence_package_id x = p_evidence_package_id q then x\<lparr>p_validation_status := s\<rparr> else x) =
      decided (p_evidence_package_id q) s"
    by (rule ext) (simp add: decided_def)
  show ?thesis
    using assms(3) by (simp add: update_status_def update_outcome_def bind_params_def text_param_def update_packages_def
        only dec)
qed

definition decided_outcome ::
  "libs \<Rightarrow> driver \<Rightarrow> store \<Rightarrow> env \<Rightarrow> package \<Rightarrow> string \<Rightarrow> validation_request \<Rightarrow> outbox_row list result" where
  "decided_outcome L d st e q i r = event_outcome L d st e ''evidence.validation.recorded'' TopicValidation
     (v_correlation_id r) i (recorded_payload i StatusReceived r) (v_occurred_at r) (p_evidence_package_id q)"

definition checked_history :: "history_row \<Rightarrow> history_row result" where
  "checked_history h = (if history_checks h then Inr h else violation ''check constraint'')"

lemma record_outcome:
  assumes inv: "db_inv db" and fresh: "fresh_env e db" and q: "q \<in> set (evidence_packages db)"
    and u: "d_uuid d i = Some (p_evidence_package_id q)"
  shows "record_validation L d st e db i r =
    (case call e BeginTx (Inr ()) of Inl err \<Rightarrow> (Inl (Wrap ''begin validation transaction'' err), db)
     | Inr _ \<Rightarrow> case call e LockPackage (Inr ()) of
         Inl err \<Rightarrow> (Inl (Wrap ''load evidence package for validation'' err), db)
     | Inr _ \<Rightarrow> case call e SelectTerminal (Inr ()) of
         Inl err \<Rightarrow> (Inl (Wrap ''check terminal validation history'' err), db)
     | Inr _ \<Rightarrow> if p_validation_status q \<noteq> StatusReceived then (Inl ErrTerminalValidation, db)
     else case call e SelectPrior (Inr ()) of Inl err \<Rightarrow> (Inl (Wrap ''load prior validation status'' err), db)
     | Inr _ \<Rightarrow> case call e InsertValidation (bind_params (validation_row d e i StatusReceived r) checked_history) of
         Inl err \<Rightarrow> (Inl (Wrap ''record evidence validation'' err), db)
     | Inr h \<Rightarrow> case call e UpdateStatus (update_outcome d q (v_validation_status r)) of
         Inl err \<Rightarrow> (Inl (Wrap ''persist evidence validation status'' err), db)
     | Inr _ \<Rightarrow> case decided_outcome L d st e q i r of
         Inl err \<Rightarrow> (Inl err, db)
     | Inr rows \<Rightarrow> commit e ''commit validation history'' db
         (custody_effect (Decide (p_evidence_package_id q) (v_validation_status r) h rows) db) ())"
proof -
  have lock: "lock_package d db i = Inr (p_evidence_package_id q)"
    using id_find [OF inv q] u by (simp add: lock_package_def select_package_def bind_params_def)
  have dec: "select_terminal d db i = Inr (terminal_decision_exists db (p_evidence_package_id q))"
    using u by (simp add: select_terminal_def bind_params_def)
  show ?thesis
  proof (cases "p_validation_status q = StatusReceived")
    case False
    then have "terminal_decision_exists db (p_evidence_package_id q)" by (rule decided_has_terminal [OF inv q])
    then show ?thesis
      using False lock dec by (simp add: record_validation_def call_def split: option.split)
  next
    case True
    have no: "\<not> terminal_decision_exists db (p_evidence_package_id q)"
      by (rule received_undecided [OF inv q True])
    have prior: "select_prior d db i = Inr StatusReceived" by (rule select_prior_received [OF inv q u no])
    have ex: "package_exists db (p_evidence_package_id q)" using q by (simp add: package_exists_def)
    let ?tx = "\<lambda>h. db\<lparr>evidence_validation_history := evidence_validation_history db @ [h]\<rparr>"
    have ins: "insert_history db h = map_sum id ?tx (checked_history h)"
      if "validation_row d e i StatusReceived r = Some h" for h
      using validation_row_fields(1,7) [OF that] fresh u no ex
      by (simp add: insert_history_def checked_history_def fresh_env_def)
    let ?tx2 = "\<lambda>h. ?tx h\<lparr>evidence_packages :=
      map (decided (p_evidence_package_id q) (v_validation_status r)) (evidence_packages db)\<rparr>"
    have upd: "update_status d (?tx h) i (v_validation_status r) =
        map_sum id (\<lambda>_. ?tx2 h) (update_outcome d q (v_validation_status r))" for h
      using update_status_outcome [OF inv q u, of "?tx h"] by simp
    have eff: "custody_effect (Decide (p_evidence_package_id q) (v_validation_status r) h rows) db =
        ?tx2 h\<lparr>evidence_outbox := evidence_outbox db @ rows\<rparr>" for h rows
      by (cases db) simp
    have enq: "enqueue_outbox L d st e (?tx2 h) ''evidence.validation.recorded'' TopicValidation (v_correlation_id r) i
        (recorded_payload i StatusReceived r) (v_occurred_at r) =
      map_sum id (\<lambda>rows. custody_effect (Decide (p_evidence_package_id q) (v_validation_status r) h rows) db)
        (decided_outcome L d st e q i r)" for h
      unfolding decided_outcome_def eff
      by (subst enqueue_outcome [OF u]) (use fresh ex in \<open>simp_all add: fresh_env_def package_exists_def image_image\<close>)
    show ?thesis
      unfolding record_validation_def lock dec
      using True no prior ins upd enq
      by (auto simp: call_def bind_params_def split: option.split sum.split)
  qed
qed

lemma same_view_decided:
  assumes "same_view V t db1 db2" and stable: "\<And>p s. V (p\<lparr>p_validation_status := s\<rparr>) = V p"
  shows "same_view V t (custody_effect (Decide u s h rows) db1) (custody_effect (Decide u s h rows) db2)"
proof -
  have same: "V (decided u s p) = V p" "p_classification (decided u s p) = p_classification p"
    "p_received_at (decided u s p) = p_received_at p" for p
    by (simp_all add: decided_def stable)
  have one: "agree V (decided u s p) (decided u s q)" if a: "agree V p q" for p q
  proof (cases "V p \<or> V q")
    case True
    then show ?thesis using agree_seen [OF a] by simp
  next
    case False
    then show ?thesis using a by (simp add: agree_def same)
  qed
  have "tenant_packages (custody_effect (Decide u s h rows) db) t = map (decided u s) (tenant_packages db t)" for db
    by (simp add: tenant_packages_def filter_map o_def)
  then show ?thesis
    using assms(1) one by (auto simp: same_view_def list_all2_map1 list_all2_map2 elim: list_all2_mono)
qed

lemma record_same:
  assumes "db_inv db1" "db_inv db2" and "fresh_env e db1" "fresh_env e db2" and view: "same_view V t db1 db2"
    and stable: "\<And>p s. V (p\<lparr>p_validation_status := s\<rparr>) = V p"
    and q: "q \<in> set (evidence_packages db1)" "q \<in> set (evidence_packages db2)"
    and u: "d_uuid d i = Some (p_evidence_package_id q)"
    and "record_validation L d st e db1 i r = (res1, db1')" and "record_validation L d st e db2 i r = (res2, db2')"
  shows "res1 = res2 \<and> same_view V t db1' db2' \<and>
    (\<exists>q'. q' \<in> set (evidence_packages db1') \<and> q' \<in> set (evidence_packages db2') \<and>
       p_evidence_package_id q' = p_evidence_package_id q)"
proof -
  have "res1 = res2 \<and> (db1' = db1 \<and> db2' = db2 \<or>
      (\<exists>h rows. db1' = custody_effect (Decide (p_evidence_package_id q) (v_validation_status r) h rows) db1 \<and>
         db2' = custody_effect (Decide (p_evidence_package_id q) (v_validation_status r) h rows) db2))"
    using assms(10,11)
    unfolding record_outcome [OF assms(1,3) q(1) u] record_outcome [OF assms(2,4) q(2) u]
    by (auto simp: commit_def split: if_splits sum.splits commit_outcome.splits simp del: custody_effect.simps)
  then show ?thesis
  proof (elim conjE disjE exE)
    fix h rows
    let ?f = "custody_effect (Decide (p_evidence_package_id q) (v_validation_status r) h rows)"
    let ?q = "decided (p_evidence_package_id q) (v_validation_status r) q"
    assume eq: "res1 = res2" "db1' = ?f db1" "db2' = ?f db2"
    have "?q \<in> set (evidence_packages db1')" "?q \<in> set (evidence_packages db2')" using q eq by simp_all
    then show ?thesis
      using eq(1) same_view_decided [OF view stable] unfolding eq(2,3) by (metis decided_simps(1))
  qed (use q view in blast)
qed

lemma list_same:
  assumes "same_view V t db1 db2"
  shows "rel_sum (=) (list_all2 (agree V)) (list_packages d e db1 t limit offset) (list_packages d e db2 t limit offset)"
proof -
  have "list_all2 (agree V)
      (take n (drop m (sort_key list_order (filter (\<lambda>p. p_tenant_id p = t) (evidence_packages db1)))))
      (take n (drop m (sort_key list_order (filter (\<lambda>p. p_tenant_id p = t) (evidence_packages db2)))))" for n m
    using sort_agree [OF assms [unfolded same_view_def tenant_packages_def]]
    by (intro list_all2_takeI list_all2_dropI)
  then show ?thesis
    by (auto simp: list_packages_def call_def bind_params_def text_param_def split: option.split)
qed

lemma filter_seen:
  assumes "list_all2 (agree V) ps qs" and cov: "\<And>q. clearance_covers c (p_classification q) \<Longrightarrow> V q"
  shows "filter (\<lambda>q. clearance_covers c (p_classification q)) ps = filter (\<lambda>q. clearance_covers c (p_classification q)) qs"
  using assms(1)
proof (induction rule: list_all2_induct)
  case (Cons p ps q qs)
  have "p_classification p = p_classification q" using Cons.hyps(1) by (simp add: agree_def)
  moreover have "clearance_covers c (p_classification q) \<Longrightarrow> p = q" using Cons.hyps(1) cov agree_seen by blast
  ultimately show ?case using Cons.IH by auto
qed simp

subsection \<open>The endpoints on two worlds\<close>

text \<open>Two worlds in which nobody else is at work, with the same environment, that look the same.\<close>

definition twins :: "driver \<Rightarrow> (package \<Rightarrow> bool) \<Rightarrow> string \<Rightarrow> world \<Rightarrow> world \<Rightarrow> bool" where
  "twins d V t w v \<longleftrightarrow> world_inv d w \<and> world_inv d v \<and> undisturbed w \<and> undisturbed v \<and>
     wd_calls v = wd_calls w \<and> wd_tick v = wd_tick w \<and> same_view V t (wd_db w) (wd_db v)"

text \<open>The identifiers generated from now on are new.\<close>

definition fresh_ids :: "world \<Rightarrow> bool" where
  "fresh_ids w \<longleftrightarrow> (\<forall>n. wd_tick w \<le> n \<longrightarrow> fresh_env (wd_calls w n) (wd_db w))"

lemma store_call_twins:
  assumes "twins d V t w v" and "store_call f w = (r1, w')" and "store_call f v = (r2, v')"
  shows "f (wd_calls w (wd_tick w)) (wd_db w) = (r1, wd_db w')" "f (wd_calls w (wd_tick w)) (wd_db v) = (r2, wd_db v')"
    "undisturbed w'" "undisturbed v'" "wd_calls w' = wd_calls w" "wd_calls v' = wd_calls w"
    "wd_tick w' = Suc (wd_tick w)" "wd_tick v' = Suc (wd_tick w)"
  using assms store_call_alone [of w f r1 w'] store_call_alone [of v f r2 v'] by (simp_all add: twins_def)

text \<open>\<open>loadPackage\<close> gives the same on both, and leaves them as they are.\<close>

definition load_of :: "principal_id \<Rightarrow> package result \<Rightarrow> reply + package" where
  "load_of p res =
     (case res of
        Inl err \<Rightarrow> Inl (if errors_is err ErrNotFound then ErrorReply 404 ''evidence package not found''
                        else ErrorReply 500 ''evidence package query failed'')
      | Inr q \<Rightarrow>
          if p_tenant_id q \<noteq> a_tenant_id p then Inl (ErrorReply 404 ''evidence package not found'')
          else if \<not> clearance_covers (a_clearance p) (p_classification q)
          then Inl (ErrorReply 403 ''clearance does not cover the package classification'')
          else Inr q)"

lemma load_package_of: "load_package sv i p w = (case as_get (sv_store sv) i w of (res, w') \<Rightarrow> (load_of p res, w'))"
  by (auto simp: load_package_def load_of_def split: prod.split sum.split)

lemma load_of_get:
  assumes "db_inv db" and "e_fault e GetPackage = None" and "d_uuid d i = Some u"
  shows "load_of p (get d e db i) =
    (case find (\<lambda>q. p_evidence_package_id q = u) (tenant_packages db (a_tenant_id p)) of
       None \<Rightarrow> Inl (ErrorReply 404 ''evidence package not found'')
     | Some q \<Rightarrow> if \<not> clearance_covers (a_clearance p) (p_classification q)
         then Inl (ErrorReply 403 ''clearance does not cover the package classification'') else Inr q)"
  using assms(2,3) unfolding find_tenant [OF assms(1)]
  by (simp add: get_def call_def select_package_def bind_params_def load_of_def split: option.split)

lemma load_same:
  assumes "db_inv db1" "db_inv db2" and "same_view V (a_tenant_id p) db1 db2"
    and cov: "\<And>q. clearance_covers (a_clearance p) (p_classification q) \<Longrightarrow> V q"
  shows "load_of p (get d e db1 i) = load_of p (get d e db2 i)"
proof (cases "e_fault e GetPackage = None \<and> d_uuid d i \<noteq> None")
  case False
  then show ?thesis by (auto simp: get_def call_def select_package_def bind_params_def split: option.split)
next
  case True
  then obtain u where u: "e_fault e GetPackage = None" "d_uuid d i = Some u" by auto
  have "rel_option (agree V) (find (\<lambda>q. p_evidence_package_id q = u) (tenant_packages db1 (a_tenant_id p)))
      (find (\<lambda>q. p_evidence_package_id q = u) (tenant_packages db2 (a_tenant_id p)))"
    by (rule find_id_agree) (rule assms(3) [unfolded same_view_def])
  then show ?thesis
    unfolding load_of_get [OF assms(1) u] load_of_get [OF assms(2) u]
  proof (cases rule: option.rel_cases)
    case (Some x y)
    have "p_classification x = p_classification y" using Some(3) by (simp add: agree_def)
    moreover have "clearance_covers (a_clearance p) (p_classification y) \<Longrightarrow> x = y" using Some(3) cov agree_seen by blast
    ultimately show "(case find (\<lambda>q. p_evidence_package_id q = u) (tenant_packages db1 (a_tenant_id p)) of
       None \<Rightarrow> Inl (ErrorReply 404 ''evidence package not found'')
     | Some q \<Rightarrow> if \<not> clearance_covers (a_clearance p) (p_classification q)
         then Inl (ErrorReply 403 ''clearance does not cover the package classification'') else Inr q) =
      (case find (\<lambda>q. p_evidence_package_id q = u) (tenant_packages db2 (a_tenant_id p)) of
       None \<Rightarrow> Inl (ErrorReply 404 ''evidence package not found'')
     | Some q \<Rightarrow> if \<not> clearance_covers (a_clearance p) (p_classification q)
         then Inl (ErrorReply 403 ''clearance does not cover the package classification'') else Inr q)"
      using Some(1,2) by auto
  qed simp
qed

lemma load_twins:
  assumes tw: "twins d V (a_tenant_id p) w v" and sv: "sv_store sv = evidence_store L d st"
    and cov: "\<And>q. clearance_covers (a_clearance p) (p_classification q) \<Longrightarrow> V q"
    and l: "load_package sv i p w = (r1, w')" "load_package sv i p v = (r2, v')"
  shows "r1 = r2 \<and> wd_db w' = wd_db w \<and> wd_db v' = wd_db v \<and> twins d V (a_tenant_id p) w' v' \<and> wd_calls w' = wd_calls w
    \<and> wd_tick w' = Suc (wd_tick w)"
proof -
  let ?f = "\<lambda>e db. (get d e db i, db)"
  obtain g1 where g1: "store_call ?f w = (g1, w')" "r1 = load_of p g1"
    using l(1) by (auto simp: load_package_of sv evidence_store_def split: prod.splits)
  obtain g2 where g2: "store_call ?f v = (g2, v')" "r2 = load_of p g2"
    using l(2) by (auto simp: load_package_of sv evidence_store_def split: prod.splits)
  note c = store_call_twins [OF tw g1(1) g2(1)]
  have inv: "world_inv d w'" "world_inv d v'"
    using pg.load_package_evolves [OF sv _ l(1)] pg.load_package_evolves [OF sv _ l(2)] tw by (auto simp: twins_def)
  have "r1 = r2"
    using load_same [of "wd_db w" "wd_db v" V p d "wd_calls w (wd_tick w)" i] tw cov c(1,2) g1(2) g2(2)
    by (auto simp: twins_def world_inv_def)
  then show ?thesis using c tw inv by (simp add: twins_def)
qed

lemma get_twins:
  assumes "twins d V (a_tenant_id p) w v" and "sv_store sv = evidence_store L d st" and "principal_from ctx = Some p"
    and cov: "\<And>q. clearance_covers (a_clearance p) (p_classification q) \<Longrightarrow> V q"
    and run: "get_package sv i ctx w = (r1, w')" "get_package sv i ctx v = (r2, v')"
  shows "r1 = r2 \<and> same_view V (a_tenant_id p) (wd_db w') (wd_db v')"
proof -
  obtain l1 u1 l2 u2 where l: "load_package sv i p w = (l1, u1)" "load_package sv i p v = (l2, u2)" by force
  note t = load_twins [OF assms(1,2) cov l]
  then have "r1 = r2" "w' = u1" "v' = u2"
    using run l assms(3) by (auto simp: get_package_def principal_or_fail_def split: sum.splits)
  then show ?thesis using t unfolding twins_def by blast
qed

lemma confirm_twins:
  assumes "twins d V (a_tenant_id p) w v" and "sv_store sv = evidence_store L d st" and "principal_from ctx = Some p"
    and cov: "\<And>q. clearance_covers (a_clearance p) (p_classification q) \<Longrightarrow> V q"
    and run: "confirm_upload sv i ctx w = (r1, w')" "confirm_upload sv i ctx v = (r2, v')"
  shows "r1 = r2 \<and> same_view V (a_tenant_id p) (wd_db w') (wd_db v')"
proof -
  obtain l1 u1 l2 u2 where l: "load_package sv i p w = (l1, u1)" "load_package sv i p v = (l2, u2)" by force
  note t = load_twins [OF assms(1,2) cov l]
  then have "r1 = r2" "w' = u1" "v' = u2"
    using run l assms(3) by (auto simp: confirm_upload_def principal_or_fail_def split: sum.splits option.splits)
  then show ?thesis using t unfolding twins_def by blast
qed

lemma list_twins:
  assumes tw: "twins d V (a_tenant_id p) w v" and sv: "sv_store sv = evidence_store L d st" and "principal_from ctx = Some p"
    and cov: "\<And>q. clearance_covers (a_clearance p) (p_classification q) \<Longrightarrow> V q"
    and run: "list_handler sv request ctx w = (r1, w')" "list_handler sv request ctx v = (r2, v')"
  shows "r1 = r2 \<and> same_view V (a_tenant_id p) (wd_db w') (wd_db v')"
proof -
  let ?f = "\<lambda>e db. (list_packages d e db (a_tenant_id p) (parse_limit sv request) (parse_offset request), db)"
  obtain g1 u1 g2 u2 where g: "store_call ?f w = (g1, u1)" "store_call ?f v = (g2, u2)" by force
  note c = store_call_twins [OF tw g]
  have "rel_sum (=) (list_all2 (agree V)) g1 g2" using list_same c(1,2) tw by (auto simp: twins_def)
  then have "r1 = r2" "w' = u1" "v' = u2"
    using run g assms(3) filter_seen [OF _ cov]
    by (auto simp: list_handler_def principal_or_fail_def sv evidence_store_def Let_def elim!: rel_sum.cases)
  then show ?thesis using c tw by (simp add: twins_def)
qed

lemma create_twins:
  assumes tw: "twins d V (a_tenant_id p) w v" and sv: "sv_store sv = evidence_store L d st" and pr: "principal_from ctx = Some p"
    and fresh: "fresh_ids w" "fresh_ids v"
    and key: "\<And>b q. decode_json create_body_fields request = Inr b \<Longrightarrow>
      d_uuid d (b ''idempotency_key'') = Some (p_idempotency_key q) \<Longrightarrow> V q"
    and run: "create_package ipl sv request ctx w = (r1, w')" "create_package ipl sv request ctx v = (r2, v')"
  shows "r1 = r2 \<and> same_view V (a_tenant_id p) (wd_db w') (wd_db v')"
proof (cases "\<exists>b t. trim_space (a_tenant_id p) \<noteq> [] \<and> decode_json create_body_fields request = Inr b \<and>
    parse_time (b ''received_at'') = Inr t")
  case False
  then have "r1 = r2 \<and> w' = w \<and> v' = v"
    using run pr by (auto simp: create_package_def principal_or_fail_def split: sum.splits if_splits)
  then show ?thesis using tw by (simp add: twins_def)
next
  case True
  then obtain b t where b: "trim_space (a_tenant_id p) \<noteq> []" "decode_json create_body_fields request = Inr b"
    "parse_time (b ''received_at'') = Inr t" by blast
  define req where "req = \<lparr>cr_idempotency_key = b ''idempotency_key'', cr_tenant_id = a_tenant_id p,
      cr_external_reference = b ''external_reference'', cr_evidence_type = b ''evidence_type'',
      cr_content_sha256 = b ''content_sha256'',
      cr_content_location = server_object_location sv (b ''idempotency_key''),
      cr_received_at = t, cr_classification = b ''classification'', cr_correlation_id = b ''correlation_id''\<rparr>"
  let ?f = "\<lambda>e db. create L d st e db req"
  obtain g1 u1 g2 u2 where g: "store_call ?f w = (g1, u1)" "store_call ?f v = (g2, u2)" by force
  note c = store_call_twins [OF tw g]
  have t: "cr_tenant_id req = a_tenant_id p" "cr_idempotency_key req = b ''idempotency_key''" by (simp_all add: req_def)
  have "g1 = g2 \<and> same_view V (cr_tenant_id req) (wd_db u1) (wd_db u2)"
    by (rule create_same [OF _ _ _ _ _ c(1,2)])
      (use tw fresh key b(2) t in \<open>auto simp: twins_def world_inv_def world_laws_def fresh_ids_def\<close>)
  then have same: "g1 = g2" "same_view V (a_tenant_id p) (wd_db u1) (wd_db u2)" using t by simp_all
  note eqs = run [unfolded create_package_def principal_or_fail_def pr option.case sum.case b Let_def,
      folded req_def, unfolded sv evidence_store_def api_store.select_convs g prod.case]
  show ?thesis
  proof (cases "create_validate ipl req")
    case None
    then have "r1 = r2 \<and> w' = u1 \<and> v' = u2"
      using eqs same(1) b(1) by (auto split: sum.splits if_splits prod.splits)
    then show ?thesis using same(2) by simp
  next
    case (Some err)
    then have "r1 = r2 \<and> w' = w \<and> v' = v" using eqs b(1) by auto
    then show ?thesis using tw by (simp add: twins_def)
  qed
qed

lemma validation_twins:
  assumes tw: "twins d V (a_tenant_id p) w v" and sv: "sv_store sv = evidence_store L d st" and pr: "principal_from ctx = Some p"
    and fresh: "fresh_ids w" "fresh_ids v"
    and cov: "\<And>q. clearance_covers (a_clearance p) (p_classification q) \<Longrightarrow> V q"
    and stable: "\<And>p s. V (p\<lparr>p_validation_status := s\<rparr>) = V p"
    and run: "post_validation sv i request ctx w = (r1, w')" "post_validation sv i request ctx v = (r2, v')"
  shows "r1 = r2 \<and> same_view V (a_tenant_id p) (wd_db w') (wd_db v')"
proof -
  obtain l1 u1 l2 u2 where l: "load_package sv i p w = (l1, u1)" "load_package sv i p v = (l2, u2)" by force
  note t = load_twins [OF tw sv cov l]
  then have tw1: "twins d V (a_tenant_id p) u1 u2" and l12: "l1 = l2"
    and fr: "fresh_env (wd_calls u1 (wd_tick u1)) (wd_db u1)" "fresh_env (wd_calls u1 (wd_tick u1)) (wd_db u2)"
    using fresh tw by (auto simp: fresh_ids_def twins_def)
  show ?thesis
  proof (cases "\<exists>q b t. l1 = Inr q \<and> decode_json validation_body_fields request = Inr b \<and>
      parse_time (b ''occurred_at'') = Inr t \<and>
      validation_validate \<lparr>v_validation_status = b ''validation_status'', v_reason_code = b ''reason_code'',
        v_actor_subject_reference = a_subject p, v_occurred_at = t, v_correlation_id = b ''correlation_id''\<rparr> = None")
    case False
    then have "r1 = r2 \<and> w' = u1 \<and> v' = u2"
      using run l l12 pr by (auto simp: post_validation_def principal_or_fail_def Let_def split: sum.splits option.splits)
    then show ?thesis using tw1 by (simp add: twins_def)
  next
    case True
    then obtain q b x where q: "l1 = Inr q" and b: "decode_json validation_body_fields request = Inr b"
      "parse_time (b ''occurred_at'') = Inr x" by blast
    define vr where "vr = \<lparr>v_validation_status = b ''validation_status'', v_reason_code = b ''reason_code'',
        v_actor_subject_reference = a_subject p, v_occurred_at = x, v_correlation_id = b ''correlation_id''\<rparr>"
    have ok: "validation_validate vr = None" using True b by (auto simp: vr_def)
    let ?f = "\<lambda>e db. record_validation L d st e db i vr" and ?g = "\<lambda>e db. (get d e db i, db)"
    obtain g1 x1 g2 x2 where g: "store_call ?f u1 = (g1, x1)" "store_call ?f u2 = (g2, x2)" by force
    obtain h1 y1 h2 y2 where h: "store_call ?g x1 = (h1, y1)" "store_call ?g x2 = (h2, y2)" by force
    note c = store_call_twins [OF tw1 g]
    have both: "as_get (evidence_store L d st) i w = (Inr q, u1)" "as_get (evidence_store L d st) i v = (Inr q, u2)"
      using pg.load_package_Inr [OF sv l(1) [unfolded q]] pg.load_package_Inr [OF sv l(2) [unfolded l12 [symmetric] q]]
      by simp_all
    then have uq: "d_uuid d i = Some (p_evidence_package_id q)" "q \<in> set (evidence_packages (wd_db u1))"
        "q \<in> set (evidence_packages (wd_db u2))"
      using alone_get [of w L d st i "Inr q" u1] alone_get [of v L d st i "Inr q" u2] get_Inr tw
      by (metis twins_def)+
    have inv: "db_inv (wd_db u1)" "db_inv (wd_db u2)" and view: "same_view V (a_tenant_id p) (wd_db u1) (wd_db u2)"
      using tw1 by (simp_all add: twins_def world_inv_def)
    from record_same [OF inv fr view stable uq(2,3,1) c(1,2)] obtain q' where
      same: "g1 = g2" "same_view V (a_tenant_id p) (wd_db x1) (wd_db x2)" and
      q': "q' \<in> set (evidence_packages (wd_db x1))" "q' \<in> set (evidence_packages (wd_db x2))"
        "p_evidence_package_id q' = p_evidence_package_id q" by blast
    have inv': "db_inv (wd_db x1)" "db_inv (wd_db x2)"
      using record_step [OF inv(1) c(1)] record_step [OF inv(2) c(2)] inv db_inv_step by metis+
    have reload: "get d e (wd_db x1) i = get d e (wd_db x2) i" for e
      using id_find [OF inv'(1) q'(1)] id_find [OF inv'(2) q'(2)] q'(3) uq(1)
      by (simp add: get_def select_package_def bind_params_def)
    have y: "h1 = h2" "wd_db y1 = wd_db x1" "wd_db y2 = wd_db x2"
      using store_call_alone [OF c(3) h(1)] store_call_alone [OF c(4) h(2)] c(5-8) reload by simp_all
    note eqs = run [unfolded post_validation_def principal_or_fail_def pr option.case sum.case l l12 [symmetric] q prod.case b Let_def,
        folded vr_def, unfolded ok option.case sv evidence_store_def api_store.select_convs g h prod.case]
    have "r1 = r2 \<and> (w' = x1 \<and> v' = x2 \<or> w' = y1 \<and> v' = y2)"
      using eqs same(1) y(1) h by (auto split: sum.splits if_splits prod.splits)
    then show ?thesis using same(2) y by auto
  qed
qed

lemma endpoint_twins:
  assumes "twins d V (a_tenant_id p) w v" and "sv_store sv = evidence_store L d st" and "principal_from ctx = Some p"
    and "fresh_ids w" "fresh_ids v"
    and cov: "\<And>q. clearance_covers (a_clearance p) (p_classification q) \<Longrightarrow> V q"
    and key: "\<And>b q. e = CreatePackage \<Longrightarrow> decode_json create_body_fields request = Inr b \<Longrightarrow>
      d_uuid d (b ''idempotency_key'') = Some (p_idempotency_key q) \<Longrightarrow> V q"
    and stable: "\<And>p s. V (p\<lparr>p_validation_status := s\<rparr>) = V p"
    and run: "endpoint_reply ipl sv e i request ctx w = (r1, w')" "endpoint_reply ipl sv e i request ctx v = (r2, v')"
  shows "r1 = r2 \<and> same_view V (a_tenant_id p) (wd_db w') (wd_db v')"
proof (cases e)
  case CreatePackage
  show ?thesis
    by (rule create_twins [OF assms(1-5) key [OF CreatePackage]]) (use run CreatePackage in \<open>simp_all add: endpoint_reply_def\<close>)
next
  case ListPackagesRoute
  show ?thesis
    by (rule list_twins [OF assms(1-3) cov]) (use run ListPackagesRoute in \<open>simp_all add: endpoint_reply_def\<close>)
next
  case GetPackageRoute
  show ?thesis
    by (rule get_twins [OF assms(1-3) cov]) (use run GetPackageRoute in \<open>simp_all add: endpoint_reply_def\<close>)
next
  case RecordValidationRoute
  show ?thesis
    by (rule validation_twins [OF assms(1-5) cov stable]) (use run RecordValidationRoute in \<open>simp_all add: endpoint_reply_def\<close>)
next
  case ConfirmUpload
  show ?thesis
    by (rule confirm_twins [OF assms(1-3) cov]) (use run ConfirmUpload in \<open>simp_all add: endpoint_reply_def\<close>)
qed

subsection \<open>The service\<close>

text \<open>
  What the request of a principal entitles it to see in full, of its own tenant: the packages its clearance
  covers, and for a creation the package that has the idempotency key of the request already (an
  idempotent retry is answered with the retained package, whatever its classification).
\<close>

definition sees :: "driver \<Rightarrow> principal_id \<Rightarrow> http_request \<Rightarrow> package \<Rightarrow> bool" where
  "sees d p request q \<longleftrightarrow>
     clearance_covers (a_clearance p) (p_classification q) \<or>
     (\<exists>ids b. route routes (rq_method request) (rq_path request) = Routed (Endpoint CreatePackage) ids \<and>
        decode_json create_body_fields request = Inr b \<and>
        d_uuid d (b ''idempotency_key'') = Some (p_idempotency_key q))"

text \<open>
  (C1) Isolation. Take two states of the service that agree on what an authenticated request may see: of the
  packages of the principal's tenant all that \<open>sees\<close> grants, and of its other packages only identifier,
  classification and place in the listing; packages of other tenants, their number included, may differ in any
  way. Then the request gets the same answer, byte for byte, in both, by whichever route; the two states agree
  in the same way afterwards; and no row of another tenant (package, history or event) has changed. So
  nothing about another tenant, and nothing but the existence of a package above the clearance, reaches the
  caller. The object store is the same in both, no one else is at work, and generated identifiers are new.
\<close>

theorem service_isolation:
  assumes "world_inv d w" "world_inv d v" and "undisturbed w" "undisturbed v"
    and "wd_calls v = wd_calls w" "wd_tick v = wd_tick w" and "fresh_ids w" "fresh_ids v"
    and "sv_store sv = evidence_store L d st"
    and "oidc_authenticate R env auth request = (Inr p, auth')"
    and "list_all2 (agree (sees d p request))
      (tenant_packages (wd_db w) (a_tenant_id p)) (tenant_packages (wd_db v) (a_tenant_id p))"
    and "server_handler ipl sv (oidc_authenticate R env) request (auth, w) = (resp1, auth1, w')"
    and "server_handler ipl sv (oidc_authenticate R env) request (auth, v) = (resp2, auth2, v')"
  shows "resp1 = resp2 \<and>
    list_all2 (agree (sees d p request))
      (tenant_packages (wd_db w') (a_tenant_id p)) (tenant_packages (wd_db v') (a_tenant_id p)) \<and>
    (\<forall>t. t \<noteq> a_tenant_id p \<longrightarrow> tenant_rows (wd_db w') t = tenant_rows (wd_db w) t)"
proof -
  have pr: "principal_from (Some p) = Some p" using oidc.principal_available [OF assms(10)] .
  have m: "mux ipl sv request (Some p) w = (resp1, w')" "mux ipl sv request (Some p) v = (resp2, v')"
    using assms(10,12,13)
    by (auto simp: server_handler_def middleware_def with_principal_def split: prod.splits)
  have tw: "twins d (sees d p request) (a_tenant_id p) w v"
    using assms(1-6,11) by (simp add: twins_def same_view_def)
  show ?thesis
  proof (cases "\<exists>e ids. route routes (rq_method request) (rq_path request) = Routed (Endpoint e) ids \<and>
      list_ex (has_role p) (route_roles e)")
    case False
    then have "resp1 = resp2 \<and> w' = w \<and> v' = v"
      using m pr by (auto simp: mux_def require_roles_def healthz_def split: routed.splits route_target.splits)
    then show ?thesis using assms(11) by simp
  next
    case True
    then obtain e ids where e: "route routes (rq_method request) (rq_path request) = Routed (Endpoint e) ids"
      "list_ex (has_role p) (route_roles e)" by blast
    let ?i = "case ids of [] \<Rightarrow> [] | i # _ \<Rightarrow> i"
    obtain r1 u1 r2 u2 where r: "endpoint_reply ipl sv e ?i request (Some p) w = (r1, u1)"
      "endpoint_reply ipl sv e ?i request (Some p) v = (r2, u2)" by force
    have eq: "resp1 = write_reply r1" "w' = u1" "resp2 = write_reply r2" "v' = u2"
      using m r e pr by (simp_all add: mux_def require_roles_def endpoint_handler_def)
    have "r1 = r2 \<and> same_view (sees d p request) (a_tenant_id p) (wd_db u1) (wd_db u2)"
      by (rule endpoint_twins [OF tw assms(9) pr assms(7,8) _ _ _ r]) (use e in \<open>auto simp: sees_def\<close>)
    then show ?thesis
      using eq alone_endpoint [OF assms(3,1,9) pr r(1)] by (simp add: same_view_def)
  qed
qed

end
