(* ===== verification/Api_Samples.thy ===== *)
theory Api_Samples
  imports Api_Isolation Evidence_Samples Auth_Samples
begin

text \<open>
  The service on concrete requests: a bearer of the sample realm creates a package and reads it, another
  tenant uses the same idempotency key, and a decision is taken. The witnesses of the API's theorems.
\<close>

definition create_json :: string where
  "create_json = render (JObj [(''idempotency_key'', jstr id_a), (''external_reference'', jstr ''ref''),
     (''evidence_type'', jstr ''log''), (''content_sha256'', jstr sample_digest),
     (''received_at'', jstr ''2023-11-14T22:13:20Z''), (''classification'', jstr ''internal''),
     (''correlation_id'', jstr id_b)])"

definition decide_json :: string where
  "decide_json = render (JObj [(''validation_status'', jstr ''validated''), (''reason_code'', jstr ''ok''),
     (''occurred_at'', jstr ''2023-11-14T22:13:21Z''), (''correlation_id'', jstr id_b)])"

definition with_body :: "string \<Rightarrow> http_request \<Rightarrow> http_request" where
  "with_body content r = r\<lparr>rq_body := \<lparr>b_bytes = content, b_fault = None\<rparr>\<rparr>"

definition create_post :: http_request where
  "create_post = with_body create_json (bearing ''POST'' ''/v1/evidence/packages'')"

definition decide_post :: http_request where
  "decide_post = with_body decide_json (bearing ''POST'' (''/v1/evidence/packages/'' @ id_c @ ''/validations''))"

definition sample_server :: "world server" where
  "sample_server = \<lparr>sv_store = evidence_store sample_libs sample_driver new_store,
     sv_objects = client_store (sample_sdk (\<lambda>_. None)) sample_client, sv_bucket = ''bucket'',
     sv_limits = \<lparr>ll_default = 50, ll_max = 200\<rparr>\<rparr>"

definition sample_world :: world where
  "sample_world = \<lparr>wd_db = empty_database,
     wd_calls = (\<lambda>n. if n = 0 then env_at id_c id_d id_e CommitOk else env_at id_d id_e id_c CommitOk),
     wd_others = (\<lambda>_ db. db), wd_tick = 0\<rparr>"

definition bob :: principal_id where
  "bob = alice\<lparr>a_subject := ''bob'', a_tenant_id := ''other''\<rparr>"

definition ipl0 :: "string \<Rightarrow> string option" where "ipl0 = (\<lambda>_. None)"

lemma sample_server_new:
  "new_server (Some (evidence_store sample_libs sample_driver new_store))
     (Some (client_store (sample_sdk (\<lambda>_. None)) sample_client)) ''bucket'' \<lparr>ll_default = 50, ll_max = 200\<rparr>
   = Inr sample_server"
proof -
  have "trim_space ''bucket'' \<noteq> []" by code_simp
  then show ?thesis by (simp add: new_server_def sample_server_def)
qed

lemma sample_server_store: "sv_store sample_server = evidence_store sample_libs sample_driver new_store"
  by (simp add: sample_server_def)

lemma sample_env_laws: "env_laws sample_driver (env_at id_c h ob c)" "env_laws sample_driver (env_at id_d h ob c)"
proof -
  have "d_uuid sample_driver id_c = Some id_c" "d_uuid sample_driver id_d = Some id_d" by code_simp+
  then show "env_laws sample_driver (env_at id_c h ob c)" "env_laws sample_driver (env_at id_d h ob c)"
    by (simp_all add: env_laws_def env_at_def)
qed

lemma sample_world_laws: "world_laws sample_driver sample_world" "undisturbed sample_world"
  by (simp_all add: world_laws_def sample_world_def sample_env_laws undisturbed_def)

lemma sample_world_inv: "world_inv sample_driver sample_world"
  using sample_world_laws by (simp add: world_inv_def sample_world_def db_inv_empty)

definition created_world :: world where
  "created_world = snd (create_package ipl0 sample_server create_post (Some alice) sample_world)"

definition created_upload :: upload_descriptor where
  "created_upload = \<lparr>ud_method = ''PUT'', ud_url = ''evidence/'' @ id_a,
     ud_headers = [(''x-amz-checksum-sha256'', ''qqqqqqqqqqqqqqqqqqqqqqqqqqqqqqqqqqqqqqqqqqo='')],
     ud_expires_at = 900 * nano\<rparr>"

definition created_package :: package where
  "created_package = sample_package\<lparr>p_content_location := ''s3://bucket/evidence/'' @ id_a\<rparr>"

lemma run_create_package:
  "fst (create_package ipl0 sample_server create_post (Some alice) sample_world) =
     JsonReply 201 [(''package'', PPackage created_package), (''upload'', PUpload created_upload)]"
  by code_simp

lemma create_created:
  "create_package ipl0 sample_server create_post (Some alice) sample_world =
     (JsonReply 201 [(''package'', PPackage created_package), (''upload'', PUpload created_upload)], created_world)"
  using run_create_package by (simp add: created_world_def prod_eq_iff)

lemma principal_samples [simp]: "principal_from (Some alice) = Some alice" "principal_from (Some bob) = Some bob"
  "a_tenant_id alice = ''tenant''" "a_tenant_id bob = ''other''"
  by (simp_all add: principal_from_def alice_def bob_def)

lemma created_inv: "world_inv sample_driver created_world"
  using pg.create_package_evolves [OF sample_server_store sample_world_inv create_created] by blast

lemma created_calls: "wd_calls created_world (wd_tick created_world) = env_at id_d id_e id_c CommitOk"
proof -
  obtain req pk fresh where "as_create (sv_store sample_server) req sample_world = (Inr (pk, fresh), created_world)"
    by (rule create_package_granted [OF create_created])
  from store_call_alone [OF sample_world_laws(2) this [unfolded sample_server_store evidence_store_def, simplified]]
  show ?thesis by (simp add: sample_world_def)
qed

lemma created_package_readable_witness:
  "\<exists>q key v'. get_package sample_server (p_evidence_package_id created_package) (Some alice) created_world =
     (JsonReply 200 [(''package'', PPackage q), (''download'', PDownload \<lparr>dd_method = ''GET'', dd_url = key,
        dd_expires_at = 900 * nano\<rparr>)], v')"
proof -
  let ?kvs = "[(''package'', PPackage created_package), (''upload'', PUpload created_upload)]"
  have cov: "clearance_covers (a_clearance alice) (p_classification created_package)" by code_simp
  have dis: "disclosed (JsonReply 201 ?kvs) = [created_package]" unfolding disclosed_simps payload_packages_simps by simp
  have "\<exists>pk q key v'. disclosed (JsonReply 201 [(''package'', PPackage created_package), (''upload'', PUpload created_upload)]) = [pk]
     \<and> successor pk q \<and> get_package sample_server (p_evidence_package_id pk) (Some alice) created_world =
      (JsonReply 200 [(''package'', PPackage q), (''download'', PDownload \<lparr>dd_method = ''GET'', dd_url = key,
        dd_expires_at = 900 * nano\<rparr>)], v') \<and> object_key sample_server (p_content_location pk) = Inr key"
  proof (rule created_package_readable [OF sample_world_inv sample_server_store _ create_created created_inv])
    show "world_evolves created_world created_world" by (simp add: world_evolves_def)
    show "e_fault (wd_calls created_world (wd_tick created_world)) GetPackage = None"
      by (simp add: created_calls env_at_def)
    show "\<forall>key. os_presigned_download (sv_objects sample_server) key =
        Inr \<lparr>dd_method = ''GET'', dd_url = key, dd_expires_at = 900 * nano\<rparr>"
      by (simp add: sample_server_def client_store_def presigned_download_def sample_sdk_def sample_client_def
          sample_object_config_def Let_def)
    show "principal_from (Some alice) = Some alice" "principal_from (Some alice) = Some alice" by simp_all
    show "a_tenant_id alice = a_tenant_id alice" by (rule refl)
    show "\<forall>q \<in> set (disclosed (JsonReply 201 ?kvs)). clearance_covers (a_clearance alice) (p_classification q)"
      unfolding dis using cov by simp
  qed
  then show ?thesis by auto
qed

lemma run_decide:
  "fst (post_validation sample_server id_c decide_post (Some alice) created_world) =
     JsonReply 201 [(''package'', PPackage (created_package\<lparr>p_validation_status := ''validated''\<rparr>)),
       (''validation_status'', PText ''validated'')]"
  by code_simp

definition decided_world :: world where
  "decided_world = snd (post_validation sample_server id_c decide_post (Some alice) created_world)"

text \<open>The world after one more request, which asks for the decision again.\<close>

definition later_world :: world where
  "later_world = snd (serve_all ipl0 sample_server sample_rsa (sample_oidc, decided_world) [(sample_oidc_env, decide_post)])"

lemma decision_final_witness:
  "\<exists>p. d_uuid sample_driver id_c = Some (p_evidence_package_id p) \<and> p_validation_status p = ''validated'' \<and>
     p \<in> set (evidence_packages (wd_db later_world)) \<and>
     map h_validation_status (history_of (wd_db later_world) (p_evidence_package_id p)) = [StatusReceived, ''validated''] \<and>
     \<not> granted (fst (post_validation sample_server id_c decide_post (Some alice) later_world))"
proof -
  have d: "post_validation sample_server id_c decide_post (Some alice) created_world =
      (JsonReply 201 [(''package'', PPackage (created_package\<lparr>p_validation_status := ''validated''\<rparr>)),
       (''validation_status'', PText ''validated'')], decided_world)"
    by (simp add: decided_world_def run_decide prod_eq_iff)
  have s: "serve_all ipl0 sample_server sample_rsa (sample_oidc, decided_world) [(sample_oidc_env, decide_post)] =
      (fst (serve_all ipl0 sample_server sample_rsa (sample_oidc, decided_world) [(sample_oidc_env, decide_post)]), later_world)"
    by (simp add: later_world_def)
  have "(case decode_json validation_body_fields decide_post of Inl _ \<Rightarrow> [] | Inr b \<Rightarrow> b ''validation_status'') = ''validated''"
    by code_simp
  then have b: "decode_json validation_body_fields decide_post = Inr b \<Longrightarrow> b ''validation_status'' = ''validated''" for b
    by simp
  show ?thesis
    using decision_final [OF created_inv sample_server_store d s] b by metis
qed

lemma run_bob:
  "fst (create_package ipl0 sample_server create_post (Some bob) created_world) =
     JsonReply 201 [(''package'', PPackage (created_package\<lparr>p_evidence_package_id := id_d, p_tenant_id := ''other''\<rparr>)),
       (''upload'', PUpload created_upload)]"
  by code_simp

definition sample_create_fields :: "string \<Rightarrow> string" where
  "sample_create_fields = (case decode_json create_body_fields create_post of Inr b \<Rightarrow> b | Inl _ \<Rightarrow> (\<lambda>_. []))"

lemma object_shared_across_tenants_witness:
  "p_tenant_id created_package \<noteq> ''other'' \<and>
   object_key sample_server (p_content_location created_package) =
   object_key sample_server (p_content_location (created_package\<lparr>p_evidence_package_id := id_d, p_tenant_id := ''other''\<rparr>))"
proof -
  have "isl (decode_json create_body_fields create_post) = False" by code_simp
  then have b: "decode_json create_body_fields create_post = Inr sample_create_fields"
    by (cases "decode_json create_body_fields create_post") (simp_all add: sample_create_fields_def)
  have r: "create_package ipl0 sample_server create_post (Some bob) created_world =
     (JsonReply 201 [(''package'', PPackage (created_package\<lparr>p_evidence_package_id := id_d, p_tenant_id := ''other''\<rparr>)),
       (''upload'', PUpload created_upload)], snd (create_package ipl0 sample_server create_post (Some bob) created_world))"
    by (simp add: run_bob prod_eq_iff)
  have "p_tenant_id created_package = ''tenant''" by (simp add: created_package_def sample_package_def)
  then show ?thesis
    using object_shared_across_tenants [OF sample_world_inv created_inv sample_server_store create_created r b b refl]
    by simp
qed

lemma run_route: "route routes ''POST'' ''/v1/evidence/packages'' = Routed (Endpoint CreatePackage) []"
  by code_simp

lemma alice_creates:
  "server_handler ipl0 sample_server (oidc_authenticate sample_rsa sample_oidc_env) create_post (sample_oidc, sample_world) =
     (write_reply (JsonReply 201 [(''package'', PPackage created_package), (''upload'', PUpload created_upload)]),
      sample_loaded, created_world)"
proof -
  have "oidc_authenticate sample_rsa sample_oidc_env sample_oidc create_post = (Inr alice, sample_loaded)"
    by (rule run_oidc) (simp add: create_post_def with_body_def)
  moreover have "rq_method create_post = ''POST''" "rq_path create_post = ''/v1/evidence/packages''"
    by (simp_all add: create_post_def with_body_def bearing_def)
  moreover have "list_ex (has_role alice) (route_roles CreatePackage)" by code_simp
  ultimately show ?thesis
    by (simp add: server_handler_def middleware_def mux_def run_route require_roles_def with_principal_def
        endpoint_handler_def endpoint_reply_def create_created)
qed

text \<open>
  Two worlds for a reader of the tenant of alice: in one bob has created a package in his tenant, in the other he
  has not. Reading that package is answered in the same way in both.
\<close>

definition bob_world :: world where
  "bob_world = snd (create_package ipl0 sample_server create_post (Some bob) sample_world)"

definition lonely_world :: world where
  "lonely_world = sample_world\<lparr>wd_tick := 1\<rparr>"

definition read_request :: http_request where
  "read_request = bearing ''GET'' (''/v1/evidence/packages/'' @ id_c)"

lemma bob_package: "evidence_packages (wd_db bob_world) = [created_package\<lparr>p_tenant_id := ''other''\<rparr>]"
  by code_simp

lemma bob_other_rows: "evidence_outbox (wd_db bob_world) = []"
    "map h_validation_history_id (evidence_validation_history (wd_db bob_world)) = [id_d]"
  by code_simp+

lemma bob_creates: "create_package ipl0 sample_server create_post (Some bob) sample_world =
    (JsonReply 201 [(''package'', PPackage (created_package\<lparr>p_tenant_id := ''other''\<rparr>)), (''upload'', PUpload created_upload)],
     bob_world)"
proof -
  have "fst (create_package ipl0 sample_server create_post (Some bob) sample_world) =
      JsonReply 201 [(''package'', PPackage (created_package\<lparr>p_tenant_id := ''other''\<rparr>)), (''upload'', PUpload created_upload)]"
    by code_simp
  then show ?thesis by (simp add: bob_world_def prod_eq_iff)
qed

lemma bob_world_facts: "world_inv sample_driver bob_world" "undisturbed bob_world" "wd_tick bob_world = 1"
  "wd_calls bob_world = wd_calls sample_world"
proof -
  show "world_inv sample_driver bob_world"
    using pg.create_package_evolves [OF sample_server_store sample_world_inv bob_creates] by blast
  obtain req pk fresh where "as_create (sv_store sample_server) req sample_world = (Inr (pk, fresh), bob_world)"
    by (rule create_package_granted [OF bob_creates])
  from store_call_alone [OF sample_world_laws(2) this [unfolded sample_server_store evidence_store_def, simplified]]
  show "undisturbed bob_world" "wd_tick bob_world = 1" "wd_calls bob_world = wd_calls sample_world"
    by (simp_all add: sample_world_def)
qed

lemma fresh_samples: "fresh_ids bob_world" "fresh_ids lonely_world"
proof -
  have call: "wd_calls sample_world n = env_at id_d id_e id_c CommitOk" if "1 \<le> n" for n
    using that by (simp add: sample_world_def)
  have "fresh_env (env_at id_d id_e id_c CommitOk) empty_database"
    by (simp add: fresh_env_def package_exists_def empty_database_def)
  then show "fresh_ids lonely_world" using call by (simp add: fresh_ids_def lonely_world_def) (simp add: sample_world_def)
  have "id_c \<noteq> id_d" "id_d \<noteq> id_e" by code_simp+
  moreover have "h_validation_history_id ` set (evidence_validation_history (wd_db bob_world)) = {id_d}"
    using arg_cong [OF bob_other_rows(2), of set] by simp
  ultimately have "fresh_env (env_at id_d id_e id_c CommitOk) (wd_db bob_world)"
    by (simp add: fresh_env_def package_exists_def bob_package bob_other_rows(1) env_at_def created_package_def sample_package_def)
  then show "fresh_ids bob_world" using call by (simp add: fresh_ids_def bob_world_facts)
qed

lemma service_isolation_witness:
  "fst (server_handler ipl0 sample_server (oidc_authenticate sample_rsa sample_oidc_env) read_request (sample_oidc, bob_world)) =
   fst (server_handler ipl0 sample_server (oidc_authenticate sample_rsa sample_oidc_env) read_request (sample_oidc, lonely_world)) \<and>
   evidence_packages (wd_db bob_world) \<noteq> evidence_packages (wd_db lonely_world)"
proof -
  let ?run = "\<lambda>w. server_handler ipl0 sample_server (oidc_authenticate sample_rsa sample_oidc_env) read_request (sample_oidc, w)"
  have auth: "oidc_authenticate sample_rsa sample_oidc_env sample_oidc read_request = (Inr alice, sample_loaded)"
    by (rule run_oidc) (simp add: read_request_def)
  have lonely: "world_inv sample_driver lonely_world" "undisturbed lonely_world"
    using sample_world_inv sample_world_laws by (simp_all add: lonely_world_def world_inv_def world_laws_def undisturbed_def)
  have none: "evidence_packages (wd_db lonely_world) = []" by (simp add: lonely_world_def sample_world_def empty_database_def)
  obtain r1 a1 w1 r2 a2 w2 where run: "?run bob_world = (r1, a1, w1)" "?run lonely_world = (r2, a2, w2)"
    by (metis prod.exhaust)
  have "r1 = r2"
    using service_isolation [OF bob_world_facts(1) lonely(1) bob_world_facts(2) lonely(2) _ _ fresh_samples
        sample_server_store auth _ run]
    by (simp add: bob_world_facts lonely_world_def tenant_packages_def bob_package) (simp add: sample_world_def empty_database_def)
  then show ?thesis using run none by (simp add: bob_package)
qed

lemma created_db: "wd_db created_world \<noteq> wd_db sample_world"
proof
  assume "wd_db created_world = wd_db sample_world"
  then have "evidence_packages (wd_db created_world) = []" by (simp add: sample_world_def empty_database_def)
  moreover obtain req pk fresh where c: "as_create (sv_store sample_server) req sample_world = (Inr (pk, fresh), created_world)"
    by (rule create_package_granted [OF create_created])
  ultimately show False using evidence_create [OF sample_world_inv c [unfolded sample_server_store]] by simp
qed

lemma service_writes_authorised_witness:
  "wd_db created_world \<noteq> wd_db sample_world \<and>
   (\<exists>p. oidc_authenticate sample_rsa sample_oidc_env sample_oidc create_post = (Inr p, sample_loaded))"
  using service_writes_authorised [OF sample_world_inv sample_world_laws(2) sample_server_store alice_creates] created_db
  by blast

lemma service_reachable_witness: "reachable (wd_db created_world)"
proof -
  have "reachable (wd_db sample_world)" by (simp add: sample_world_def reachable_def)
  moreover have "serve_all ipl0 sample_server sample_rsa (sample_oidc, sample_world) [(sample_oidc_env, create_post)]
      = (sample_loaded, created_world)"
    by (simp add: alice_creates)
  ultimately show ?thesis
    using service_reachable [OF sample_world_laws(1) _ sample_server_store] by blast
qed

lemma foreign_package_hidden_witness:
  "fst (endpoint_reply ipl0 sample_server GetPackageRoute id_c create_post (Some bob) sample_world) =
   fst (endpoint_reply ipl0 sample_server GetPackageRoute id_c create_post (Some bob) created_world)"
proof -
  have g: "fst (as_get (sv_store sample_server) id_c sample_world) = Inl ErrNotFound"
    "fst (as_get (sv_store sample_server) id_c created_world) = Inr created_package" by code_simp+
  obtain v' w' where "as_get (sv_store sample_server) id_c sample_world = (Inl ErrNotFound, v')"
    "as_get (sv_store sample_server) id_c created_world = (Inr created_package, w')"
    using g by (metis prod.collapse)
  moreover have "p_tenant_id created_package \<noteq> a_tenant_id bob" by (simp add: created_package_def sample_package_def)
  ultimately show ?thesis
    using foreign_package_hidden [of "Some bob" bob GetPackageRoute sample_server id_c sample_world v'
        created_world created_package w' ipl0 create_post] by simp
qed

lemma list_page_bounded_witness:
  "parse_limit sample_server (bearing ''GET'' ''/''\<lparr>rq_query := ''limit=99999999999999999999&offset=-3''\<rparr>) = 50 \<and>
   (\<exists>r w'. list_handler sample_server (bearing ''GET'' ''/''\<lparr>rq_query := ''limit=99999999999999999999&offset=-3''\<rparr>)
      (Some alice) created_world = (r, w') \<and> int (length (disclosed r)) \<le> 50)"
proof -
  let ?r = "bearing ''GET'' ''/''\<lparr>rq_query := ''limit=99999999999999999999&offset=-3''\<rparr>"
  have "parse_limit sample_server ?r = 50" by code_simp
  then show ?thesis
    using list_page_bounded [OF created_inv sample_server_new, of ?r "Some alice"] by (metis prod.exhaust)
qed

lemma object_location_consistent_witness:
  "parse_location ipl0 sample_client (server_object_location sample_server id_a) = Inr (''evidence/'' @ id_a)"
proof -
  have "list_all plain (sv_bucket sample_server)" "sv_bucket sample_server \<noteq> []" "is_uuid id_a"
    "oc_bucket (cl_config sample_client) = sv_bucket sample_server" by code_simp+
  from object_location_consistent [OF this] show ?thesis by blast
qed

end
