(* ===== verification/Outbox_Publisher.thy ===== *)
theory Outbox_Publisher
  imports Evidence_Behaviour Go_JsonDecode Go_JsonCodec
begin

text \<open>
  \<open>cmd/evidence-outbox-publisher\<close>: one batch (\<open>publishBatch\<close>) as a function of its environment, the
  database and the Kafka log, and the loop of \<open>run\<close> over batches. PostgreSQL's text of a JSONB value,
  the order of equal timestamps, the rows other sessions hold and the broker's answers are parameters.
\<close>

subsection \<open>Decoding an envelope\<close>

text \<open>
  \<open>json.Unmarshal\<close> into an \<open>Envelope\<close>. A time is its instant: the store writes UTC, and another offset
  is not kept. A \<open>fhir\<close> that does not occur is marshalled as null.
\<close>

definition empty_envelope :: envelope where
  "empty_envelope = \<lparr>e_envelope_version = [], e_event_id = [], e_event_type = [], e_occurred_at = zero_time,
     e_producer = [], e_correlation_id = [], e_classification = [], e_fhir = JNull,
     e_provenance = \<lparr>pr_principal_id = [], pr_principal_role = [], pr_signature = [], pr_ledger_commit_hash = []\<rparr>\<rparr>"

definition provenance_fields :: "string list" where
  "provenance_fields = [''principalId'', ''principalRole'', ''signature'', ''ledgerCommitHash'']"

definition provenance_field :: "string \<Rightarrow> provenance decoder" where
  "provenance_field n =
     (if n = ''principalId'' then field decode_string pr_principal_id (\<lambda>x. pr_principal_id_update (\<lambda>_. x))
      else if n = ''principalRole'' then field decode_string pr_principal_role (\<lambda>x. pr_principal_role_update (\<lambda>_. x))
      else if n = ''signature'' then field decode_string pr_signature (\<lambda>x. pr_signature_update (\<lambda>_. x))
      else field decode_string pr_ledger_commit_hash (\<lambda>x. pr_ledger_commit_hash_update (\<lambda>_. x)))"

definition envelope_fields :: "string list" where
  "envelope_fields = [''envelopeVersion'', ''eventId'', ''eventType'', ''occurredAt'', ''producer'',
     ''correlationId'', ''classification'', ''fhir'', ''provenance'']"

definition envelope_field :: "string \<Rightarrow> envelope decoder" where
  "envelope_field n =
     (if n = ''envelopeVersion'' then field decode_string e_envelope_version (\<lambda>x. e_envelope_version_update (\<lambda>_. x))
      else if n = ''eventId'' then field decode_string e_event_id (\<lambda>x. e_event_id_update (\<lambda>_. x))
      else if n = ''eventType'' then field decode_string e_event_type (\<lambda>x. e_event_type_update (\<lambda>_. x))
      else if n = ''occurredAt'' then field decode_time e_occurred_at (\<lambda>x. e_occurred_at_update (\<lambda>_. x))
      else if n = ''producer'' then field decode_string e_producer (\<lambda>x. e_producer_update (\<lambda>_. x))
      else if n = ''correlationId'' then field decode_string e_correlation_id (\<lambda>x. e_correlation_id_update (\<lambda>_. x))
      else if n = ''classification'' then field decode_string e_classification (\<lambda>x. e_classification_update (\<lambda>_. x))
      else if n = ''fhir'' then field (\<lambda>v _. Some v) e_fhir (\<lambda>x. e_fhir_update (\<lambda>_. x))
      else field (decode_struct False provenance_fields provenance_field) e_provenance
             (\<lambda>x. e_provenance_update (\<lambda>_. x)))"

definition unmarshal_envelope :: "string \<Rightarrow> envelope option" where
  "unmarshal_envelope bytes =
     Option.bind (json_all bytes) (\<lambda>v. decode_struct False envelope_fields envelope_field v empty_envelope)"

subsection \<open>The environment of a batch\<close>

record kafka_record =
  kr_topic :: string
  kr_key :: string
  kr_value :: string

text \<open>\<open>ProduceSync\<close> is acknowledged by all in-sync replicas, fails, or appends without an acknowledgement.\<close>

datatype produce_outcome = Acked | Rejected string | Unacked string

record publish_env =
  px_begin :: "string option"
  px_query :: "string option"
  px_scan :: "nat \<Rightarrow> string option"          \<comment> \<open>scanning the row with this number\<close>
  px_rows :: "string option"                 \<comment> \<open>\<open>rows.Err()\<close>\<close>
  px_order :: "outbox_row list \<Rightarrow> outbox_row list"  \<comment> \<open>the order in which rows of one timestamp come\<close>
  px_locked :: "string set"                  \<comment> \<open>events other sessions hold\<close>
  px_text :: "json \<Rightarrow> string"                \<comment> \<open>the text of a JSONB value\<close>
  px_produce :: "string \<Rightarrow> produce_outcome"
  px_mark :: "string \<Rightarrow> string option"
  px_now :: time
  px_commit :: commit_outcome
  px_evidence_service :: string

text \<open>
  What PostgreSQL documents: a query returns the rows of the table, each once, and the text of a JSONB
  value is JSON for that value (a well-formed one, within the depth Go reads).
\<close>

definition publish_laws :: "publish_env \<Rightarrow> bool" where
  "publish_laws x \<longleftrightarrow> (\<forall>rows. mset (px_order x rows) = mset rows) \<and>
     (\<forall>j. wf_json max_depth j \<longrightarrow> json_all (px_text x j) = Some j)"

subsection \<open>One batch\<close>

text \<open>
  The rows of the SELECT: unpublished, visible under the row-level policy, not locked by others, oldest
  first, at most \<open>n\<close>.
\<close>

definition select_unpublished :: "publish_env \<Rightarrow> database \<Rightarrow> nat \<Rightarrow> outbox_row list" where
  "select_unpublished x db n =
     (if px_evidence_service x \<noteq> ''on'' then []
      else take n (sort_key o_created_at (px_order x
        (filter (\<lambda>r. o_published_at r = None \<and> o_event_id r \<notin> px_locked x) (evidence_outbox db)))))"

text \<open>\<open>rows.Next\<close> and \<open>rows.Scan\<close>: event identifier, topic and payload bytes.\<close>

record pending_event =
  pe_event_id :: string
  pe_topic :: string
  pe_payload :: string

definition pending_of :: "publish_env \<Rightarrow> outbox_row \<Rightarrow> pending_event" where
  "pending_of x r = \<lparr>pe_event_id = o_event_id r, pe_topic = o_topic r, pe_payload = px_text x (o_payload r)\<rparr>"

definition scan_rows :: "publish_env \<Rightarrow> outbox_row list \<Rightarrow> pending_event list result" where
  "scan_rows x rows =
     (case find (\<lambda>i. px_scan x i \<noteq> None) [0..<length rows] of
        Some i \<Rightarrow> Inl (Wrap ''scan outbox event'' (External (the (px_scan x i))))
      | None \<Rightarrow>
          (case px_rows x of
             Some m \<Rightarrow> Inl (External m)
           | None \<Rightarrow> Inr (map (pending_of x) rows)))"

definition kafka_of :: "pending_event \<Rightarrow> kafka_record" where
  "kafka_of ev = \<lparr>kr_topic = pe_topic ev, kr_key = pe_event_id ev, kr_value = pe_payload ev\<rparr>"

text \<open>
  The loop over the pending events; \<open>n\<close> counts the published ones, \<open>tx\<close> is the state of the transaction,
  \<open>log\<close> what the topics hold. An error comes with the count, as in the Go code.
\<close>

fun publish_events ::
  "libs \<Rightarrow> publish_env \<Rightarrow> string \<Rightarrow> pending_event list \<Rightarrow> nat \<Rightarrow> database \<Rightarrow> kafka_record list
     \<Rightarrow> (nat \<times> go_error + nat) \<times> database \<times> kafka_record list" where
  "publish_events L x pk [] n tx log = (Inr n, tx, log)"
| "publish_events L x pk (ev # evs) n tx log =
     (case unmarshal_envelope (pe_payload ev) of
        None \<Rightarrow> (Inl (n, Wrap (''decode outbox envelope '' @ pe_event_id ev) (External ''json'')), tx, log)
      | Some envelope \<Rightarrow>
      case verify L envelope pk of
        Some err \<Rightarrow> (Inl (n, Wrap (''outbox envelope '' @ pe_event_id ev @ '' does not verify'') err), tx, log)
      | None \<Rightarrow>
      case px_produce x (pe_event_id ev) of
        Rejected m \<Rightarrow>
          (Inl (n, Wrap (''publish '' @ pe_event_id ev @ '' to '' @ pe_topic ev) (External m)), tx, log)
      | Unacked m \<Rightarrow>
          (Inl (n, Wrap (''publish '' @ pe_event_id ev @ '' to '' @ pe_topic ev) (External m)), tx, log @ [kafka_of ev])
      | Acked \<Rightarrow>
      (case px_mark x (pe_event_id ev) of
        Some m \<Rightarrow>
          (Inl (n, Wrap (''mark event '' @ pe_event_id ev @ '' published'') (External m)), tx, log @ [kafka_of ev])
      | None \<Rightarrow>
          publish_events L x pk evs (Suc n)
            (mark_published (px_evidence_service x = ''on'') tx (pe_event_id ev) (px_now x)) (log @ [kafka_of ev])))"

definition publish_batch ::
  "libs \<Rightarrow> publish_env \<Rightarrow> string \<Rightarrow> nat \<Rightarrow> database \<Rightarrow> kafka_record list
     \<Rightarrow> (nat \<times> go_error + nat) \<times> database \<times> kafka_record list" where
  "publish_batch L x pk batch_size db log =
     (case px_begin x of
        Some m \<Rightarrow> (Inl (0, Wrap ''begin outbox batch'' (External m)), db, log)
      | None \<Rightarrow>
      case px_query x of
        Some m \<Rightarrow> (Inl (0, Wrap ''load unpublished outbox events'' (External m)), db, log)
      | None \<Rightarrow>
      case scan_rows x (select_unpublished x db batch_size) of
        Inl err \<Rightarrow> (Inl (0, err), db, log)
      | Inr pending \<Rightarrow>
      case publish_events L x pk pending 0 db log of
        (Inl e, _, log') \<Rightarrow> (Inl e, db, log')
      | (Inr n, tx, log') \<Rightarrow>
          (case px_commit x of
             CommitOk \<Rightarrow> (Inr n, tx, log')
           | CommitFailed m \<Rightarrow> (Inl (0, Wrap ''commit outbox batch'' (External m)), db, log')
           | CommitLost m \<Rightarrow> (Inl (0, Wrap ''commit outbox batch'' (External m)), tx, log')))"

text \<open>
  The loop of \<open>run\<close>: it ends with the first error, or with nil when a batch is empty and the context is
  done by the time it waits (the flag). \<^theory_text>\<open>None\<close>: it is still running after these batches.
\<close>

fun publish_loop ::
  "libs \<Rightarrow> string \<Rightarrow> nat \<Rightarrow> (publish_env \<times> bool) list \<Rightarrow> database \<Rightarrow> kafka_record list
     \<Rightarrow> go_error option option \<times> database \<times> kafka_record list" where
  "publish_loop L pk batch_size [] db log = (None, db, log)"
| "publish_loop L pk batch_size ((x, stopped) # xs) db log =
     (case publish_batch L x pk batch_size db log of
        (Inl (_, err), db', log') \<Rightarrow> (Some (Some err), db', log')
      | (Inr n, db', log') \<Rightarrow>
          if n = 0 \<and> stopped then (Some None, db', log')
          else publish_loop L pk batch_size xs db' log')"

subsection \<open>The loop over the events\<close>

definition publishable :: "libs \<Rightarrow> string \<Rightarrow> pending_event \<Rightarrow> bool" where
  "publishable L pk ev \<longleftrightarrow> (\<exists>envelope. unmarshal_envelope (pe_payload ev) = Some envelope \<and> verify L envelope pk = None)"

text \<open>
  What a run of the loop has done when it ends: it produced a verified prefix of the events in order, and
  marked them; on an error at most one more record, of the next event, is in the log.
\<close>

definition mark_events :: "publish_env \<Rightarrow> database \<Rightarrow> pending_event list \<Rightarrow> database" where
  "mark_events x db evs =
     foldl (\<lambda>tx ev. mark_published (px_evidence_service x = ''on'') tx (pe_event_id ev) (px_now x)) db evs"

lemma publish_events_result:
  assumes "publish_events L x pk evs n tx log = (res, tx', log')"
  shows "\<exists>k done. k = length done \<and> prefix done evs \<and> list_all (publishable L pk) done \<and> tx' = mark_events x tx done \<and>
    (case res of
       Inr m \<Rightarrow> done = evs \<and> m = n + length evs \<and> log' = log @ map kafka_of evs
     | Inl (m, err) \<Rightarrow> m = n + k \<and> k < length evs \<and>
         (log' = log @ map kafka_of done \<or>
          publishable L pk (evs ! k) \<and> log' = log @ map kafka_of done @ [kafka_of (evs ! k)]))"
  using assms
proof (induction evs arbitrary: n tx log)
  case Nil
  then show ?case by (auto simp: mark_events_def)
next
  case (Cons ev evs)
  show ?case
  proof (cases "publishable L pk ev")
    case False
    then have "tx' = tx \<and> log' = log \<and> (\<exists>err. res = Inl (n, err))"
      using Cons.prems by (auto simp: publishable_def split: option.splits)
    then show ?thesis by (intro exI [of _ 0] exI [of _ "[]"]) (auto simp: mark_events_def)
  next
    case True
    then obtain env where env: "unmarshal_envelope (pe_payload ev) = Some env" "verify L env pk = None"
      by (auto simp: publishable_def)
    show ?thesis
    proof (cases "px_produce x (pe_event_id ev) = Acked \<and> px_mark x (pe_event_id ev) = None")
      case False
      then have "tx' = tx \<and> (log' = log \<or> log' = log @ [kafka_of ev]) \<and> (\<exists>err. res = Inl (n, err))"
        using Cons.prems env by (auto split: produce_outcome.splits option.splits)
      then show ?thesis using True by (intro exI [of _ 0] exI [of _ "[]"]) (auto simp: mark_events_def)
    next
      case True
      let ?tx = "mark_published (px_evidence_service x = ''on'') tx (pe_event_id ev) (px_now x)"
      have "publish_events L x pk evs (Suc n) ?tx (log @ [kafka_of ev]) = (res, tx', log')"
        using Cons.prems env True by simp
      from Cons.IH [OF this] obtain ds where d: "prefix ds evs" "list_all (publishable L pk) ds" "tx' = mark_events x ?tx ds"
        "case res of
           Inr m \<Rightarrow> ds = evs \<and> m = Suc n + length evs \<and> log' = (log @ [kafka_of ev]) @ map kafka_of evs
         | Inl (m, err) \<Rightarrow> m = Suc n + length ds \<and> length ds < length evs \<and>
             (log' = (log @ [kafka_of ev]) @ map kafka_of ds \<or>
              publishable L pk (evs ! length ds) \<and>
              log' = (log @ [kafka_of ev]) @ map kafka_of ds @ [kafka_of (evs ! length ds)])"
        by blast
      then show ?thesis
        using \<open>publishable L pk ev\<close>
        by (intro exI [of _ "Suc (length ds)"] exI [of _ "ev # ds"]) (auto simp: mark_events_def split: sum.splits)
    qed
  qed
qed

end
