(* ===== verification/Publisher_Behaviour.thy ===== *)
theory Publisher_Behaviour
  imports Outbox_Publisher
begin

text \<open>
  What the publisher does to the outbox and the topics: a batch refines the chain of custody's publish
  step, an event is marked only after its record is in the log, only verified events get there, a row
  that does not verify stops the publisher, and without faults it drains the outbox.
\<close>

subsection \<open>A batch\<close>

lemma select_unpublished_set:
  assumes "publish_laws x" and "r \<in> set (select_unpublished x db n)"
  shows "r \<in> set (evidence_outbox db)" "o_published_at r = None" "px_evidence_service x = ''on''"
proof -
  have perm: "set (px_order x rows) = set rows" for rows
    using assms(1) by (metis publish_laws_def set_mset_mset)
  show "r \<in> set (evidence_outbox db)" "o_published_at r = None" "px_evidence_service x = ''on''"
    using assms(2) by (auto simp: select_unpublished_def perm dest!: in_set_takeD split: if_splits)
qed

lemma mark_published_on:
  "mark_published True db i t = db\<lparr>evidence_outbox := mark_rows {i} t (evidence_outbox db)\<rparr>"
  by (simp add: mark_published_def mark_rows_def cong: if_cong)

lemma mark_rows_mark_rows: "mark_rows is t (mark_rows js t rows) = mark_rows (is \<union> js) t rows"
  by (auto simp: mark_rows_def)

lemma mark_rows_none [simp]: "mark_rows {} t rows = rows"
  by (simp add: mark_rows_def)

lemma mark_events_rows:
  assumes "px_evidence_service x = ''on''"
  shows "mark_events x db evs =
    db\<lparr>evidence_outbox := mark_rows (pe_event_id ` set evs) (px_now x) (evidence_outbox db)\<rparr>"
proof (induction evs arbitrary: db)
  case (Cons ev evs)
  have "mark_events x db (ev # evs) = mark_events x (mark_published True db (pe_event_id ev) (px_now x)) evs"
    using assms by (simp add: mark_events_def)
  also have "\<dots> = db\<lparr>evidence_outbox := mark_rows (pe_event_id ` set (ev # evs)) (px_now x) (evidence_outbox db)\<rparr>"
    unfolding Cons.IH by (simp add: mark_published_on mark_rows_mark_rows)
  finally show ?case .
qed (simp add: mark_events_def)

lemma scan_rows_Inr: "scan_rows x rows = Inr evs \<Longrightarrow> evs = map (pending_of x) rows"
  by (auto simp: scan_rows_def split: option.splits)

lemma prefix_snoc_nth: "prefix xs ys \<Longrightarrow> length xs < length ys \<Longrightarrow> prefix (xs @ [ys ! length xs]) ys"
  by (metis append_one_prefix)

text \<open>
  The three ends of a batch: nothing was produced; some verified events were produced and nothing is
  marked; or every selected row was produced and marked.
\<close>

lemma publish_batch_cases:
  assumes "publish_batch L x pk n db log = (res, db', log')"
  obtains (kept) ds where "db' = db" "log' = log @ map kafka_of ds" "list_all (publishable L pk) ds"
      "prefix ds (map (pending_of x) (select_unpublished x db n))" "isl res"
  | (marked) "log' = log @ map (kafka_of \<circ> pending_of x) (select_unpublished x db n)"
      "list_all (publishable L pk) (map (pending_of x) (select_unpublished x db n))"
      "db' = mark_events x db (map (pending_of x) (select_unpublished x db n))"
      "res = Inr (length (select_unpublished x db n)) \<and> px_commit x = CommitOk \<or>
       (\<exists>m. px_commit x = CommitLost m \<and> isl res)"
proof (cases "px_begin x = None \<and> px_query x = None \<and> \<not> isl (scan_rows x (select_unpublished x db n))")
  case False
  then have "isl res \<and> db' = db \<and> log' = log"
    using assms by (auto simp: publish_batch_def split: option.splits sum.splits)
  then show ?thesis using kept [of "[]"] by simp
next
  case True
  let ?evs = "map (pending_of x) (select_unpublished x db n)"
  obtain out tx lg where run: "publish_events L x pk ?evs 0 db log = (out, tx, lg)"
    by (metis prod.exhaust)
  have scan: "scan_rows x (select_unpublished x db n) = Inr ?evs"
    using True scan_rows_Inr by (metis isl_def sum.exhaust)
  obtain ds where ds: "prefix ds ?evs" "list_all (publishable L pk) ds" "tx = mark_events x db ds"
    "case out of Inr m \<Rightarrow> ds = ?evs \<and> m = 0 + length ?evs \<and> lg = log @ map kafka_of ?evs
     | Inl (m, err) \<Rightarrow> m = 0 + length ds \<and> length ds < length ?evs \<and>
         (lg = log @ map kafka_of ds \<or>
          publishable L pk (?evs ! length ds) \<and> lg = log @ map kafka_of ds @ [kafka_of (?evs ! length ds)])"
    using publish_events_result [OF run] by blast
  have res: "(res, db', log') = (case out of Inl e \<Rightarrow> (Inl e, db, lg)
      | Inr n \<Rightarrow> (case px_commit x of CommitOk \<Rightarrow> (Inr n, tx, lg)
         | CommitFailed m \<Rightarrow> (Inl (0, Wrap ''commit outbox batch'' (External m)), db, lg)
         | CommitLost m \<Rightarrow> (Inl (0, Wrap ''commit outbox batch'' (External m)), tx, lg)))"
    unfolding assms [symmetric] using True
    by (cases out; cases "px_commit x") (simp_all add: publish_batch_def scan run)
  show ?thesis
  proof (cases out)
    case (Inl e)
    then have fin: "res = Inl e" "db' = db" "log' = lg" using res by simp_all
    have len: "length ds < length ?evs" using ds(4) Inl by (cases e) simp
    have longer: "prefix (ds @ [?evs ! length ds]) ?evs"
      using ds(1) len by (rule prefix_snoc_nth)
    consider "lg = log @ map kafka_of ds"
      | "publishable L pk (?evs ! length ds)" "lg = log @ map kafka_of (ds @ [?evs ! length ds])"
      using ds(4) Inl by (cases e) auto
    then show ?thesis
    proof cases
      case 1
      show ?thesis by (rule kept [of ds]) (use 1 fin ds(1,2) in simp_all)
    next
      case 2
      show ?thesis by (rule kept [of "ds @ [?evs ! length ds]"]) (use 2 fin longer ds(2) in simp_all)
    qed
  next
    case (Inr m)
    then have all: "ds = ?evs" "m = length ?evs" "lg = log @ map kafka_of ?evs" using ds(4) by simp_all
    show ?thesis
    proof (cases "px_commit x")
      case (CommitFailed c)
      show ?thesis by (rule kept [of ?evs]) (use res Inr CommitFailed all ds(2) in simp_all)
    qed (rule marked; use res Inr all ds(2,3) in simp)+
  qed
qed

lemma publish_batch_step:
  assumes "publish_laws x" and "publish_batch L x pk n db log = (res, db', log')"
  shows "db' = db \<or> db' = db\<lparr>evidence_outbox := mark_rows
    (o_event_id ` set (select_unpublished x db n)) (px_now x) (evidence_outbox db)\<rparr>"
  using assms(2)
proof (cases rule: publish_batch_cases)
  case marked
  show ?thesis
  proof (cases "select_unpublished x db n = []")
    case True
    then show ?thesis using marked(3) by (simp add: mark_events_def)
  next
    case False
    then have "px_evidence_service x = ''on''"
      using select_unpublished_set(3) [OF assms(1)] by (metis list.set_sel(1))
    moreover have "pe_event_id ` set (map (pending_of x) rows) = o_event_id ` set rows" for rows
      by (simp add: image_image pending_of_def)
    ultimately show ?thesis using marked(3) mark_events_rows by simp
  qed
qed simp

text \<open>
  The rows a batch is due: of the events that wait and are not held by another session, up to \<open>n\<close>, oldest
  first, none of them younger than one left behind; and none at all outside the service context.
\<close>

definition waiting :: "publish_env \<Rightarrow> database \<Rightarrow> outbox_row list" where
  "waiting x db = filter (\<lambda>r. px_evidence_service x = ''on'' \<and> o_published_at r = None \<and> o_event_id r \<notin> px_locked x)
     (evidence_outbox db)"

definition batch_due :: "publish_env \<Rightarrow> database \<Rightarrow> nat \<Rightarrow> outbox_row list \<Rightarrow> bool" where
  "batch_due x db n rows \<longleftrightarrow>
     mset rows \<subseteq># mset (waiting x db) \<and> length rows = min n (length (waiting x db)) \<and>
     sorted (map o_created_at rows) \<and>
     (\<forall>a \<in> set rows. \<forall>b \<in># mset (waiting x db) - mset rows. o_created_at a \<le> o_created_at b)"

lemma sorted_take_drop:
  "sorted (map f xs) \<Longrightarrow> sorted (map f (take n xs)) \<and> (\<forall>a \<in> set (take n xs). \<forall>b \<in> set (drop n xs). f a \<le> f b)"
proof -
  assume "sorted (map f xs)"
  then have "sorted (map f (take n xs) @ map f (drop n xs))" by (simp flip: map_append)
  then show ?thesis by (simp add: sorted_append)
qed

lemma select_batch_due:
  assumes "publish_laws x"
  shows "batch_due x db n (select_unpublished x db n)"
proof (cases "px_evidence_service x = ''on''")
  case False
  then show ?thesis by (simp add: batch_due_def waiting_def select_unpublished_def)
next
  case True
  let ?s = "sort_key o_created_at (px_order x (waiting x db))"
  have sel: "select_unpublished x db n = take n ?s"
    using True by (simp add: select_unpublished_def waiting_def)
  have perm: "mset (waiting x db) = mset (take n ?s) + mset (drop n ?s)"
    using assms by (metis append_take_drop_id mset_append mset_sort publish_laws_def)
  have len: "length ?s = length (waiting x db)"
    using assms by (metis length_sort mset_eq_length publish_laws_def)
  have "sorted (map o_created_at ?s)" by simp
  note srt = sorted_take_drop [OF this, of n]
  show ?thesis
    unfolding batch_due_def sel perm using srt len by simp
qed

lemma batch_publishes:
  assumes "publish_laws x" and "db' = mark_events x db (map (pending_of x) (select_unpublished x db n))"
  shows "custody_event_step (Publish (map o_event_id (select_unpublished x db n)) (px_now x)) db db'"
proof (cases "select_unpublished x db n = []")
  case True
  then show ?thesis using assms(2) by (simp add: custody_event_step_def mark_events_def)
next
  case False
  then have "px_evidence_service x = ''on''"
    using select_unpublished_set(3) [OF assms(1)] by (metis list.set_sel(1))
  then have "db' = db\<lparr>evidence_outbox := mark_rows (o_event_id ` set (select_unpublished x db n)) (px_now x) (evidence_outbox db)\<rparr>"
    unfolding assms(2) by (simp add: mark_events_rows image_image pending_of_def)
  then show ?thesis
    using select_unpublished_set(1,2) [OF assms(1)] by (auto simp: custody_event_step_def)
qed

text \<open>
  (C24) A batch refines the chain of custody. It takes the oldest waiting events, up to \<open>n\<close>, in order. It
  reports their number only after a commit that was acknowledged: then the database is one publish
  step further, which marks the rows of exactly these events at the one time of the batch, and the
  records of all of them, in their order, are in the log. On an error the database is the old one and
  the records of some first part of the batch are in the log, or the commit took effect
  unacknowledged and all of it has happened.
\<close>

theorem publish_batch_refines:
  assumes "publish_laws x" and "publish_batch L x pk n db log = (res, db', log')"
  shows "\<exists>rows. batch_due x db n rows \<and>
    (case res of
       Inr m \<Rightarrow> px_commit x = CommitOk \<and> m = length rows \<and>
         custody_event_step (Publish (map o_event_id rows) (px_now x)) db db' \<and>
         log' = log @ map (kafka_of \<circ> pending_of x) rows
     | Inl _ \<Rightarrow>
         db' = db \<and> (\<exists>k. log' = log @ map (kafka_of \<circ> pending_of x) (take k rows)) \<or>
         (\<exists>c. px_commit x = CommitLost c) \<and>
         custody_event_step (Publish (map o_event_id rows) (px_now x)) db db' \<and>
         log' = log @ map (kafka_of \<circ> pending_of x) rows)"
proof (intro exI conjI)
  show "batch_due x db n (select_unpublished x db n)" by (rule select_batch_due [OF assms(1)])
  from assms(2) show "case res of
       Inr m \<Rightarrow> px_commit x = CommitOk \<and> m = length (select_unpublished x db n) \<and>
         custody_event_step (Publish (map o_event_id (select_unpublished x db n)) (px_now x)) db db' \<and>
         log' = log @ map (kafka_of \<circ> pending_of x) (select_unpublished x db n)
     | Inl _ \<Rightarrow>
         db' = db \<and> (\<exists>k. log' = log @ map (kafka_of \<circ> pending_of x) (take k (select_unpublished x db n))) \<or>
         (\<exists>c. px_commit x = CommitLost c) \<and>
         custody_event_step (Publish (map o_event_id (select_unpublished x db n)) (px_now x)) db db' \<and>
         log' = log @ map (kafka_of \<circ> pending_of x) (select_unpublished x db n)"
  proof (cases rule: publish_batch_cases)
    case (kept ds)
    have "ds = map (pending_of x) (take (length ds) (select_unpublished x db n))"
      using kept(4) by (simp add: prefix_drop_eq take_map)
    then have "log' = log @ map (kafka_of \<circ> pending_of x) (take (length ds) (select_unpublished x db n))"
      using kept(2) by (metis map_map)
    then show ?thesis using kept(1,5) by (auto split: sum.split)
  next
    case marked
    then show ?thesis
      using batch_publishes [OF assms(1) marked(3)] by (auto split: sum.split)
  qed
qed

subsection \<open>Delivery\<close>

text \<open>A record that carries the event of a row: its key, its topic and its payload.\<close>

definition carries :: "kafka_record \<Rightarrow> outbox_row \<Rightarrow> bool" where
  "carries k r \<longleftrightarrow> kr_key k = o_event_id r \<and> kr_topic k = o_topic r \<and>
     (wf_json max_depth (o_payload r) \<longrightarrow> json_all (kr_value k) = Some (o_payload r))"

definition verified :: "libs \<Rightarrow> string \<Rightarrow> kafka_record \<Rightarrow> bool" where
  "verified L pk k \<longleftrightarrow> (\<exists>e. unmarshal_envelope (kr_value k) = Some e \<and> verify L e pk = None)"

text \<open>
  The service and the publisher together: requests that create packages and record decisions, the
  latter validated as the API does, and batches, in any order.
\<close>

inductive delivery_step ::
  "libs \<Rightarrow> driver \<Rightarrow> store \<Rightarrow> string \<Rightarrow> database \<times> kafka_record list \<Rightarrow> database \<times> kafka_record list \<Rightarrow> bool"
  for L d st pk where
  created: "delivery_step L d st pk (db, log) (db', log)"
    if "env_laws d e" and "uuid_shape (snd (e_message_uuids e))" and "create L d st e db r = (res, db')"
| recorded: "delivery_step L d st pk (db, log) (db', log)"
    if "validation_validate v = None" and "uuid_shape (snd (e_message_uuids e))"
      and "record_validation L d st e db i v = (res, db')"
| drained: "delivery_step L d st pk (db, log) (db', log')"
    if "publish_laws x" and "publish_batch L x pk n db log = (res, db', log')"

definition delivers :: "libs \<Rightarrow> string \<Rightarrow> database \<Rightarrow> kafka_record list \<Rightarrow> bool" where
  "delivers L pk db log \<longleftrightarrow>
     db_inv db \<and>
     (\<forall>r \<in> set (evidence_outbox db). o_published_at r \<noteq> None \<longrightarrow> (\<exists>k \<in> set log. carries k r)) \<and>
     (\<forall>k \<in> set log. verified L pk k \<and> (\<exists>r \<in> set (evidence_outbox db). carries k r))"

lemma carries_published [simp]: "carries k (r\<lparr>o_published_at := t\<rparr>) \<longleftrightarrow> carries k r"
  by (simp add: carries_def)

lemma carries_kafka_of: "publish_laws x \<Longrightarrow> carries (kafka_of (pending_of x r)) r"
  by (simp add: carries_def kafka_of_def pending_of_def publish_laws_def)

lemma verified_kafka_of: "publishable L pk ev \<Longrightarrow> verified L pk (kafka_of ev)"
  by (simp add: verified_def publishable_def kafka_of_def)

text \<open>The service only adds unpublished rows.\<close>

lemma delivers_enqueue:
  assumes "delivers L pk db log" and "db_inv db'"
    and "evidence_outbox db' = evidence_outbox db @ rows" and "\<forall>r \<in> set rows. o_published_at r = None"
  shows "delivers L pk db' log"
  using assms by (auto simp: delivers_def)

lemma create_inserts_outbox:
  "create_inserts L d st e db r p db' \<Longrightarrow>
     \<exists>rows. evidence_outbox db' = evidence_outbox db @ rows \<and> (\<forall>r \<in> set rows. o_published_at r = None)"
  by (auto elim!: create_inserts.cases simp: created_db_def fresh_events_def)

lemma record_inserts_outbox:
  "record_inserts L d st e db i r p h db' \<Longrightarrow>
     \<exists>rows. evidence_outbox db' = evidence_outbox db @ rows \<and> (\<forall>r \<in> set rows. o_published_at r = None)"
  by (auto elim!: record_inserts.cases simp: fresh_events_def)

lemma create_outbox:
  assumes "env_laws d e" and "create L d st e db r = (res, db')"
  shows "\<exists>rows. evidence_outbox db' = evidence_outbox db @ rows \<and> (\<forall>r \<in> set rows. o_published_at r = None)"
  using assms by (cases rule: create_cases) (auto dest: create_inserts_outbox)

lemma record_outbox:
  assumes "db_inv db" and "record_validation L d st e db i v = (res, db')"
  shows "\<exists>rows. evidence_outbox db' = evidence_outbox db @ rows \<and> (\<forall>r \<in> set rows. o_published_at r = None)"
  using assms by (cases rule: record_cases) (auto dest: record_inserts_outbox)

lemma mark_rows_set:
  "r \<in> set (mark_rows ids t rows) \<Longrightarrow>
     \<exists>q \<in> set rows. r = q \<or> o_event_id q \<in> ids \<and> o_published_at q = None \<and> r = q\<lparr>o_published_at := Some t\<rparr>"
  by (auto simp: mark_rows_def split: if_splits)

lemma mark_rows_carries:
  "(\<exists>r \<in> set (mark_rows ids t rows). carries k r) \<longleftrightarrow> (\<exists>r \<in> set rows. carries k r)"
  by (induction rows) (simp_all add: mark_rows_def)

lemma event_id_unique:
  "db_inv db \<Longrightarrow> q \<in> set (evidence_outbox db) \<Longrightarrow> r \<in> set (evidence_outbox db) \<Longrightarrow> o_event_id q = o_event_id r \<Longrightarrow> q = r"
  by (auto simp: db_inv_def distinct_map dest: inj_onD)

lemma delivers_batch:
  assumes inv: "delivers L pk db log" and x: "publish_laws x"
    and run: "publish_batch L x pk n db log = (res, db', log')"
  shows "delivers L pk db' log'"
proof -
  let ?sel = "select_unpublished x db n"
  have sel: "r \<in> set (evidence_outbox db)" if "r \<in> set ?sel" for r
    using select_unpublished_set [OF x that] by blast
  have inv': "db_inv db'"
    using publish_batch_step [OF x run] inv db_inv_publish by (auto simp: delivers_def)
  have new: "verified L pk (kafka_of ev) \<and> (\<exists>r \<in> set (evidence_outbox db). carries (kafka_of ev) r)"
    if "publishable L pk ev" "ev \<in> pending_of x ` set ?sel" for ev
    using that sel carries_kafka_of [OF x] verified_kafka_of by blast
  show ?thesis
    using run
  proof (cases rule: publish_batch_cases)
    case (kept ds)
    then have "set ds \<subseteq> pending_of x ` set ?sel" using set_mono_prefix by fastforce
    with kept have "\<forall>k \<in> set (map kafka_of ds). verified L pk k \<and> (\<exists>r \<in> set (evidence_outbox db). carries k r)"
      using new by (auto simp: list_all_iff)
    then show ?thesis using inv kept unfolding delivers_def by auto
  next
    case marked
    have logged: "\<forall>k \<in> set log'. verified L pk k \<and> (\<exists>r \<in> set (evidence_outbox db). carries k r)"
      using inv new marked(1,2) by (auto simp: delivers_def list_all_iff)
    have rows: "evidence_outbox db' = evidence_outbox db \<or>
        evidence_outbox db' = mark_rows (o_event_id ` set ?sel) (px_now x) (evidence_outbox db)"
      using publish_batch_step [OF x run] by auto
    have "\<exists>k \<in> set log'. carries k r"
      if r: "r \<in> set (evidence_outbox db')" "o_published_at r \<noteq> None" for r
    proof -
      obtain q where q: "q \<in> set (evidence_outbox db)"
        and "r = q \<or> o_event_id q \<in> o_event_id ` set ?sel \<and> r = q\<lparr>o_published_at := Some (px_now x)\<rparr>"
        using rows r(1) mark_rows_set [of r "o_event_id ` set ?sel" "px_now x" "evidence_outbox db"] by metis
      then consider "r = q" | p where "p \<in> set ?sel" "o_event_id q = o_event_id p" "r = q\<lparr>o_published_at := Some (px_now x)\<rparr>"
        by blast
      then show ?thesis
      proof cases
        case 1
        then show ?thesis using inv q r(2) marked(1) by (auto simp: delivers_def)
      next
        case 2
        then have "q = p" using event_id_unique [OF _ q sel] inv by (simp add: delivers_def)
        then show ?thesis using 2 marked(1) carries_kafka_of [OF x] by auto
      qed
    qed
    moreover have "(\<exists>r \<in> set (evidence_outbox db'). carries k r) \<longleftrightarrow> (\<exists>r \<in> set (evidence_outbox db). carries k r)" for k
      using rows mark_rows_carries by metis
    ultimately show ?thesis using inv' logged by (simp add: delivers_def)
  qed
qed

lemma delivers_step:
  "delivery_step L d st pk s s' \<Longrightarrow> delivers L pk (fst s) (snd s) \<Longrightarrow> delivers L pk (fst s') (snd s')"
proof (induction rule: delivery_step.induct)
  case (created e db r res db' log)
  then have "db_inv db'" using create_step db_inv_step by (fastforce simp: delivers_def)
  then show ?case using create_outbox [OF created(1,3)] created(4) delivers_enqueue by fastforce
next
  case (recorded v e db i res db' log)
  then have inv: "db_inv db" by (simp add: delivers_def)
  then have "db_inv db'" using record_step [OF inv recorded(3)] db_inv_step by auto
  then show ?case using record_outbox [OF inv recorded(3)] recorded(4) delivers_enqueue by fastforce
next
  case (drained x n db log res db' log')
  then show ?case using delivers_batch by simp
qed

lemma delivers_steps:
  "(delivery_step L d st pk)\<^sup>*\<^sup>* (empty_database, []) s \<Longrightarrow> delivers L pk (fst s) (snd s)"
  by (induction rule: rtranclp_induct)
    (auto simp: delivers_def db_inv_empty [unfolded empty_database_def] empty_database_def dest: delivers_step)

lemma delivers_loop:
  assumes "delivers L pk db log" and "\<forall>(x, stopped) \<in> set xs. publish_laws x"
    and "publish_loop L pk n xs db log = (res, db', log')"
  shows "delivers L pk db' log' \<and> map o_event_id (evidence_outbox db') = map o_event_id (evidence_outbox db)"
  using assms
proof (induction xs arbitrary: db log)
  case (Cons y xs)
  obtain x stopped where y: "y = (x, stopped)" by (cases y)
  obtain out db1 log1 where batch: "publish_batch L x pk n db log = (out, db1, log1)" by (metis prod.exhaust)
  have x: "publish_laws x" using Cons.prems(2) y by simp
  have one: "delivers L pk db1 log1 \<and> map o_event_id (evidence_outbox db1) = map o_event_id (evidence_outbox db)"
    using delivers_batch [OF Cons.prems(1) x batch] publish_batch_step [OF x batch] by auto
  have "(db', log') = (db1, log1) \<or> publish_loop L pk n xs db1 log1 = (res, db', log')"
    using Cons.prems(3) y batch by (auto split: sum.splits prod.splits if_splits)
  then show ?case using one Cons.IH [of db1 log1] Cons.prems(2) by auto
qed simp

text \<open>
  (C8) At least once and never unsigned: whatever requests and batches have run, with whatever
  failures, every event that is marked published has its record in the log, and every record in the
  log is a verified envelope and carries the event of a row of the outbox.
\<close>

theorem delivery_invariant:
  assumes "(delivery_step L d st pk)\<^sup>*\<^sup>* (empty_database, []) (db, log)"
  shows "db_inv db \<and>
    (\<forall>r \<in> set (evidence_outbox db). o_published_at r \<noteq> None \<longrightarrow> (\<exists>k \<in> set log. carries k r)) \<and>
    (\<forall>k \<in> set log. verified L pk k \<and> (\<exists>r \<in> set (evidence_outbox db). carries k r))"
  using delivers_steps [OF assms] by (simp add: delivers_def)

subsection \<open>The chain of custody over the life of the system\<close>

text \<open>
  (C7) Whatever requests and batches have run, with whatever failures, a package and its history agree:
  one row that received it, and, exactly when its status is terminal, one more row from received to
  that status. So a package has at most one terminal decision and the status in its row is never out
  of step with the record of it.
\<close>

theorem reachable_custody:
  assumes "(delivery_step L d st pk)\<^sup>*\<^sup>* (empty_database, []) (db, log)" and "p \<in> set (evidence_packages db)"
  shows "map (\<lambda>h. (h_prior_validation_status h, h_validation_status h))
      (history_of db (p_evidence_package_id p)) =
    (None, StatusReceived) #
      (if p_validation_status p = StatusReceived then []
       else [(Some StatusReceived, p_validation_status p)])"
  using delivers_steps [OF assms(1)] assms(2) by (simp add: delivers_def db_inv_def custody_def)

text \<open>An outbox row may only get its time of publication, once.\<close>

definition row_successor :: "outbox_row \<Rightarrow> outbox_row \<Rightarrow> bool" where
  "row_successor r r' \<longleftrightarrow>
     r' = r \<or> (o_published_at r = None \<and> (\<exists>t. r' = r\<lparr>o_published_at := Some t\<rparr>))"

lemma row_successor_refl [simp]: "row_successor r r"
  by (simp add: row_successor_def)

lemma row_successor_trans: "row_successor a b \<Longrightarrow> row_successor b c \<Longrightarrow> row_successor a c"
  by (auto simp: row_successor_def)

definition outbox_evolves :: "outbox_row list \<Rightarrow> outbox_row list \<Rightarrow> bool" where
  "outbox_evolves rows rows' \<longleftrightarrow> list_all2 row_successor rows (take (length rows) rows')"

lemma outbox_evolves_append: "outbox_evolves rows (rows @ rs)"
  by (simp add: outbox_evolves_def list_all2_same)

lemma outbox_evolves_mark: "outbox_evolves rows (mark_rows ids t rows)"
  by (auto simp: outbox_evolves_def mark_rows_def row_successor_def list_all2_conv_all_nth)

lemma outbox_evolves_trans:
  assumes "outbox_evolves a b" and "outbox_evolves b c"
  shows "outbox_evolves a c"
proof -
  have n: "length a \<le> length b"
    using assms(1) list_all2_lengthD by (fastforce simp: outbox_evolves_def)
  have "list_all2 row_successor (take (length a) b) (take (length a) c)"
    using list_all2_takeI [of row_successor b _ "length a"] assms(2) n
    by (fastforce simp: outbox_evolves_def min_absorb1)
  then show ?thesis
    using assms(1) list_all2_trans [of row_successor row_successor row_successor] row_successor_trans
    unfolding outbox_evolves_def by blast
qed

lemma delivery_step_evolves:
  "delivery_step L d st pk s s' \<Longrightarrow> delivers L pk (fst s) (snd s) \<Longrightarrow>
     evolves (fst s) (fst s') \<and> outbox_evolves (evidence_outbox (fst s)) (evidence_outbox (fst s')) \<and>
     prefix (snd s) (snd s')"
proof (induction rule: delivery_step.induct)
  case (created e db r res db' log)
  then have "evolves db db'" using create_step step_evolves by (fastforce simp: delivers_def)
  then show ?case using create_outbox [OF created(1,3)] outbox_evolves_append by fastforce
next
  case (recorded v e db i res db' log)
  then have inv: "db_inv db" by (simp add: delivers_def)
  then have "evolves db db'" using record_step [OF inv recorded(3)] step_evolves by auto
  then show ?case using record_outbox [OF inv recorded(3)] outbox_evolves_append by fastforce
next
  case (drained x n db log res db' log')
  then have "db' = db \<or> custody_step db db'"
    using publish_batch_step custody_step.publish by metis
  then have "evolves db db'" using drained(3) step_evolves by (auto simp: delivers_def)
  moreover have "outbox_evolves (evidence_outbox db) (evidence_outbox db')"
    using publish_batch_step [OF drained(1,2)] outbox_evolves_mark outbox_evolves_append [of _ "[]"] by auto
  moreover have "prefix log log'" using drained(2) by (cases rule: publish_batch_cases) simp_all
  ultimately show ?case by simp
qed

lemma delivery_steps_evolve:
  assumes "(delivery_step L d st pk)\<^sup>*\<^sup>* s s'" and "delivers L pk (fst s) (snd s)"
  shows "delivers L pk (fst s') (snd s') \<and> evolves (fst s) (fst s') \<and>
    outbox_evolves (evidence_outbox (fst s)) (evidence_outbox (fst s')) \<and> prefix (snd s) (snd s')"
  using assms
proof (induction rule: rtranclp_induct)
  case base
  then show ?case using outbox_evolves_append [of _ "[]"] by simp
next
  case (step t u)
  then show ?case
    using delivery_step_evolves [OF step(2)] delivers_step [OF step(2)]
      evolves_trans outbox_evolves_trans prefix_order.trans by blast
qed

text \<open>
  (C9) Nothing of the evidence is ever lost or altered: between two points of the life of the system,
  with requests and batches in any order and with any failures, the retained packages stay where they
  are with every column unchanged, except that a received package may get its one terminal status; the
  validation history only grows at its end; an outbox row keeps every column, except that its time of
  publication may be set once; and the log only grows.
\<close>

theorem custody_preserved:
  assumes "(delivery_step L d st pk)\<^sup>*\<^sup>* (empty_database, []) (db, log)"
    and "(delivery_step L d st pk)\<^sup>*\<^sup>* (db, log) (db', log')"
  shows "list_all2 successor (evidence_packages db) (take (length (evidence_packages db)) (evidence_packages db'))
    \<and> prefix (evidence_validation_history db) (evidence_validation_history db')
    \<and> list_all2 row_successor (evidence_outbox db) (take (length (evidence_outbox db)) (evidence_outbox db'))
    \<and> prefix log log'"
  using delivery_steps_evolve [OF assms(2)] delivers_steps [OF assms(1)]
  by (simp add: evolves_def outbox_evolves_def)

subsection \<open>A row that does not verify\<close>

text \<open>
  (C25) One selected row whose envelope does not decode or verify fails the whole batch: \<open>publishBatch\<close>
  returns an error, which ends the process, and no row is marked, those before it included.
\<close>

theorem poison_row_stops:
  assumes "r \<in> set (select_unpublished x db n)" and "\<not> publishable L pk (pending_of x r)"
    and "publish_batch L x pk n db log = (res, db', log')"
  shows "isl res \<and> db' = db"
  using assms(3)
proof (cases rule: publish_batch_cases)
  case marked
  then show ?thesis using assms(1,2) by (auto simp: list_all_iff)
qed simp

subsection \<open>Draining\<close>

definition unpublished :: "database \<Rightarrow> outbox_row list" where
  "unpublished db = filter (\<lambda>r. o_published_at r = None) (evidence_outbox db)"

text \<open>A batch in which nothing fails and no other session holds a row.\<close>

definition quiet_batch :: "publish_env \<Rightarrow> bool" where
  "quiet_batch x \<longleftrightarrow> px_begin x = None \<and> px_query x = None \<and> (\<forall>i. px_scan x i = None) \<and> px_rows x = None \<and>
     px_locked x = {} \<and> (\<forall>i. px_produce x i = Acked) \<and> (\<forall>i. px_mark x i = None) \<and>
     px_commit x = CommitOk \<and> px_evidence_service x = ''on''"

lemma select_quiet:
  "quiet_batch x \<Longrightarrow> select_unpublished x db n = take n (sort_key o_created_at (px_order x (unpublished db)))"
  by (simp add: select_unpublished_def unpublished_def quiet_batch_def)

lemma publish_events_quiet:
  assumes "quiet_batch x" and "list_all (publishable L pk) evs"
  shows "publish_events L x pk evs n tx log = (Inr (n + length evs), mark_events x tx evs, log @ map kafka_of evs)"
  using assms(2)
proof (induction evs arbitrary: n tx log)
  case (Cons ev evs)
  then obtain env where "unmarshal_envelope (pe_payload ev) = Some env" "verify L env pk = None"
    by (auto simp: publishable_def)
  then show ?case using assms(1) Cons by (simp add: quiet_batch_def mark_events_def)
qed (simp add: mark_events_def)

lemma publish_batch_quiet:
  assumes "quiet_batch x" and "publish_laws x" and "\<forall>r \<in> set (unpublished db). publishable L pk (pending_of x r)"
    and sel_def: "sel = select_unpublished x db n"
  shows "publish_batch L x pk n db log = (Inr (length sel),
    db\<lparr>evidence_outbox := mark_rows (o_event_id ` set sel) (px_now x) (evidence_outbox db)\<rparr>,
    log @ map (kafka_of \<circ> pending_of x) sel)"
proof -
  have "set sel \<subseteq> set (unpublished db)"
    using select_unpublished_set [OF assms(2)] by (auto simp: unpublished_def sel_def)
  then have ok: "list_all (publishable L pk) (map (pending_of x) sel)" using assms(3) by (auto simp: list_all_iff)
  have scan: "scan_rows x sel = Inr (map (pending_of x) sel)"
    using assms(1) by (simp add: scan_rows_def quiet_batch_def find_None_iff option.case_eq_if)
  have ids: "pe_event_id ` set (map (pending_of x) sel) = o_event_id ` set sel"
    by (simp add: image_image pending_of_def)
  have "px_evidence_service x = ''on''" using assms(1) by (simp add: quiet_batch_def)
  from mark_events_rows [OF this, of db "map (pending_of x) sel"]
  show ?thesis
    using assms(1) publish_events_quiet [OF assms(1) ok, of 0 db log] scan ids
    by (simp add: publish_batch_def quiet_batch_def sel_def [symmetric] del: set_map)
qed

lemma unpublished_marked:
  "unpublished (db\<lparr>evidence_outbox := mark_rows ids t (evidence_outbox db)\<rparr>) =
     filter (\<lambda>r. o_event_id r \<notin> ids) (unpublished db)"
proof -
  have "filter (\<lambda>r. o_published_at r = None) (mark_rows ids t rows) =
      filter (\<lambda>r. o_event_id r \<notin> ids) (filter (\<lambda>r. o_published_at r = None) rows)" for rows
    by (induction rows) (auto simp: mark_rows_def)
  then show ?thesis by (simp add: unpublished_def)
qed

lemma filter_not_taken:
  "distinct (map f xs) \<Longrightarrow> filter (\<lambda>r. f r \<notin> f ` set (take n xs)) xs = drop n xs"
proof -
  assume d: "distinct (map f xs)"
  have "distinct (map f (take n xs @ drop n xs))" using d by simp
  then have "f ` set (take n xs) \<inter> f ` set (drop n xs) = {}"
    unfolding map_append distinct_append by simp
  then have "filter (\<lambda>r. f r \<notin> f ` set (take n xs)) (take n xs @ drop n xs) = drop n xs"
    unfolding filter_append by (auto simp: filter_empty_conv filter_id_conv)
  then show ?thesis by simp
qed

text \<open>What one quiet batch does to the rows that wait: it takes the oldest, the others wait on.\<close>

lemma quiet_batch_takes:
  assumes "quiet_batch x" and "publish_laws x" and "db_inv db"
    and "db' = db\<lparr>evidence_outbox := mark_rows (o_event_id ` set (select_unpublished x db n)) t (evidence_outbox db)\<rparr>"
  obtains rest where "mset (unpublished db') = mset rest" "mset (unpublished db) = mset (select_unpublished x db n @ rest)"
    "sorted (map o_created_at (select_unpublished x db n))"
    "\<forall>a \<in> set (select_unpublished x db n). \<forall>b \<in> set rest. o_created_at a \<le> o_created_at b"
    "length (select_unpublished x db n) = min n (length (unpublished db))"
proof -
  let ?s = "sort_key o_created_at (px_order x (unpublished db))"
  have perm: "mset ?s = mset (unpublished db)" using assms(2) by (simp add: publish_laws_def)
  have sel: "select_unpublished x db n = take n ?s" using select_quiet [OF assms(1)] .
  have "distinct (map o_event_id (unpublished db))"
    using assms(3) distinct_map_filter by (auto simp: db_inv_def unpublished_def)
  then have d: "distinct (map o_event_id ?s)" using perm by (metis mset_map mset_eq_imp_distinct_iff)
  have "mset (unpublished db') = mset (filter (\<lambda>r. o_event_id r \<notin> o_event_id ` set (take n ?s)) ?s)"
    unfolding assms(4) unpublished_marked sel mset_filter perm ..
  then have rest: "mset (unpublished db') = mset (drop n ?s)" using filter_not_taken [OF d] by simp
  have srt: "sorted (map o_created_at ?s)" by simp
  have len: "length (px_order x (unpublished db)) = length (unpublished db)"
    using perm by (metis mset_eq_length mset_sort)
  show thesis
    by (rule that [OF rest]; unfold sel)
      (use perm sorted_take_drop [OF srt, of n] in \<open>simp_all add: len ac_simps\<close>)
qed

text \<open>The order of delivery: by the time the row was made, each row once.\<close>

definition delivered_in_order :: "outbox_row list \<Rightarrow> kafka_record list \<Rightarrow> bool" where
  "delivered_in_order rows ks \<longleftrightarrow>
     (\<exists>order. mset order = mset rows \<and> sorted (map o_created_at order) \<and> list_all2 carries ks order)"

lemma delivered_in_order_step:
  assumes "mset rows = mset (sel @ rest)" and "sorted (map o_created_at sel)"
    and "\<forall>a \<in> set sel. \<forall>b \<in> set rest. o_created_at a \<le> o_created_at b"
    and "mset rows' = mset rest" and "delivered_in_order rows' ks'" and "list_all2 carries ks sel"
  shows "delivered_in_order rows (ks @ ks')"
proof -
  obtain order where o: "mset order = mset rows'" "sorted (map o_created_at order)" "list_all2 carries ks' order"
    using assms(5) by (auto simp: delivered_in_order_def)
  then have "set order = set rest" using assms(4) by (metis set_mset_mset)
  then show ?thesis
    using o assms by (intro delivered_in_order_def [THEN iffD2] exI [of _ "sel @ order"])
      (auto simp: sorted_append intro: list_all2_appendI)
qed

lemma drain_steps:
  assumes "db_inv db" and "0 < n"
    and "\<forall>(x, stopped) \<in> set xs. quiet_batch x \<and> publish_laws x \<and> (\<forall>r \<in> set (unpublished db). publishable L pk (pending_of x r))"
    and "length (unpublished db) \<le> n * length xs"
    and "publish_loop L pk n xs db log = (res, db', log')"
  shows "res \<in> {None, Some None} \<and> unpublished db' = [] \<and>
    (\<exists>ks. log' = log @ ks \<and> delivered_in_order (unpublished db) ks)"
  using assms
proof (induction xs arbitrary: db log)
  case Nil
  then show ?case by (simp add: delivered_in_order_def)
next
  case (Cons y xs)
  obtain x stopped where y: "y = (x, stopped)" by (cases y)
  have x: "quiet_batch x" "publish_laws x" "\<forall>r \<in> set (unpublished db). publishable L pk (pending_of x r)"
    using Cons.prems(3) y by auto
  let ?sel = "select_unpublished x db n"
  let ?db = "db\<lparr>evidence_outbox := mark_rows (o_event_id ` set ?sel) (px_now x) (evidence_outbox db)\<rparr>"
  let ?log = "log @ map (kafka_of \<circ> pending_of x) ?sel"
  note batch = publish_batch_quiet [OF x refl, of n log]
  have inv: "db_inv ?db" by (rule db_inv_publish [OF Cons.prems(1)])
  obtain rest where rest: "mset (unpublished ?db) = mset rest" "mset (unpublished db) = mset (?sel @ rest)"
    "sorted (map o_created_at ?sel)" "\<forall>a \<in> set ?sel. \<forall>b \<in> set rest. o_created_at a \<le> o_created_at b"
    "length ?sel = min n (length (unpublished db))"
    using quiet_batch_takes [OF x(1,2) Cons.prems(1) refl] by blast
  have carried: "list_all2 carries (map (kafka_of \<circ> pending_of x) rows) rows" for rows
    using carries_kafka_of [OF x(2)] by (induction rows) simp_all
  have sub: "set (unpublished ?db) \<subseteq> set (unpublished db)"
    using rest(1,2) by (metis Un_upper2 set_append set_mset_mset)
  have len: "length (unpublished ?db) + length ?sel = length (unpublished db)"
    using rest(1,2) by (metis add.commute length_append mset_eq_length)
  show ?case
  proof (cases "length ?sel = 0 \<and> stopped")
    case True
    then have "unpublished db = []" using rest(5) \<open>0 < n\<close> by (simp add: min_def split: if_splits)
    moreover have "res = Some None \<and> db' = ?db \<and> log' = ?log" using Cons.prems(5) True batch y by simp
    ultimately show ?thesis using True rest(1,2) by (auto simp: delivered_in_order_def)
  next
    case False
    then have "publish_loop L pk n xs ?db ?log = (res, db', log')" using Cons.prems(5) batch y by auto
    moreover have "length (unpublished ?db) \<le> n * length xs" using Cons.prems(4) len rest(5) by auto
    moreover have "\<forall>(x, stopped) \<in> set xs. quiet_batch x \<and> publish_laws x \<and>
        (\<forall>r \<in> set (unpublished ?db). publishable L pk (pending_of x r))"
      using Cons.prems(3) sub by fastforce
    ultimately obtain ks where ks: "res \<in> {None, Some None}" "unpublished db' = []" "log' = ?log @ ks"
      "delivered_in_order (unpublished ?db) ks"
      using Cons.IH [OF inv \<open>0 < n\<close>] by blast
    then have "delivered_in_order (unpublished db) (map (kafka_of \<circ> pending_of x) ?sel @ ks)"
      using delivered_in_order_step [OF rest(2-4) rest(1) ks(4)] carried by blast
    then show ?thesis using ks by simp
  qed
qed

text \<open>
  (C23) Without faults the publisher drains the outbox: batches of up to \<open>n\<close> rows, enough of them to hold
  all the rows that wait, run without an error, leave no row unpublished, and append each event once,
  in the order of \<open>created_at\<close> across all the batches.
\<close>

theorem publisher_drains:
  assumes "db_inv db" and "0 < n"
    and "\<forall>(x, stopped) \<in> set xs. quiet_batch x \<and> publish_laws x \<and> (\<forall>r \<in> set (unpublished db). publishable L pk (pending_of x r))"
    and "length (unpublished db) \<le> n * length xs"
    and "publish_loop L pk n xs db log = (res, db', log')"
  shows "res \<in> {None, Some None} \<and> unpublished db' = [] \<and>
    (\<exists>ks. log' = log @ ks \<and> delivered_in_order (unpublished db) ks)"
  using assms by (rule drain_steps)

end
