(* ===== verification/Go_TimeFormat.thy ===== *)
theory Go_TimeFormat
  imports Go_Time
begin

text \<open>
  What \<open>MarshalJSON\<close> writes of a time, \<open>time.Parse(time.RFC3339, _)\<close> reads back as the same instant: the
  calendar both ways, and the digits of every field.
\<close>

subsection \<open>The calendar\<close>

lemma div_up:
  assumes "0 < (k :: int)" and "j = k - 1"
  shows "(y + k) div k = (y + j) div k + of_bool (y mod k = 0)"
proof -
  have y: "y = k * (y div k) + y mod k" by simp
  have r: "0 \<le> y mod k" "y mod k < k" using assms by simp_all
  have "(y + k) div k = y div k + 1" using assms div_add_self2 [of k y] by simp
  moreover have "(y + j) div k = y div k" if "y mod k = 0"
    by (rule int_div_pos_eq [of _ k _ j]) (use y that assms in linarith)+
  moreover have "(y + j) div k = y div k + 1" if "y mod k \<noteq> 0"
  proof (rule int_div_pos_eq [of _ k _ "y mod k - 1"])
    show "y + j = k * (y div k + 1) + (y mod k - 1)" by (simp add: distrib_left assms(2))
  qed (use that r in linarith)+
  ultimately show ?thesis by (cases "y mod k = 0") simp_all
qed

lemma year_days_Suc: "year_days (y + 1) = year_days y + 365 + (if is_leap y then 1 else 0)"
proof -
  have e: "year_days (y + 1) = 365 * y + 365 + (y + 4) div 4 - (y + 100) div 100 + (y + 400) div 400"
    by (simp add: year_days_def add.commute [of _ y])
  have d: "y mod 400 = 0 \<Longrightarrow> y mod 100 = 0" "y mod 100 = 0 \<Longrightarrow> y mod 4 = 0" by presburger+
  have sum: "u + 365 + (a + of_bool p) - (b + of_bool q) + (c + of_bool r)
      = u + a - b + c + 365 + of_bool (p \<and> (\<not> q \<or> r))"
    if "r \<Longrightarrow> q" "q \<Longrightarrow> p" for u a b c :: int and p q r
    using that by (cases p; cases q; cases r) simp_all
  have up: "(y + 4) div 4 = (y + 3) div 4 + of_bool (y mod 4 = 0)"
    "(y + 100) div 100 = (y + 99) div 100 + of_bool (y mod 100 = 0)"
    "(y + 400) div 400 = (y + 399) div 400 + of_bool (y mod 400 = 0)"
    by (rule div_up; simp)+
  show ?thesis
    unfolding e up unfolding year_days_def is_leap_def of_bool_def [symmetric] by (rule sum [OF d])
qed

lemma year_days_bounds: "146097 * y - 396 \<le> 400 * year_days y \<and> 400 * year_days y \<le> 146097 * y + 699"
proof -
  obtain a b c r s t where "(y + 3) div 4 = a" "(y + 99) div 100 = b" "(y + 399) div 400 = c"
    "(y + 3) mod 4 = r" "(y + 99) mod 100 = s" "(y + 399) mod 400 = t" by blast
  moreover from this have "a * 4 + r = y + 3" "b * 100 + s = y + 99" "c * 400 + t = y + 399"
    using div_mult_mod_eq by blast+
  moreover have "0 \<le> (y + 3) mod 4 \<and> (y + 3) mod 4 < 4" "0 \<le> (y + 99) mod 100 \<and> (y + 99) mod 100 < 100"
    "0 \<le> (y + 399) mod 400 \<and> (y + 399) mod 400 < 400" by simp_all
  ultimately show ?thesis
    unfolding year_days_def by simp
qed

lemma year_of_day_bounds: "year_days (year_of_day n) \<le> n \<and> n < year_days (year_of_day n + 1)"
proof -
  obtain y r where y: "n * 400 div 146097 = y" "n * 400 mod 146097 = r" by blast
  have "y * 146097 + r = n * 400" unfolding y [symmetric] by (rule div_mult_mod_eq)
  moreover have "0 \<le> r" "r < 146097" unfolding y [symmetric] by simp_all
  ultimately have q: "146097 * y \<le> 400 * n" "400 * n < 146097 * y + 146097" by linarith+
  have up: "n < year_days (y + 2)" using conjunct1 [OF year_days_bounds, of "y + 2"] q(2) by (simp add: distrib_left)
  have "year_days y = year_days (y - 1) + 365 + (if is_leap (y - 1) then 1 else 0)"
    using year_days_Suc [of "y - 1"] by simp
  then have down: "year_days (y - 1) \<le> n" using year_days_bounds [of y] q(1) by (auto split: if_splits)
  show ?thesis
    unfolding year_of_day_def Let_def y using up down by (simp add: add.assoc)
qed

lemma month_days_Suc: "1 \<le> m \<Longrightarrow> m < 12 \<Longrightarrow> month_days (m + 1) y = month_days m y + days_in m y"
proof -
  assume "1 \<le> m" "m < 12"
  then have "m = 1 \<or> m = 2 \<or> m = 3 \<or> m = 4 \<or> m = 5 \<or> m = 6 \<or> m = 7 \<or> m = 8 \<or> m = 9 \<or> m = 10 \<or> m = 11"
    by presburger
  then show ?thesis by (elim disjE) (simp_all add: month_days_def days_in_def)
qed

lemma month_from_result:
  assumes "1 \<le> m" and "m + int f = 12" and "0 \<le> k" and "month_days m y + k < 365 + (if is_leap y then 1 else 0)"
    and "month_from f m y k = (m', k')"
  shows "1 \<le> m' \<and> m' \<le> 12 \<and> 0 \<le> k' \<and> k' < days_in m' y \<and> month_days m' y + k' = month_days m y + k"
  using assms
proof (induction f m y k rule: month_from.induct)
  case (1 m y k)
  then have "m = 12" by simp
  then show ?case using 1 by (auto simp: month_days_def days_in_def split: if_splits)
next
  case (2 f m y k)
  show ?case
  proof (cases "k < days_in m y")
    case True
    then show ?thesis using 2 by auto
  next
    case False
    then show ?thesis using 2 month_days_Suc [of m y] by auto
  qed
qed

lemma civil_from_days_result:
  assumes "civil_from_days z = (y, m, d)"
  shows "1 \<le> m \<and> m \<le> 12 \<and> 1 \<le> d \<and> d \<le> days_in m y \<and> days_from_civil y m d = z"
proof -
  let ?n = "z + epoch_days"
  obtain k where y: "y = year_of_day ?n" and mk: "month_from 11 1 y (?n - year_days y) = (m, k)" and d: "d = k + 1"
    using assms by (auto simp: civil_from_days_def Let_def split: prod.splits)
  have "year_days y \<le> ?n" "?n < year_days y + 365 + (if is_leap y then 1 else 0)"
    using year_of_day_bounds [of ?n] unfolding y year_days_Suc by auto
  moreover have "month_days 1 y = 0" by (simp add: month_days_def)
  ultimately have "1 \<le> m \<and> m \<le> 12 \<and> 0 \<le> k \<and> k < days_in m y \<and> month_days m y + k = ?n - year_days y"
    using month_from_result [OF _ _ _ _ mk] by simp
  then show ?thesis using d by (simp add: days_from_civil_def)
qed

subsection \<open>Digits\<close>

lemma two_digit_table:
  "list_all (\<lambda>n. case pad_left 2 (decimal n) of
     [a, b] \<Rightarrow> is_digit a \<and> is_digit b \<and> 10 * digit_of a + digit_of b = int n | _ \<Rightarrow> False) [0..<100]"
  by code_simp

lemma two_digits:
  assumes "0 \<le> n" and "n < 100"
  obtains a b where "two n = [a, b]" "is_digit a" "is_digit b" "10 * digit_of a + digit_of b = n"
proof -
  have "nat n \<in> set [0..<100]" using assms by auto
  from two_digit_table [unfolded list_all_iff, rule_format, OF this] obtain a b where
    "pad_left 2 (decimal (nat n)) = [a, b]" "is_digit a" "is_digit b" "10 * digit_of a + digit_of b = int (nat n)"
    by (auto split: list.splits)
  then show thesis using assms by (intro that) (simp_all add: two_def)
qed

lemma getnum_two: "0 \<le> n \<Longrightarrow> n < 100 \<Longrightarrow> getnum fixed (two n @ r) = Some (n, r)"
  by (erule (1) two_digits) simp

lemma getnum_in_two: "0 \<le> n \<Longrightarrow> n < 100 \<Longrightarrow> lo \<le> n \<Longrightarrow> n \<le> hi \<Longrightarrow> getnum_in fixed lo hi (two n @ r) = Some (n, r)"
  by (simp add: getnum_in_def getnum_two)

lemma length_decimal: "n < 10 ^ k \<Longrightarrow> 0 < k \<Longrightarrow> length (decimal n) \<le> k"
proof (induction k arbitrary: n)
  case (Suc k)
  show ?case
  proof (cases "n < 10")
    case True
    then show ?thesis by (simp add: decimal.simps [of n])
  next
    case False
    then have "0 < k" using Suc.prems(1) by (cases k) simp_all
    moreover have "n div 10 < 10 ^ k" using Suc.prems(1) by (simp add: div_less_iff_less_mult mult.commute)
    ultimately have "length (decimal (n div 10)) \<le> k" using Suc.IH by blast
    then show ?thesis using False by (simp add: decimal.simps [of n])
  qed
qed simp

lemma digits_value_zeros: "digits_value v (replicate z (CHR ''0'')) = Some (v * 10 ^ z)"
  by (induction z arbitrary: v) (simp_all add: is_digit_def algebra_simps)

lemma pad_left_digits:
  assumes "n < 10 ^ w" and "0 < w"
  shows "length (pad_left w (decimal n)) = w" "list_all is_digit (pad_left w (decimal n))"
    "digits_value 0 (pad_left w (decimal n)) = Some n"
  using length_decimal [OF assms] decimal_digits [of n] digits_value_zeros [of 0]
  by (auto simp: pad_left_def list_all_iff is_digit_def digits_value_append digits_value_decimal)

lemma long_year_four:
  assumes "0 \<le> y" and "y \<le> 9999"
  shows "long_year (pad_left 4 (decimal (nat y)) @ r) = Some (y, r)"
proof -
  have "nat y < 10 ^ 4" using assms by simp
  from pad_left_digits [OF this] show ?thesis using assms by (simp add: long_year_def)
qed

text \<open>The fraction: nine digits less the trailing zeros, whose weight the parser restores.\<close>

lemma strip_zeros: "\<exists>z. s = rev (dropWhile (\<lambda>c. c = CHR ''0'') (rev s)) @ replicate z (CHR ''0'')"
proof -
  have "takeWhile (\<lambda>c. c = CHR ''0'') (rev s) = replicate (length (takeWhile (\<lambda>c. c = CHR ''0'') (rev s))) (CHR ''0'')"
    by (rule replicate_eqI) (auto dest: set_takeWhileD)
  then have "s = rev (dropWhile (\<lambda>c. c = CHR ''0'') (rev s)) @ replicate (length (takeWhile (\<lambda>c. c = CHR ''0'') (rev s))) (CHR ''0'')"
    by (metis rev_append rev_replicate rev_rev_ident takeWhile_dropWhile_id)
  then show ?thesis by blast
qed

lemma fraction_digits:
  assumes "list_all is_digit ds" and "ds \<noteq> []" and "length ds \<le> 9" and "digits_value 0 ds = Some v"
  shows "fraction (CHR ''.'' # ds @ ''Z'') = (int v * 10 ^ (9 - length ds), ''Z'')"
proof -
  obtain d r where dr: "ds = d # r" using assms(2) by (cases ds) auto
  have d: "is_digit d" using assms(1) dr by simp
  have run: "takeWhile is_digit (ds @ ''Z'') = ds" "dropWhile is_digit (ds @ ''Z'') = ''Z''" "take 9 ds = ds"
    using assms(1,3) by (auto simp: list_all_iff takeWhile_append dropWhile_append is_digit_def)
  have "fraction (CHR ''.'' # d # r @ ''Z'') =
      (let n = take 9 (takeWhile is_digit (d # r @ ''Z'')) in
       (case digits_value 0 n of Some v \<Rightarrow> int v * 10 ^ (9 - length n) | None \<Rightarrow> 0, dropWhile is_digit (d # r @ ''Z'')))"
    using d by (simp only: fraction_def list.case simp_thms if_True Let_def)
  then show ?thesis using run assms(4) unfolding dr by (simp only: append_Cons Let_def option.case)
qed

lemma fraction_nanos:
  assumes "0 \<le> ns" and "ns < nano"
  shows "fraction (nanos ns @ ''Z'') = (ns, ''Z'')"
proof (cases "ns = 0")
  case False
  define p where "p = pad_left 9 (decimal (nat ns))"
  have "nat ns < 10 ^ 9" using assms by (simp add: nano_def)
  note digits = pad_left_digits [OF this, folded p_def]
  define ds where "ds = rev (dropWhile (\<lambda>c. c = CHR ''0'') (rev p))"
  obtain z where ds: "nanos ns = CHR ''.'' # ds" "p = ds @ replicate z (CHR ''0'')"
    using strip_zeros [of p] False by (auto simp: nanos_def p_def ds_def)
  then have len: "length ds + z = 9" using digits(1) by simp
  have dig: "list_all is_digit ds" using digits(2) ds(2) by simp
  obtain v where v: "digits_value 0 ds = Some v" "nat ns = v * 10 ^ z"
    using digits(3) ds(2) by (auto simp: digits_value_append digits_value_zeros split: option.splits)
  then have "ds \<noteq> []" using False assms(1) by auto
  have "z = 9 - length ds" using len by simp
  then have "int v * 10 ^ (9 - length ds) = ns" using arg_cong [OF v(2), of int] assms(1) by simp
  then show ?thesis using fraction_digits [OF dig \<open>ds \<noteq> []\<close> _ v(1)] ds(1) len by simp
qed (simp add: nanos_def fraction_def)

subsection \<open>The round trip\<close>

lemma zone_utc: "zone ''Z'' = Some (0, [])"
  by (simp add: zone_def has_prefix_def)

lemma parse_fields:
  assumes "0 \<le> y" "y \<le> 9999" "1 \<le> m" "m \<le> 12" "1 \<le> d" "d \<le> days_in m y" "0 \<le> h" "h \<le> 23"
    "0 \<le> mi" "mi \<le> 59" "0 \<le> sec" "sec \<le> 59" "0 \<le> ns" "ns < nano"
  shows "parse_rfc3339 (pad_left 4 (decimal (nat y)) @ ''-'' @ two m @ ''-'' @ two d @ ''T''
      @ two h @ '':'' @ two mi @ '':'' @ two sec @ nanos ns @ ''Z'') =
    Some ((days_from_civil y m d * 86400 + h * 3600 + mi * 60 + sec) * nano + ns)"
proof -
  have "d \<le> 31" using assms(6) by (simp add: days_in_def split: if_splits)
  then show ?thesis
    using assms
    by (simp add: parse_rfc3339_def long_year_four getnum_in_two expect_def zone_utc fraction_nanos)
qed

text \<open>
  \<open>time.Parse(time.RFC3339, _)\<close> undoes \<open>MarshalJSON\<close>: every instant it can write comes back, to the
  nanosecond.
\<close>

lemma parse_marshal_time:
  assumes "marshal_time t = Some s"
  shows "parse_rfc3339 s = Some t"
proof -
  define ns secs sod where defs: "ns = t mod nano" "secs = t div nano" "sod = secs mod 86400"
  obtain y m d where ymd: "civil_from_days (secs div 86400) = (y, m, d)" by (metis prod.exhaust)
  have y: "0 \<le> y" "y \<le> 9999"
    and s: "s = pad_left 4 (decimal (nat y)) @ ''-'' @ two m @ ''-'' @ two d @ ''T''
             @ two (sod div 3600) @ '':'' @ two (sod mod 3600 div 60) @ '':'' @ two (sod mod 60)
             @ nanos ns @ ''Z''"
    using assms by (auto simp: marshal_time_def Let_def defs [symmetric] ymd split: if_splits)
  note civil = civil_from_days_result [OF ymd]
  have ns: "0 \<le> ns" "ns < nano" and sod: "0 \<le> sod" "sod < 86400"
    by (simp_all add: defs nano_def)
  have split: "sod div 3600 * 3600 + sod mod 3600 = sod"
    "sod mod 3600 div 60 * 60 + sod mod 3600 mod 60 = sod mod 3600" by (rule div_mult_mod_eq)+
  have mod60: "sod mod 3600 mod 60 = sod mod 60" by (rule mod_mod_cancel) simp
  have ranges: "0 \<le> sod mod 3600" "sod mod 3600 < 3600" "0 \<le> sod mod 60" "sod mod 60 < 60" by simp_all
  have "0 \<le> sod div 3600" "0 \<le> sod mod 3600 div 60" using sod ranges by (simp_all add: pos_imp_zdiv_nonneg_iff)
  then have hms: "0 \<le> sod div 3600" "sod div 3600 \<le> 23" "0 \<le> sod mod 3600 div 60" "sod mod 3600 div 60 \<le> 59"
    "0 \<le> sod mod 60" "sod mod 60 \<le> 59" "sod div 3600 * 3600 + sod mod 3600 div 60 * 60 + sod mod 60 = sod"
    using split [unfolded mod60] ranges sod by linarith+
  have "days_from_civil y m d * 86400 + sod = secs" using civil by (simp add: defs(3))
  then have secs: "days_from_civil y m d * 86400 + sod div 3600 * 3600 + sod mod 3600 div 60 * 60 + sod mod 60 = secs"
    using hms(7) by linarith
  have "parse_rfc3339 s = Some (secs * nano + ns)"
    unfolding s using parse_fields [of y m d "sod div 3600" "sod mod 3600 div 60" "sod mod 60" ns] y civil hms ns
    unfolding secs by blast
  then show ?thesis by (simp add: defs)
qed

end
