(* ===== verification/Event_Delivery.thy ===== *)
theory Event_Delivery
  imports Publisher_Behaviour Go_TimeFormat
begin

text \<open>
  From the store to the topics: an envelope that the service marshals, PostgreSQL keeps as JSONB and the
  publisher unmarshals is the envelope it was, so what the service signs the publisher accepts, and
  every event of every request reaches its topic.
\<close>

subsection \<open>JSONB\<close>

text \<open>
  What PostgreSQL documents of JSONB: the value is the one stored, its keys are unique, its text is
  UTF-8, and a character is escaped only where JSON requires it.
\<close>

definition plain_text :: "string \<Rightarrow> bool" where
  "plain_text s \<longleftrightarrow> list_all (\<lambda>c. graphic c \<and> c \<notin> {dquote, backslash, CHR ''<'', CHR ''>'', CHR ''&''}) s"

definition literal_form :: "string \<Rightarrow> bool" where
  "literal_form l \<longleftrightarrow> utf8 (unquote l) \<and> (plain_text (unquote l) \<longrightarrow> l = unquote l)"

fun jsonb_form :: "json \<Rightarrow> bool" where
  "jsonb_form (JStr l) \<longleftrightarrow> literal_form l"
| "jsonb_form (JArr vs) \<longleftrightarrow> list_all jsonb_form vs"
| "jsonb_form (JObj ms) \<longleftrightarrow> distinct (map (unquote \<circ> fst) ms) \<and>
     list_all (\<lambda>(k, v). utf8 (unquote k) \<and> jsonb_form v) ms"
| "jsonb_form _ \<longleftrightarrow> True"

definition jsonb_laws :: "driver \<Rightarrow> bool" where
  "jsonb_laws d \<longleftrightarrow> (\<forall>j j'. d_jsonb d j = Some j' \<longrightarrow> number_free j \<longrightarrow>
     norm j' = norm j \<and> wf_json max_depth j' \<and> jsonb_form j')"

lemma set_go_map_distinct: "distinct (map fst ms) \<Longrightarrow> set (go_map ms) = set ms"
proof -
  assume d: "distinct (map fst ms)"
  have "distinct (map fst (go_map ms))" by (rule distinct_go_map)
  moreover have "map_of (go_map ms) = map_of ms"
    using d map_of_inject_set [of "rev ms" ms] by (simp add: map_of_go_map rev_map [symmetric])
  ultimately show ?thesis using d by (metis map_of_inject_set)
qed

text \<open>The members of an object, read against its normal form.\<close>

lemma jsonb_members:
  assumes "norm (JObj ms) = JObj es" and "jsonb_form (JObj ms)"
  shows "(k, v) \<in> set ms \<Longrightarrow> \<exists>q. (q, norm v) \<in> set es \<and> unquote k = unquote q"
    and "(q, w) \<in> set es \<Longrightarrow> \<exists>k v. (k, v) \<in> set ms \<and> unquote k = unquote q \<and> norm v = w"
proof -
  let ?ms = "map (\<lambda>(k, v). (unquote k, norm v)) ms"
  have "map fst ?ms = map (unquote \<circ> fst) ms" by (simp add: case_prod_unfold comp_def)
  then have "set (go_map ?ms) = set ?ms" using assms(2) by (intro set_go_map_distinct) (simp only: jsonb_form.simps)
  moreover have "es = map (\<lambda>(k, v). (quote k, v)) (go_map ?ms)"
    using assms(1) by (simp add: comp_def case_prod_unfold map_prod_def)
  ultimately have es: "set es = (\<lambda>(k, v). (quote (unquote k), norm v)) ` set ms" by force
  have un: "unquote (quote (unquote k)) = unquote k" if "(k, v) \<in> set ms" for k v
    using assms(2) that unquote_quote by (auto simp: list_all_iff)
  show "(k, v) \<in> set ms \<Longrightarrow> \<exists>q. (q, norm v) \<in> set es \<and> unquote k = unquote q"
    using es un by force
  show "(q, w) \<in> set es \<Longrightarrow> \<exists>k v. (k, v) \<in> set ms \<and> unquote k = unquote q \<and> norm v = w"
    using es un by force
qed

lemma jsonb_string:
  assumes "norm v = norm (jstr s)" and "jsonb_form v" and "utf8 s"
  obtains l where "v = JStr l" "unquote l = s" "plain_text s \<Longrightarrow> l = s"
proof -
  have "norm v = JStr (quote s)" using assms(1) norm_jstr [OF assms(3)] by (simp add: jstr_def)
  then obtain l where l: "v = JStr l" "quote (unquote l) = quote s" by (cases v) simp_all
  have form: "utf8 (unquote l)" "plain_text (unquote l) \<Longrightarrow> l = unquote l"
    using assms(2) l(1) by (simp_all add: literal_form_def)
  have "unquote (quote (unquote l)) = unquote (quote s)" using l(2) by (rule arg_cong)
  then have "unquote l = s" unfolding unquote_quote [OF form(1)] unquote_quote [OF assms(3)] .
  then show thesis using that l(1) form(2) by simp
qed

subsection \<open>Decoding field by field\<close>

text \<open>
  Members with distinct keys decode in any order: each decodes its own field, which \<open>agrees\<close> describes,
  and leaves the others alone.
\<close>

lemma decode_members_agree:
  assumes "distinct (map (unquote \<circ> fst) ms)"
    and "(unquote \<circ> fst) ` set ms \<subseteq> set names"
    and "\<And>k v s. (k, v) \<in> set ms \<Longrightarrow> fresh (unquote k) s \<Longrightarrow> \<exists>s'. f (unquote k) v s = Some s' \<and>
      agrees (unquote k) s' \<and> (\<forall>n. n \<noteq> unquote k \<longrightarrow> agrees n s' = agrees n s \<and> fresh n s' = fresh n s)"
    and "\<And>k v. (k, v) \<in> set ms \<Longrightarrow> fresh (unquote k) s"
  shows "\<exists>s'. decode_members strict names f ms s = Some s' \<and>
    (\<forall>n. if n \<in> (unquote \<circ> fst) ` set ms then agrees n s' else agrees n s' = agrees n s)"
  using assms
proof (induction ms arbitrary: s)
  case (Cons kv ms)
  obtain k v where kv: "kv = (k, v)" by (cases kv)
  let ?n = "unquote k"
  have "fresh ?n s" using Cons.prems(4) [of k v] kv by simp
  then obtain s1 where s1: "f ?n v s = Some s1" "agrees ?n s1"
    "\<And>n. n \<noteq> ?n \<Longrightarrow> agrees n s1 = agrees n s \<and> fresh n s1 = fresh n s"
    using Cons.prems(3) [of k v s] kv by auto
  have new: "unquote k' \<noteq> ?n" if "(k', v') \<in> set ms" for k' v'
    using Cons.prems(1) that kv by force
  have "fresh (unquote k') s1" if "(k', v') \<in> set ms" for k' v'
    using Cons.prems(4) [of k' v'] that new [OF that] s1(3) by simp
  then have "\<exists>s2. decode_members strict names f ms s1 = Some s2 \<and>
      (\<forall>n. if n \<in> (unquote \<circ> fst) ` set ms then agrees n s2 else agrees n s2 = agrees n s1)"
    using Cons.prems(1) kv
    by (intro Cons.IH) (use Cons.prems(2,3) in \<open>simp_all\<close>)
  then obtain s2 where s2: "decode_members strict names f ms s1 = Some s2"
    "\<forall>n. if n \<in> (unquote \<circ> fst) ` set ms then agrees n s2 else agrees n s2 = agrees n s1"
    by blast
  have "field_of names ?n = Some ?n" using Cons.prems(2) kv by (simp add: field_of_def)
  then have "decode_members strict names f (kv # ms) s = Some s2" using kv s1(1) s2(1) by simp
  moreover have "if n \<in> (unquote \<circ> fst) ` set (kv # ms) then agrees n s2 else agrees n s2 = agrees n s" for n
    using s2(2) [rule_format, of n] s1(2,3) kv new by (auto split: if_splits)
  ultimately show ?case by blast
qed simp

subsection \<open>An envelope comes back\<close>

definition provenance_part :: "string \<Rightarrow> provenance \<Rightarrow> string" where
  "provenance_part n p =
     (if n = ''principalId'' then pr_principal_id p else if n = ''principalRole'' then pr_principal_role p
      else if n = ''signature'' then pr_signature p else pr_ledger_commit_hash p)"

lemma provenance_parts: "(\<forall>n \<in> set provenance_fields. provenance_part n p = provenance_part n q) \<Longrightarrow> p = q"
  by (cases p; cases q) (simp add: provenance_fields_def provenance_part_def)

lemma plain_names:
  "unquote ''principalId'' = ''principalId''" "unquote ''principalRole'' = ''principalRole''"
  "unquote ''signature'' = ''signature''" "unquote ''ledgerCommitHash'' = ''ledgerCommitHash''"
  "unquote ''envelopeVersion'' = ''envelopeVersion''" "unquote ''eventId'' = ''eventId''"
  "unquote ''eventType'' = ''eventType''" "unquote ''occurredAt'' = ''occurredAt''"
  "unquote ''producer'' = ''producer''" "unquote ''correlationId'' = ''correlationId''"
  "unquote ''classification'' = ''classification''" "unquote ''fhir'' = ''fhir''" "unquote ''provenance'' = ''provenance''"
  by code_simp+

lemma provenance_object:
  "\<exists>es. norm (provenance_json p) = JObj es \<and>
     (\<forall>(q, w) \<in> set es. unquote q \<in> set provenance_fields \<and> w = norm (jstr (provenance_part (unquote q) p))) \<and>
     (\<forall>n \<in> set provenance_fields. n \<in> (unquote \<circ> fst) ` set es \<or> provenance_part n p = [])"
  by (cases "pr_ledger_commit_hash p = []")
    (simp_all add: provenance_json_def norm_provenance provenance_fields_def provenance_part_def plain_names del: norm.simps)

definition provenance_utf8 :: "provenance \<Rightarrow> bool" where
  "provenance_utf8 p \<longleftrightarrow> (\<forall>n \<in> set provenance_fields. utf8 (provenance_part n p))"

text \<open>A member that is the string of a part of the provenance is read into that part, and only there.\<close>

lemma provenance_step:
  assumes "n \<in> set provenance_fields" and "norm w = norm (jstr (provenance_part n p))" and "jsonb_form w"
    and "utf8 (provenance_part n p)"
  shows "\<exists>s'. provenance_field n w s = Some s' \<and> provenance_part n s' = provenance_part n p \<and>
    (\<forall>k \<in> set provenance_fields. k \<noteq> n \<longrightarrow> provenance_part k s' = provenance_part k s)"
proof -
  obtain l where l: "w = JStr l" "unquote l = provenance_part n p"
    using jsonb_string [OF assms(2-4)] by blast
  show ?thesis
    using assms(1) unfolding l(1) provenance_fields_def
    by (auto simp: provenance_field_def provenance_part_def field_def decode_string_def l(2))
qed

lemma decode_provenance:
  assumes "norm v = norm (provenance_json p)" and "jsonb_form v" and "provenance_utf8 p"
  shows "decode_struct False provenance_fields provenance_field v (e_provenance empty_envelope) = Some p"
proof -
  let ?empty = "e_provenance empty_envelope"
  obtain es where es: "norm v = JObj es"
    "\<And>q w. (q, w) \<in> set es \<Longrightarrow> unquote q \<in> set provenance_fields \<and> w = norm (jstr (provenance_part (unquote q) p))"
    "\<And>n. n \<in> set provenance_fields \<Longrightarrow> n \<in> (unquote \<circ> fst) ` set es \<or> provenance_part n p = []"
    using provenance_object [of p] assms(1) by auto
  then obtain ms where v: "v = JObj ms" by (cases v) simp_all
  note members = jsonb_members [OF es(1) [unfolded v] assms(2) [unfolded v]]
  have part: "unquote k \<in> set provenance_fields \<and> norm w = norm (jstr (provenance_part (unquote k) p))"
    if "(k, w) \<in> set ms" for k w
    using members(1) [OF that] es(2) by fastforce
  let ?agrees = "\<lambda>n s. n \<in> set provenance_fields \<longrightarrow> provenance_part n s = provenance_part n p"
  have "\<exists>s'. decode_members False provenance_fields provenance_field ms ?empty = Some s' \<and>
    (\<forall>n. if n \<in> (unquote \<circ> fst) ` set ms then ?agrees n s' else ?agrees n s' = ?agrees n ?empty)"
  proof (rule decode_members_agree [where fresh = "\<lambda>_ _. True"])
    show "distinct (map (unquote \<circ> fst) ms)" using assms(2) v by simp
    show "(unquote \<circ> fst) ` set ms \<subseteq> set provenance_fields" using part by auto
    fix k w s
    assume kw: "(k, w) \<in> set ms"
    have "jsonb_form w" "utf8 (provenance_part (unquote k) p)"
      using part [OF kw] assms(2,3) kw by (auto simp: v list_all_iff provenance_utf8_def)
    then obtain s' where "provenance_field (unquote k) w s = Some s'"
      "provenance_part (unquote k) s' = provenance_part (unquote k) p"
      "\<And>n. n \<in> set provenance_fields \<Longrightarrow> n \<noteq> unquote k \<Longrightarrow> provenance_part n s' = provenance_part n s"
      using provenance_step part [OF kw] by blast
    then show "\<exists>s'. provenance_field (unquote k) w s = Some s' \<and> ?agrees (unquote k) s' \<and>
        (\<forall>n. n \<noteq> unquote k \<longrightarrow> ?agrees n s' = ?agrees n s \<and> True = True)"
      by (intro exI [of _ s']) auto
  qed simp
  then obtain s' where s': "decode_members False provenance_fields provenance_field ms ?empty = Some s'"
    "\<And>n. if n \<in> (unquote \<circ> fst) ` set ms then ?agrees n s' else ?agrees n s' = ?agrees n ?empty" by blast
  have "provenance_part n s' = provenance_part n p" if n: "n \<in> set provenance_fields" for n
  proof (cases "n \<in> (unquote \<circ> fst) ` set ms")
    case True
    then show ?thesis using s'(2) [of n] n by simp
  next
    case False
    then have "n \<notin> (unquote \<circ> fst) ` set es" using members(2) by force
    then have "provenance_part n p = []" using es(3) [OF n] by blast
    then show ?thesis
      using s'(2) [of n] False n by (simp add: provenance_part_def empty_envelope_def)
  qed
  then have "s' = p" by (intro provenance_parts) blast
  then show ?thesis using s'(1) v by (simp add: decode_struct_def)
qed

text \<open>The member of an envelope's object under a name, and what it means that a decoder has read it.\<close>

definition envelope_text :: "string \<Rightarrow> envelope \<Rightarrow> string" where
  "envelope_text n e =
     (if n = ''envelopeVersion'' then e_envelope_version e else if n = ''eventId'' then e_event_id e
      else if n = ''eventType'' then e_event_type e else if n = ''producer'' then e_producer e
      else if n = ''correlationId'' then e_correlation_id e else e_classification e)"

definition envelope_member :: "string \<Rightarrow> string \<Rightarrow> envelope \<Rightarrow> json" where
  "envelope_member n t e =
     (if n = ''occurredAt'' then jstr t else if n = ''fhir'' then e_fhir e
      else if n = ''provenance'' then provenance_json (e_provenance e) else jstr (envelope_text n e))"

definition envelope_agrees :: "envelope \<Rightarrow> string \<Rightarrow> envelope \<Rightarrow> bool" where
  "envelope_agrees e n s =
     (if n = ''occurredAt'' then e_occurred_at s = e_occurred_at e
      else if n = ''fhir'' then norm (e_fhir s) = norm (e_fhir e)
      else if n = ''provenance'' then e_provenance s = e_provenance e
      else n \<in> set envelope_fields \<longrightarrow> envelope_text n s = envelope_text n e)"

lemma envelope_object:
  assumes "marshal_envelope e = Inr j"
  obtains t es where "marshal_time (e_occurred_at e) = Some t" "norm j = JObj es"
    "\<And>q w. (q, w) \<in> set es \<Longrightarrow> unquote q \<in> set envelope_fields \<and> w = norm (envelope_member (unquote q) t e)"
    "set envelope_fields \<subseteq> (unquote \<circ> fst) ` set es"
proof -
  obtain t where t: "marshal_time (e_occurred_at e) = Some t"
    using assms by (auto simp: marshal_envelope_def split: option.splits)
  show thesis
    using assms t
    by (intro that [OF t, of "[(''classification'', norm (jstr (e_classification e))),
          (''correlationId'', norm (jstr (e_correlation_id e))), (''envelopeVersion'', norm (jstr (e_envelope_version e))),
          (''eventId'', norm (jstr (e_event_id e))), (''eventType'', norm (jstr (e_event_type e))),
          (''fhir'', norm (e_fhir e)), (''occurredAt'', norm (jstr t)), (''producer'', norm (jstr (e_producer e))),
          (''provenance'', norm (provenance_json (e_provenance e)))]"])
      (auto simp: marshal_envelope_def norm_envelope envelope_fields_def envelope_member_def envelope_text_def
        plain_names simp del: norm.simps)
qed

lemma marshal_time_plain: "marshal_time x = Some t \<Longrightarrow> plain_text t \<and> utf8 t"
proof -
  assume t: "marshal_time x = Some t"
  have digits: "is_digit c \<Longrightarrow> graphic c \<and> c \<notin> {dquote, backslash, CHR ''<'', CHR ''>'', CHR ''&''}" for c
    by (auto simp: is_digit_def graphic_def)
  have num: "list_all is_digit (pad_left w (decimal n))" for w n
    using decimal_digits [of n] by (auto simp: pad_left_def list_all_iff is_digit_def)
  have two: "list_all is_digit (two n)" for n unfolding two_def by (rule num)
  have frac: "nanos n = [] \<or> (\<exists>ds. nanos n = CHR ''.'' # ds \<and> list_all is_digit ds)" for n
    using num [of 9 "nat n"] by (auto simp: nanos_def list_all_iff dest!: set_dropWhileD)
  have "list_all (\<lambda>c. is_digit c \<or> c \<in> set ''-T:.Z'') t"
    using t frac [of "x mod nano"] two num [of 4]
    by (auto simp: marshal_time_def Let_def list_all_iff split: prod.splits if_splits)
  then have "plain_text t" unfolding plain_text_def by (rule list.pred_mono_strong) (use digits in \<open>auto simp: graphic_def\<close>)
  then show ?thesis using utf8_ascii [OF marshal_time_ascii [OF t]] by simp
qed

definition text_fields :: "string list" where
  "text_fields = [''envelopeVersion'', ''eventId'', ''eventType'', ''producer'', ''correlationId'', ''classification'']"

lemma envelope_fields_split:
  "n \<in> set envelope_fields \<longleftrightarrow> n \<in> set text_fields \<or> n \<in> {''occurredAt'', ''fhir'', ''provenance''}"
  by (auto simp: envelope_fields_def text_fields_def)

lemma decode_text_field:
  assumes "n \<in> set text_fields"
  shows "\<exists>s'. envelope_field n (JStr l) s = Some s' \<and> e_occurred_at s' = e_occurred_at s \<and> e_fhir s' = e_fhir s \<and>
    e_provenance s' = e_provenance s \<and>
    (\<forall>m \<in> set text_fields. envelope_text m s' = (if m = n then unquote l else envelope_text m s))"
proof -
  have "n = ''envelopeVersion'' \<or> n = ''eventId'' \<or> n = ''eventType'' \<or> n = ''producer'' \<or> n = ''correlationId''
      \<or> n = ''classification''" using assms by (simp add: text_fields_def)
  then show ?thesis
    by (elim disjE)
      (simp_all add: envelope_field_def field_def decode_string_def text_fields_def envelope_text_def)
qed

lemma agrees_updates:
  "envelope_agrees e m (s\<lparr>e_occurred_at := x\<rparr>) \<longleftrightarrow> (if m = ''occurredAt'' then x = e_occurred_at e else envelope_agrees e m s)"
  "envelope_agrees e m (s\<lparr>e_fhir := j\<rparr>) \<longleftrightarrow> (if m = ''fhir'' then norm j = norm (e_fhir e) else envelope_agrees e m s)"
  "envelope_agrees e m (s\<lparr>e_provenance := p\<rparr>) \<longleftrightarrow> (if m = ''provenance'' then p = e_provenance e else envelope_agrees e m s)"
  by (simp_all add: envelope_agrees_def envelope_text_def)

lemma decode_envelope_field:
  assumes "n \<in> set envelope_fields" and "norm v = norm (envelope_member n t e)" and "jsonb_form v"
    and "marshal_time (e_occurred_at e) = Some t" and "envelope_utf8 e" and "provenance_utf8 (e_provenance e)"
    and "n = ''provenance'' \<Longrightarrow> e_provenance s = e_provenance empty_envelope"
  shows "\<exists>s'. envelope_field n v s = Some s' \<and> envelope_agrees e n s' \<and>
    (\<forall>m. m \<noteq> n \<longrightarrow> envelope_agrees e m s' = envelope_agrees e m s) \<and>
    (n \<noteq> ''provenance'' \<longrightarrow> e_provenance s' = e_provenance s)"
proof -
  consider "n = ''occurredAt''" | "n = ''fhir''" | "n = ''provenance''" | "n \<in> set text_fields"
    using assms(1) by (auto simp: envelope_fields_split)
  then show ?thesis
  proof cases
    case 1
    note t = marshal_time_plain [OF assms(4)]
    have "norm v = norm (jstr t)" using assms(2) 1 by (simp add: envelope_member_def)
    from jsonb_string [OF this assms(3) conjunct2 [OF t]] obtain l where l: "v = JStr l" "l = t" using t by blast
    then show ?thesis
      using 1 parse_marshal_time [OF assms(4)]
      by (simp add: envelope_field_def field_def decode_time_def agrees_updates)
  next
    case 2
    then show ?thesis
      using assms(2) by (simp add: envelope_field_def field_def agrees_updates envelope_member_def)
  next
    case 3
    then have "norm v = norm (provenance_json (e_provenance e))" using assms(2) by (simp add: envelope_member_def)
    then have "decode_struct False provenance_fields provenance_field v (e_provenance s) = Some (e_provenance e)"
      using decode_provenance [OF _ assms(3,6)] assms(7) 3 by simp
    then show ?thesis
      using 3 by (simp add: envelope_field_def field_def agrees_updates)
  next
    case 4
    then have n: "n \<notin> {''occurredAt'', ''fhir'', ''provenance''}" by (auto simp: text_fields_def)
    have "utf8 (envelope_text n e)"
      using assms(5) by (simp add: envelope_text_def envelope_utf8_def)
    moreover have "norm v = norm (jstr (envelope_text n e))"
      using assms(2) n by (simp add: envelope_member_def del: norm.simps)
    ultimately obtain l where l: "v = JStr l" "unquote l = envelope_text n e"
      using jsonb_string [OF _ assms(3)] by blast
    obtain s' where s': "envelope_field n (JStr l) s = Some s'" "e_occurred_at s' = e_occurred_at s"
      "e_fhir s' = e_fhir s" "e_provenance s' = e_provenance s"
      "\<And>m. m \<in> set text_fields \<Longrightarrow> envelope_text m s' = (if m = n then unquote l else envelope_text m s)"
      using decode_text_field [OF 4, of l s] by blast
    have "envelope_agrees e m s' = (if m = n then True else envelope_agrees e m s)" for m
      using s' l(2) n by (simp add: envelope_agrees_def envelope_fields_split)
    then show ?thesis using s'(1,4) l(1) by (intro exI [of _ s']) simp
  qed
qed

lemma envelope_agrees_eq:
  assumes "\<And>n. n \<in> set envelope_fields \<Longrightarrow> envelope_agrees e n s"
  shows "s = e\<lparr>e_fhir := e_fhir s\<rparr> \<and> norm (e_fhir s) = norm (e_fhir e)"
  using assms [of "''envelopeVersion''"] assms [of "''eventId''"] assms [of "''eventType''"]
    assms [of "''occurredAt''"] assms [of "''producer''"] assms [of "''correlationId''"]
    assms [of "''classification''"] assms [of "''fhir''"] assms [of "''provenance''"]
  by (cases s; cases e) (simp add: envelope_fields_def envelope_agrees_def envelope_text_def)

lemma decode_marshalled:
  assumes "marshal_envelope e = Inr j" and "norm j' = norm j" and "jsonb_form j'"
    and "envelope_utf8 e" and "provenance_utf8 (e_provenance e)"
  shows "\<exists>s. decode_struct False envelope_fields envelope_field j' empty_envelope = Some s \<and>
    s = e\<lparr>e_fhir := e_fhir s\<rparr> \<and> norm (e_fhir s) = norm (e_fhir e)"
proof -
  obtain t es where t: "marshal_time (e_occurred_at e) = Some t" and es: "norm j' = JObj es"
    "\<And>q w. (q, w) \<in> set es \<Longrightarrow> unquote q \<in> set envelope_fields \<and> w = norm (envelope_member (unquote q) t e)"
    "set envelope_fields \<subseteq> (unquote \<circ> fst) ` set es"
    using envelope_object [OF assms(1)] assms(2) by metis
  then obtain ms where j': "j' = JObj ms" by (cases j') simp_all
  note members = jsonb_members [OF es(1) [unfolded j'] assms(3) [unfolded j']]
  have part: "unquote k \<in> set envelope_fields \<and> norm w = norm (envelope_member (unquote k) t e)"
    if "(k, w) \<in> set ms" for k w
    using members(1) [OF that] es(2) by fastforce
  have "\<exists>s'. decode_members False envelope_fields envelope_field ms empty_envelope = Some s' \<and>
    (\<forall>n. if n \<in> (unquote \<circ> fst) ` set ms then envelope_agrees e n s' else envelope_agrees e n s' = envelope_agrees e n empty_envelope)"
  proof (rule decode_members_agree
      [where fresh = "\<lambda>n s. n = ''provenance'' \<longrightarrow> e_provenance s = e_provenance empty_envelope"])
    show "distinct (map (unquote \<circ> fst) ms)" using assms(3) j' by simp
    show "(unquote \<circ> fst) ` set ms \<subseteq> set envelope_fields" using part by auto
    fix k w and s :: envelope
    assume kw: "(k, w) \<in> set ms" "unquote k = ''provenance'' \<longrightarrow> e_provenance s = e_provenance empty_envelope"
    have form: "jsonb_form w" using assms(3) kw(1) by (auto simp: j' list_all_iff)
    obtain s' where "envelope_field (unquote k) w s = Some s'" "envelope_agrees e (unquote k) s'"
      "\<And>m. m \<noteq> unquote k \<Longrightarrow> envelope_agrees e m s' = envelope_agrees e m s"
      "unquote k \<noteq> ''provenance'' \<Longrightarrow> e_provenance s' = e_provenance s"
      using decode_envelope_field [OF conjunct1 [OF part [OF kw(1)]] conjunct2 [OF part [OF kw(1)]] form t assms(4,5)] kw(2)
      by blast
    then show "\<exists>s'. envelope_field (unquote k) w s = Some s' \<and> envelope_agrees e (unquote k) s' \<and>
        (\<forall>n. n \<noteq> unquote k \<longrightarrow> envelope_agrees e n s' = envelope_agrees e n s \<and>
          (n = ''provenance'' \<longrightarrow> e_provenance s' = e_provenance empty_envelope) =
          (n = ''provenance'' \<longrightarrow> e_provenance s = e_provenance empty_envelope))"
      by (intro exI [of _ s']) auto
  qed simp
  then obtain s' where s': "decode_members False envelope_fields envelope_field ms empty_envelope = Some s'"
    "\<And>n. if n \<in> (unquote \<circ> fst) ` set ms then envelope_agrees e n s' else envelope_agrees e n s' = envelope_agrees e n empty_envelope"
    by blast
  have "(unquote \<circ> fst) ` set es \<subseteq> (unquote \<circ> fst) ` set ms" using members(2) by force
  then have "envelope_agrees e n s'" if "n \<in> set envelope_fields" for n
  proof -
    have "n \<in> (unquote \<circ> fst) ` set ms" using es(3) \<open>_ \<subseteq> (unquote \<circ> fst) ` set ms\<close> that by blast
    then show ?thesis using s'(2) [of n] by simp
  qed
  then show ?thesis
    using s'(1) envelope_agrees_eq by (simp add: j' decode_struct_def)
qed

lemma unmarshal_stored:
  assumes "marshal_envelope e = Inr j" and "number_free (e_fhir e)"
    and "envelope_utf8 e" and "provenance_utf8 (e_provenance e)"
    and "jsonb_laws d" and "d_jsonb d j = Some j'" and "publish_laws x"
  shows "\<exists>s. unmarshal_envelope (px_text x j') = Some s \<and> s = e\<lparr>e_fhir := e_fhir s\<rparr> \<and> norm (e_fhir s) = norm (e_fhir e)"
proof -
  have "number_free j"
    using assms(1,2) by (auto simp: marshal_envelope_def provenance_json_def jstr_def split: option.splits)
  then have j': "norm j' = norm j" "wf_json max_depth j'" "jsonb_form j'"
    using assms(5,6) by (auto simp: jsonb_laws_def)
  then have "json_all (px_text x j') = Some j'" using assms(7) by (simp add: publish_laws_def)
  then show ?thesis using decode_marshalled [OF assms(1) j'(1,3) assms(3,4)] by (simp add: unmarshal_envelope_def)
qed

text \<open>
  (C12) An envelope survives its way through the outbox: what \<open>json.Marshal\<close> writes, PostgreSQL keeps as
  JSONB (its keys reordered, its strings respelled) and \<open>json.Unmarshal\<close> reads is the same envelope,
  the time to the nanosecond and the FHIR bundle as the same JSON value.
\<close>

theorem envelope_roundtrip:
  assumes "marshal_envelope e = Inr j" and "number_free (e_fhir e)"
    and "envelope_utf8 e" and "provenance_utf8 (e_provenance e)"
    and "jsonb_laws d" and "d_jsonb d j = Some j'" and "publish_laws x"
  shows "\<exists>s. unmarshal_envelope (px_text x j') = Some s \<and> s = e\<lparr>e_fhir := e_fhir s\<rparr> \<and> norm (e_fhir s) = norm (e_fhir e)"
  using assms by (rule unmarshal_stored)

subsection \<open>What the service signs, the publisher accepts\<close>

lemma verify_respelled:
  assumes "s = e\<lparr>e_fhir := e_fhir s\<rparr>" and "norm (e_fhir s) = norm (e_fhir e)"
  shows "verify L s pk = verify L e pk"
proof -
  have p: "e_provenance s = e_provenance e" "e_occurred_at s = e_occurred_at e"
    by (subst assms(1), simp)+
  have "signed_content s t = signed_content e t" for t
    unfolding signed_content_def assms(2) by (subst (1 2 3 4 5 6 7) assms(1)) simp
  then have "canonical_payload L s = canonical_payload L e"
    unfolding canonical_payload_eq p by presburger
  then show ?thesis unfolding verify_def using p by (intro verify_cong) simp_all
qed

lemma graphic_utf8: "list_all graphic s \<Longrightarrow> utf8 s"
  by (rule utf8_ascii) (auto simp: list_all_iff graphic_def)

lemma uuid_utf8: "uuid_shape u \<Longrightarrow> utf8 u"
  using uuid_shape_plain [of u] plain_graphic by (auto intro!: graphic_utf8 simp: list_all_iff)

lemma sign_graphic: "sign L s e = Inr sg \<Longrightarrow> list_all graphic sg"
  by (auto simp: sign_def Let_def b64_encode_graphic graphic_def split: sum.splits)

lemma message_Inr:
  assumes "message L ids et topic corr sid payload exts pr at (Some s) = Inr env"
  shows "\<exists>e sg. env = e\<lparr>e_provenance := (e_provenance e)\<lparr>pr_signature := sg\<rparr>\<rparr> \<and> sign L s e = Inr sg \<and>
    number_free (e_fhir e) \<and> e_provenance e = pr \<and> e_envelope_version e = EnvelopeVersion \<and> e_event_id e = snd ids \<and>
    e_event_type e = et \<and> e_producer e = Producer \<and> e_correlation_id e = corr \<and> e_classification e = ClassificationIntern"
proof -
  let ?e = "\<lambda>b. \<lparr>e_envelope_version = EnvelopeVersion, e_event_id = snd ids, e_event_type = et, e_occurred_at = at,
    e_producer = Producer, e_correlation_id = corr, e_classification = ClassificationIntern, e_fhir = b, e_provenance = pr\<rparr>"
  obtain es b sg where "marshal_bundle (message_bundle (fst ids) et sid at es) = Inr b"
    "sign L s (?e b) = Inr sg" "env = ?e b\<lparr>e_provenance := pr\<lparr>pr_signature := sg\<rparr>\<rparr>"
    using assms by (auto simp: message_def Let_def split: if_splits sum.splits)
  then show ?thesis using marshal_bundle_free(1) by (intro exI [of _ "?e b"] exI [of _ sg]) auto
qed

definition signing_keys :: "libs \<Rightarrow> store \<Rightarrow> string \<Rightarrow> bool" where
  "signing_keys L st pk \<longleftrightarrow> ed25519_laws L \<and> utf8 (st_principal_id st) \<and> utf8 (st_principal_role st) \<and>
     (\<forall>s. st_signer st = Some s \<longrightarrow> pk = signer_public_key s \<and>
        (\<exists>seed epoch. length seed = 32 \<and> new_signer (l_new_key L seed) epoch = Inr s))"

lemma signed_publishable:
  assumes "signing_keys L st pk" and "jsonb_laws d" and "publish_laws x" and "st_signer st = Some s"
    and "message L ids et topic corr sid payload exts \<lparr>pr_principal_id = st_principal_id st,
      pr_principal_role = st_principal_role st, pr_signature = [], pr_ledger_commit_hash = []\<rparr> at (Some s) = Inr env"
    and "utf8 (snd ids)" and "utf8 et" and "utf8 corr"
    and "marshal_envelope env = Inr j" and "d_jsonb d j = Some j'"
  shows "\<exists>e. unmarshal_envelope (px_text x j') = Some e \<and> verify L e pk = None"
proof -
  obtain e sg where env: "env = e\<lparr>e_provenance := (e_provenance e)\<lparr>pr_signature := sg\<rparr>\<rparr>" and sg: "sign L s e = Inr sg"
    and e: "number_free (e_fhir e)" "e_provenance e = \<lparr>pr_principal_id = st_principal_id st,
      pr_principal_role = st_principal_role st, pr_signature = [], pr_ledger_commit_hash = []\<rparr>"
      "e_envelope_version e = EnvelopeVersion" "e_event_id e = snd ids" "e_event_type e = et" "e_producer e = Producer"
      "e_correlation_id e = corr" "e_classification e = ClassificationIntern"
    using message_Inr [OF assms(5)] by blast
  obtain seed epoch where key: "ed25519_laws L" "length seed = 32" "new_signer (l_new_key L seed) epoch = Inr s"
    "pk = signer_public_key s" and ids: "utf8 (st_principal_id st)" "utf8 (st_principal_role st)"
    using assms(1,4) by (auto simp: signing_keys_def)
  have "utf8 EnvelopeVersion" "utf8 Producer" "utf8 ClassificationIntern" "utf8 []" by code_simp+
  then have "envelope_utf8 env" "provenance_utf8 (e_provenance env)"
    using e ids assms(6-8) graphic_utf8 [OF sign_graphic [OF sg]]
    by (simp_all add: env envelope_utf8_def provenance_utf8_def provenance_fields_def provenance_part_def)
  moreover have "number_free (e_fhir env)" using e(1) by (simp add: env)
  ultimately obtain r where r: "unmarshal_envelope (px_text x j') = Some r" "r = env\<lparr>e_fhir := e_fhir r\<rparr>"
    "norm (e_fhir r) = norm (e_fhir env)"
    using unmarshal_stored [OF assms(9) _ _ _ assms(2,10,3)] by blast
  have "verify L env pk = None" unfolding env key(4) by (rule sign_verifies [OF key(1-3) sg])
  then show ?thesis using r(1) verify_respelled [OF r(2,3)] by simp
qed

lemma enqueue_publishable:
  assumes "signing_keys L st pk" and "jsonb_laws d" and "utf8 (snd (e_message_uuids e))" and "utf8 et" and "utf8 corr"
    and "enqueue_outbox L d st e tx et topic corr subject payload at = Inr tx'"
  obtains rows where "evidence_outbox tx' = evidence_outbox tx @ rows"
    and "\<And>x r. publish_laws x \<Longrightarrow> r \<in> set rows \<Longrightarrow> publishable L pk (pending_of x r)"
proof (cases "st_signer st")
  case None
  then show ?thesis using assms(6) that [of "[]"] by (simp add: enqueue_outbox_def)
next
  case (Some s)
  then obtain payload_text env j i j' where
    msg: "message L (e_message_uuids e) et topic corr subject payload_text [] \<lparr>pr_principal_id = st_principal_id st,
      pr_principal_role = st_principal_role st, pr_signature = [], pr_ledger_commit_hash = []\<rparr> at (Some s) = Inr env"
    and j: "marshal_envelope env = Inr j" "d_jsonb d j = Some j'"
    and ins: "insert_outbox (service_on e) tx
      \<lparr>o_event_id = e_outbox_uuid e, o_evidence_package_id = i, o_topic = topic,
       o_event_type = et, o_payload = j', o_created_at = e_now e, o_published_at = None\<rparr> = Inr tx'"
    using assms(6) by (auto simp: enqueue_outbox_def call_Inr bind_params_Inr split: sum.splits)
  show ?thesis
  proof (rule that)
    show "evidence_outbox tx' = evidence_outbox tx @ [\<lparr>o_event_id = e_outbox_uuid e, o_evidence_package_id = i,
        o_topic = topic, o_event_type = et, o_payload = j', o_created_at = e_now e, o_published_at = None\<rparr>]"
      using ins by (simp add: insert_outbox_Inr)
  qed (use signed_publishable [OF assms(1,2) _ Some msg assms(3-5) j] in \<open>simp add: publishable_def pending_of_def\<close>)
qed

subsection \<open>Every event is delivered\<close>

definition all_publishable :: "libs \<Rightarrow> string \<Rightarrow> database \<Rightarrow> bool" where
  "all_publishable L pk db \<longleftrightarrow>
     (\<forall>r \<in> set (evidence_outbox db). \<forall>x. publish_laws x \<longrightarrow> publishable L pk (pending_of x r))"

lemma commit_outbox:
  "commit e m db tx v = (res, db') \<Longrightarrow> all_publishable L pk db \<Longrightarrow> all_publishable L pk tx \<Longrightarrow> all_publishable L pk db'"
  using commit_db by metis

lemma all_publishable_enqueue:
  assumes "all_publishable L pk db" and "evidence_outbox tx = evidence_outbox db"
    and "signing_keys L st pk" "jsonb_laws d" "utf8 (snd (e_message_uuids e))" "utf8 et" "utf8 corr"
    and "enqueue_outbox L d st e tx et topic corr subject payload at = Inr tx'"
  shows "all_publishable L pk tx'"
  using enqueue_publishable [OF assms(3-8)] assms(1,2) by (metis Un_iff all_publishable_def set_append)

lemma create_publishable:
  assumes inv: "all_publishable L pk db" and d: "driver_laws d" "jsonb_laws d"
    and st: "signing_keys L st pk" and u: "uuid_shape (snd (e_message_uuids e))"
    and run: "create L d st e db r = (res, db')"
  shows "all_publishable L pk db'"
  using create_paths [OF run]
proof (elim disjE exE conjE)
  fix tx p tx2 tx3
  assume ins: "call e InsertPackage (bind_params (package_row d e r) (insert_package db)) = Inr (tx, Some p)"
    and hist: "call e InsertInitialHistory (insert_history tx (initial_history e p)) = Inr tx2"
    and enq: "enqueue_outbox L d st e tx2 ''evidence.package.received'' TopicPackage (p_correlation_id p)
         (p_evidence_package_id p) (received_payload p) (p_received_at p) = Inr tx3"
    and com: "commit e ''commit evidence creation'' db tx3 (p, True) = (res, db')"
  have row: "package_row d e r = Some p" and tx: "evidence_outbox tx2 = evidence_outbox db"
    using ins hist by (auto simp: call_Inr bind_params_Inr insert_package_Some insert_history_Inr)
  have "utf8 (p_correlation_id p)"
    using package_row_fields(6) [OF row] d(1) uuid_utf8 by (auto simp: driver_laws_def)
  moreover have "utf8 ''evidence.package.received''" by code_simp
  ultimately have "all_publishable L pk tx3"
    using all_publishable_enqueue [OF inv tx st d(2) uuid_utf8 [OF u] _ _ enq] by blast
  then show ?thesis using commit_outbox [OF com inv] by blast
next
  fix tx p
  assume "call e InsertPackage (bind_params (package_row d e r) (insert_package db)) = Inr (tx, None)"
    and "commit e ''commit idempotent lookup'' db tx (p, False) = (res, db')"
  then show ?thesis using inv commit_outbox by (auto simp: call_Inr bind_params_Inr insert_package_None)
qed (use inv in simp)

lemma update_status_outbox: "update_status d tx i s = Inr tx' \<Longrightarrow> evidence_outbox tx' = evidence_outbox tx"
  by (auto simp: update_status_def bind_params_Inr update_packages_def split: if_splits)

lemma record_publishable:
  assumes inv: "all_publishable L pk db" and d: "jsonb_laws d" and st: "signing_keys L st pk"
    and u: "uuid_shape (snd (e_message_uuids e))" and v: "validation_validate v = None"
    and run: "record_validation L d st e db i v = (res, db')"
  shows "all_publishable L pk db'"
proof -
  consider "db' = db"
    | prior tx tx2 tx3 where
      "call e InsertValidation (bind_params (validation_row d e i prior v) (insert_history db)) = Inr tx"
      "call e UpdateStatus (update_status d tx i (v_validation_status v)) = Inr tx2"
      "enqueue_outbox L d st e tx2 ''evidence.validation.recorded'' TopicValidation
         (v_correlation_id v) i (recorded_payload i prior v) (v_occurred_at v) = Inr tx3"
      "commit e ''commit validation history'' db tx3 () = (res, db')"
    using record_paths [OF run] by blast
  then show ?thesis
  proof cases
    case 1
    then show ?thesis using inv by simp
  next
    case (2 prior tx tx2 tx3)
    have tx: "evidence_outbox tx2 = evidence_outbox db"
      using 2(1,2) update_status_outbox by (auto simp: call_Inr bind_params_Inr insert_history_Inr)
    have "utf8 (v_correlation_id v)"
      using v by (intro uuid_utf8) (simp add: validation_validate_wf validation_wf_def)
    moreover have "utf8 ''evidence.validation.recorded''" by code_simp
    ultimately have "all_publishable L pk tx3"
      using all_publishable_enqueue [OF inv tx st d uuid_utf8 [OF u] _ _ 2(3)] by blast
    then show ?thesis using commit_outbox [OF 2(4) inv] by blast
  qed
qed

lemma mark_rows_pending:
  "r \<in> set (mark_rows ids t rows) \<Longrightarrow> \<exists>q \<in> set rows. \<forall>y. pending_of y r = pending_of y q"
proof (drule mark_rows_set, elim bexE)
  fix q
  assume "q \<in> set rows" "r = q \<or> o_event_id q \<in> ids \<and> o_published_at q = None \<and> r = q\<lparr>o_published_at := Some t\<rparr>"
  then show ?thesis by (intro bexI [of _ q]) (auto simp: pending_of_def)
qed

lemma batch_publishable:
  assumes "all_publishable L pk db" and "publish_laws x" and "publish_batch L x pk n db log = (res, db', log')"
  shows "all_publishable L pk db'"
proof -
  have "\<exists>q \<in> set (evidence_outbox db). \<forall>y. pending_of y r = pending_of y q" if "r \<in> set (evidence_outbox db')" for r
    using publish_batch_step [OF assms(2,3)] that mark_rows_pending by fastforce
  then show ?thesis using assms(1) by (metis all_publishable_def)
qed

lemma all_publishable_steps:
  assumes "driver_laws d" and "jsonb_laws d" and "signing_keys L st pk"
    and "(delivery_step L d st pk)\<^sup>*\<^sup>* (empty_database, []) s"
  shows "all_publishable L pk (fst s)"
  using assms(4)
proof (induction rule: rtranclp_induct)
  case base
  then show ?case by (simp add: all_publishable_def empty_database_def)
next
  case (step s t)
  from step(2,3) show ?case
    by (induction rule: delivery_step.induct)
      (auto intro: create_publishable [OF _ assms(1,2,3)] record_publishable [OF _ assms(2,3)] batch_publishable)
qed

text \<open>
  Everything the service commits reaches its topic: after any run of requests and batches, with whatever
  failures, batches that meet no fault publish every event that still waits.
\<close>

lemma events_delivered:
  assumes "driver_laws d" and "jsonb_laws d" and "signing_keys L st pk"
    and "(delivery_step L d st pk)\<^sup>*\<^sup>* (empty_database, []) (db, log)"
    and "0 < n" and "\<forall>(x, stopped) \<in> set xs. quiet_batch x \<and> publish_laws x"
    and "length (unpublished db) \<le> n * length xs"
    and "publish_loop L pk n xs db log = (res, db', log')"
  shows "res \<in> {None, Some None} \<and> map o_event_id (evidence_outbox db') = map o_event_id (evidence_outbox db) \<and>
    (\<forall>r \<in> set (evidence_outbox db'). o_published_at r \<noteq> None \<and> (\<exists>k \<in> set log'. carries k r \<and> verified L pk k))"
proof -
  have del: "delivers L pk db log"
    using delivers_steps [OF assms(4)] by simp
  then have inv: "db_inv db" by (simp add: delivers_def)
  have ok: "\<forall>r \<in> set (unpublished db). publishable L pk (pending_of x r)" if "publish_laws x" for x
    using all_publishable_steps [OF assms(1-4)] that by (auto simp: all_publishable_def unpublished_def)
  have "\<forall>(x, stopped) \<in> set xs. quiet_batch x \<and> publish_laws x \<and> (\<forall>r \<in> set (unpublished db). publishable L pk (pending_of x r))"
    using assms(6) ok by auto
  from drain_steps [OF inv assms(5) this assms(7,8)]
  have drained: "res \<in> {None, Some None}" "unpublished db' = []" by blast+
  have "delivers L pk db' log' \<and> map o_event_id (evidence_outbox db') = map o_event_id (evidence_outbox db)"
    using delivers_loop [OF del _ assms(8)] assms(6) by auto
  then show ?thesis using drained by (auto simp: delivers_def unpublished_def filter_empty_conv)
qed

subsection \<open>Normal forms are JSONB\<close>

text \<open>
  A value whose strings Go has quoted from UTF-8: its normal form is one that JSONB may give back. So
  the laws of JSONB have an instance, on everything the service stores.
\<close>

definition quoted :: "string \<Rightarrow> bool" where
  "quoted l \<longleftrightarrow> (\<exists>s. utf8 s \<and> l = quote s)"

fun quoted_json :: "json \<Rightarrow> bool" where
  "quoted_json (JStr l) \<longleftrightarrow> quoted l"
| "quoted_json (JArr vs) \<longleftrightarrow> list_all quoted_json vs"
| "quoted_json (JObj ms) \<longleftrightarrow> list_all (\<lambda>(k, v). quoted k \<and> quoted_json v) ms"
| "quoted_json (JNum n) \<longleftrightarrow> False"
| "quoted_json _ \<longleftrightarrow> True"

lemma plain_utf8: "plain_text s \<Longrightarrow> utf8 s"
  by (rule graphic_utf8) (auto simp: plain_text_def list_all_iff)

lemma quote_plain: "plain_text s \<Longrightarrow> quote s = s"
proof (induction s)
  case (Cons c s)
  have c: "graphic c" "c \<notin> {dquote, backslash, CHR ''<'', CHR ''>'', CHR ''&''}" and s: "plain_text s"
    using Cons.prems by (simp_all add: plain_text_def)
  have "c \<noteq> CHR 0x08" "c \<noteq> CHR 0x0C" "c \<noteq> CHR 0x0A" "c \<noteq> CHR 0x0D" "c \<noteq> CHR 0x09" "\<not> byte c < 0x20"
    using c(1) by (auto simp: graphic_def)
  with c(2) have "quote_ascii c = [c]" by (simp add: quote_ascii_def)
  moreover have "byte c < 0x80" using c(1) by (simp add: graphic_def)
  ultimately show ?case by (simp add: quote.simps(2) Cons.IH [OF s])
qed simp

lemma unquote_plain: "plain_text s \<Longrightarrow> unquote s = s"
  using unquote_quote [OF plain_utf8, of s] by (simp add: quote_plain)

lemma plain_quoted: "plain_text s \<Longrightarrow> quoted s"
  unfolding quoted_def by (rule exI [of _ s]) (simp add: quote_plain plain_utf8)

lemma quoted_jstr: "utf8 s \<Longrightarrow> quoted_json (jstr s)"
  by (auto simp: jstr_def quoted_def)

lemma go_map_sorted:
  assumes "sorted_keys m"
  shows "go_map m = m"
proof (rule sorted_keys_unique [OF sorted_keys_go_map assms])
  have "distinct (map fst m)" using assms by (simp add: sorted_keys_def strict_sorted_iff)
  then show "map_of (go_map m) = map_of m"
    using map_of_inject_set [of "rev m" m] by (simp add: map_of_go_map rev_map [symmetric])
qed

lemma norm_members:
  assumes "\<And>k v. (k, v) \<in> set m \<Longrightarrow> utf8 k \<and> norm v = v \<and> jsonb_form v" and "sorted_keys m"
  shows "norm (JObj (map (\<lambda>(k, v). (quote k, v)) m)) = JObj (map (\<lambda>(k, v). (quote k, v)) m)"
    and "jsonb_form (JObj (map (\<lambda>(k, v). (quote k, v)) m))"
proof -
  let ?q = "map (\<lambda>(k, v). (quote k, v)) m"
  have u: "unquote (quote k) = k" "norm v = v" if "(k, v) \<in> set m" for k v
    using assms(1) [OF that] unquote_quote by auto
  have "map (\<lambda>(k, v). (unquote k, v)) (map (map_prod id norm) ?q) = m"
    unfolding map_map by (rule map_idI) (use u in auto)
  then show "norm (JObj ?q) = JObj ?q"
    using go_map_sorted [OF assms(2)] unfolding norm.simps by simp
  have "map (unquote \<circ> fst) ?q = map fst m"
    unfolding map_map by (rule map_cong) (use u in auto)
  then have "distinct (map (unquote \<circ> fst) ?q)"
    unfolding \<open>map (unquote \<circ> fst) ?q = map fst m\<close> using assms(2) by (simp add: sorted_keys_def strict_sorted_iff)
  moreover have "list_all (\<lambda>(k, v). utf8 (unquote k) \<and> jsonb_form v) ?q"
    using assms(1) u by (auto simp: list_all_iff)
  ultimately show "jsonb_form (JObj ?q)" by simp
qed

lemma quoted_norm: "quoted_json j \<Longrightarrow> norm (norm j) = norm j \<and> jsonb_form (norm j)"
proof (induction j)
  case (JStr l)
  then obtain s where "utf8 s" "l = quote s" by (auto simp: quoted_def)
  then show ?case using unquote_quote [of s] by (simp add: literal_form_def quote_plain unquote_plain)
next
  case (JArr vs)
  then show ?case by (auto simp: list_all_iff)
next
  case (JObj ms)
  let ?m = "go_map (map (\<lambda>(k, v). (unquote k, v)) (map (map_prod id norm) ms))"
  have "utf8 k \<and> norm v = v \<and> jsonb_form v" if kv: "(k, v) \<in> set ?m" for k v
  proof -
    have "(k, v) \<in> set (map (\<lambda>(k, v). (unquote k, v)) (map (map_prod id norm) ms))"
      using set_go_map kv by blast
    then obtain k' v' where *: "(k', v') \<in> set ms" "k = unquote k'" "v = norm v'" by auto
    then have "quoted k'" "quoted_json v'" using JObj.prems by (auto simp: list_all_iff)
    then show ?thesis using JObj.IH [of "(k', v')" v'] * unquote_quote by (auto simp: quoted_def)
  qed
  from norm_members [OF this sorted_keys_go_map] show ?case by simp
qed simp_all

lemma marshal_quoted:
  assumes "marshal_envelope e = Inr j" and "quoted_json (e_fhir e)" and "envelope_utf8 e" and "provenance_utf8 (e_provenance e)"
  shows "quoted_json j"
proof -
  obtain t where t: "marshal_time (e_occurred_at e) = Some t"
    using assms(1) by (auto simp: marshal_envelope_def split: option.splits)
  have "utf8 t" using marshal_time_plain [OF t] by simp
  moreover have "quoted_json (provenance_json (e_provenance e))"
    using assms(4) by (simp add: provenance_json_def provenance_utf8_def provenance_fields_def provenance_part_def
        quoted_jstr plain_quoted plain_text_def graphic_def)
  ultimately show ?thesis
    using assms t by (auto simp: marshal_envelope_def envelope_utf8_def quoted_jstr plain_quoted plain_text_def graphic_def)
qed

end
