(* ===== verification/Publisher_Samples.thy ===== *)
theory Publisher_Samples
  imports Event_Delivery Evidence_Samples
begin

text \<open>
  The publisher on a concrete outbox: the event of a package that the signing store created is drained,
  and refused under a key that is none. The witnesses of the publisher's theorems.
\<close>

definition sample_batch :: publish_env where
  "sample_batch = \<lparr>px_begin = None, px_query = None, px_scan = (\<lambda>_. None), px_rows = None, px_order = (\<lambda>rows. rows),
     px_locked = {}, px_text = render, px_produce = (\<lambda>_. Acked), px_mark = (\<lambda>_. None),
     px_now = 1700000002000000000, px_commit = CommitOk, px_evidence_service = ''on''\<rparr>"

lemma sample_batch_laws: "publish_laws sample_batch" "quiet_batch sample_batch"
  by (simp_all add: publish_laws_def quiet_batch_def sample_batch_def json_all_render)

subsection \<open>A driver with JSONB\<close>

text \<open>JSONB gives back the normal form of what it stores.\<close>

definition jsonb_driver :: driver where
  "jsonb_driver = sample_driver\<lparr>d_jsonb := (\<lambda>j.
     if number_free j \<and> fits 20 j \<and> norm (norm j) = norm j \<and> jsonb_form (norm j) then Some (norm j) else None)\<rparr>"

lemma jsonb_driver_laws: "driver_laws jsonb_driver" "jsonb_laws jsonb_driver"
proof -
  show "driver_laws jsonb_driver" using sample_driver_laws by (simp add: driver_laws_def jsonb_driver_def)
  have "wf_json max_depth (norm j)" if "number_free j" "fits 20 j" for j
    by (rule wf_json_norm [OF that(1) fits_mono [OF that(2)]]) (simp add: max_depth_def)
  then show "jsonb_laws jsonb_driver" by (simp add: jsonb_laws_def jsonb_driver_def)
qed

lemma jsonb_envelope:
  assumes "marshal_envelope e = Inr j" and "quoted_json (e_fhir e)" "number_free (e_fhir e)" "fits 10 (e_fhir e)"
    and "envelope_utf8 e" "provenance_utf8 (e_provenance e)"
  shows "d_jsonb jsonb_driver j = Some (norm j)"
proof -
  have "fits 20 (e_fhir e)" "fits 19 (e_fhir e)" using fits_mono [OF assms(4)] by simp_all
  then have "number_free j \<and> fits 20 j"
    using assms(1,3) by (auto simp: marshal_envelope_def provenance_json_def jstr_def split: option.splits)
  then show ?thesis
    using quoted_norm [OF marshal_quoted [OF assms(1,2,5,6)]] by (simp add: jsonb_driver_def)
qed

lemma bundle_keys:
  "quoted ''resourceType''" "quoted ''type''" "quoted ''timestamp''" "quoted ''entry''" "quoted ''fullUrl''"
  "quoted ''resource''" "quoted ''id''" "quoted ''code''" "quoted ''text''" "quoted ''extension''" "quoted ''url''"
  "quoted ''valueString''" "quoted ''valueInstant''"
  by (rule plain_quoted, code_simp)+

lemma extension_quoted:
  "utf8 (fx_url x) \<Longrightarrow> utf8 (fx_value_string x) \<Longrightarrow> utf8 (fx_value_instant x) \<Longrightarrow> quoted_json (fhir_extension_json x)"
  by (simp add: fhir_extension_json_def omitempty_def quoted_jstr bundle_keys)

lemma bundle_quoted:
  assumes "marshal_bundle (message_bundle u et sid at exts) = Inr b" and "utf8 (''urn:uuid:'' @ u)" "utf8 et" "utf8 sid"
    and "\<forall>x \<in> set exts. utf8 (fx_url x) \<and> utf8 (fx_value_string x) \<and> utf8 (fx_value_instant x)"
  shows "quoted_json b \<and> fits 10 b"
proof -
  obtain t where t: "marshal_time at = Some t"
    and b: "b = JObj [(''resourceType'', jstr ''Bundle''), (''type'', jstr ''message''), (''timestamp'', jstr t),
      (''entry'', JArr [fhir_entry_json \<lparr>fe_full_url = ''urn:uuid:'' @ u,
        fe_resource = \<lparr>fb_resource_type = ''Basic'', fb_id = sid, fb_code_text = et, fb_extension = exts\<rparr>\<rparr>])]"
    using assms(1) by (auto simp: marshal_bundle_def message_bundle_def split: option.splits)
  have lit: "utf8 ''Bundle''" "utf8 ''message''" "utf8 ''Basic''" by code_simp+
  have "list_all quoted_json (map fhir_extension_json exts)"
    using assms(5) extension_quoted by (simp add: list_all_iff)
  moreover have "list_all (fits n) (map fhir_extension_json exts)" if "0 < n" for n
    using that fhir_extension_free(2) by (simp add: list_all_iff)
  ultimately show ?thesis
    using marshal_time_plain [OF t] lit assms(2-4) quoted_jstr
    unfolding b fhir_entry_json_def fhir_basic_json_def by (simp add: bundle_keys) (simp add: jstr_def)
qed

lemma envelope_roundtrip_witness:
  "\<exists>j s. marshal_envelope sample_signed = Inr j \<and> unmarshal_envelope (render (norm j)) = Some s \<and>
     s = sample_signed\<lparr>e_fhir := e_fhir s\<rparr>"
proof -
  obtain j where j: "marshal_envelope sample_signed = Inr j"
  proof -
    have "marshal_time 0 \<noteq> None" by code_simp
    then show ?thesis
      using that by (auto simp: marshal_envelope_def sample_signed_def sample_envelope_def)
  qed
  have ok: "number_free (e_fhir sample_signed)" "envelope_utf8 sample_signed" "fits 10 (e_fhir sample_signed)"
    by code_simp+
  have "quoted_json (e_fhir sample_signed)"
    by (simp add: sample_signed_def sample_envelope_def plain_quoted plain_text_def graphic_def)
  obtain sg where sg: "sign sample_libs sample_signer sample_envelope = Inr sg"
    using sample_sign by (metis isl_conv sum.exhaust)
  then have "provenance_utf8 (e_provenance sample_signed)"
    using graphic_utf8 [OF sign_graphic [OF sg]] graphic_utf8 [of "''i''"] graphic_utf8 [of "''r''"]
    by (simp add: provenance_utf8_def provenance_fields_def provenance_part_def sample_signed_def sample_envelope_def graphic_def)
  then show ?thesis
    using envelope_roundtrip [OF j ok(1,2) _ jsonb_driver_laws(2) jsonb_envelope [OF j _ ok(1,3,2)] sample_batch_laws(1)]
      \<open>quoted_json _\<close> j by (auto simp: sample_batch_def)
qed

subsection \<open>The event of a created package\<close>

lemma join_with_all: "list_all P sep \<Longrightarrow> list_all (list_all P) xs \<Longrightarrow> list_all P (join_with sep xs)"
  by (induction sep xs rule: join_with.induct) auto

lemma payload_ascii:
  assumes "payload_json kvs = Inr t"
    and "\<forall>(k, v) \<in> set kvs. plain_text k \<and> (case v of PString s \<Rightarrow> plain_text s | PTime _ \<Rightarrow> True)"
  shows "list_all (\<lambda>c. byte c < 0x80) t"
proof -
  let ?asc = "\<lambda>s. list_all (\<lambda>c. byte c < 0x80) s"
  have asc: "?asc (quote s)" if "plain_text s" for s
    unfolding quote_plain [OF that]
    by (rule list.pred_mono_strong [OF that [unfolded plain_text_def]]) (simp add: graphic_def)
  have t: "t = render (JObj (map (\<lambda>(k, v). (quote k, case v of PString s \<Rightarrow> jstr s | PTime x \<Rightarrow> jstr (the (marshal_time x)))) (go_map kvs)))"
    and times: "\<And>k x. (k, PTime x) \<in> set kvs \<Longrightarrow> marshal_time x \<noteq> None"
    using assms(1) by (auto simp: payload_json_def list_ex_iff split: if_splits)
  have "?asc (dquote # quote k @ [dquote, CHR '':''] @ render (case v of PString s \<Rightarrow> jstr s | PTime x \<Rightarrow> jstr (the (marshal_time x))))"
    if kv: "(k, v) \<in> set (go_map kvs)" for k v
  proof -
    have in_kvs: "(k, v) \<in> set kvs" using set_go_map kv by blast
    then have "plain_text (case v of PString s \<Rightarrow> s | PTime x \<Rightarrow> the (marshal_time x))"
      using assms(2) times marshal_time_plain by (cases v) fastforce+
    moreover have "plain_text k" using assms(2) in_kvs by auto
    ultimately show ?thesis using asc by (cases v) (simp_all add: jstr_def)
  qed
  then show ?thesis unfolding t by (auto simp: list_all_iff [of ?asc] intro!: join_with_all)
qed

lemma received_text: "\<exists>t. payload_json (received_payload sample_package) = Inr t \<and> utf8 t"
proof -
  have time: "marshal_time (p_received_at sample_package) \<noteq> None" by code_simp
  then obtain t where t: "payload_json (received_payload sample_package) = Inr t"
    using payload_json_total [of "received_payload sample_package"] by (auto simp: received_payload_def)
  have "list_all plain_text [''evidence_package_id'', ''external_reference'', ''evidence_type'', ''content_sha256'',
      ''content_location'', ''classification'', ''received_at'', p_evidence_package_id sample_package,
      p_external_reference sample_package, p_evidence_type sample_package, p_content_sha256 sample_package,
      p_content_location sample_package, p_classification sample_package]"
    by code_simp
  then have "list_all (\<lambda>c. byte c < 0x80) t" by (intro payload_ascii [OF t]) (simp add: received_payload_def)
  then show ?thesis using t utf8_ascii by blast
qed

lemma sample_event_storable:
  "event_storable jsonb_driver (outbox_event sample_libs sample_store sample_env ''evidence.package.received''
     TopicPackage (p_correlation_id sample_package) (p_evidence_package_id sample_package)
     (received_payload sample_package) (p_received_at sample_package))"
proof -
  obtain pt where pt: "payload_json (received_payload sample_package) = Inr pt" "utf8 pt" using received_text by blast
  let ?pr = "\<lparr>pr_principal_id = st_principal_id sample_store, pr_principal_role = st_principal_role sample_store,
    pr_signature = [], pr_ledger_commit_hash = []\<rparr>"
  have u: "utf8 (''urn:uuid:'' @ id_d)" "utf8 id_e" "utf8 ''evidence.package.received''"
    "utf8 (p_correlation_id sample_package)" "utf8 (p_evidence_package_id sample_package)"
    "utf8 (structure_definition @ ''domain-payload'')" "utf8 EnvelopeVersion" "utf8 Producer" "utf8 ClassificationIntern"
    "utf8 []" "utf8 (st_principal_id sample_store)" "utf8 (st_principal_role sample_store)"
    by code_simp+
  show ?thesis
  proof (cases "message sample_libs (id_d, id_e) ''evidence.package.received'' TopicPackage (p_correlation_id sample_package)
      (p_evidence_package_id sample_package) pt [] ?pr (p_received_at sample_package) (Some sample_signer)")
    case Inl
    then show ?thesis
      using pt(1) by (simp add: event_storable_def outbox_event_def sample_env_def env_at_def sample_store_def)
  next
    case (Inr env)
    then obtain es b sg where b: "entry_extensions pt [] = Inr es"
        "marshal_bundle (message_bundle id_d ''evidence.package.received'' (p_evidence_package_id sample_package) (p_received_at sample_package) es) = Inr b"
      and sg: "sign sample_libs sample_signer \<lparr>e_envelope_version = EnvelopeVersion, e_event_id = id_e,
          e_event_type = ''evidence.package.received'', e_occurred_at = p_received_at sample_package, e_producer = Producer,
          e_correlation_id = p_correlation_id sample_package, e_classification = ClassificationIntern, e_fhir = b, e_provenance = ?pr\<rparr> = Inr sg"
      and env: "env = \<lparr>e_envelope_version = EnvelopeVersion, e_event_id = id_e,
          e_event_type = ''evidence.package.received'', e_occurred_at = p_received_at sample_package, e_producer = Producer,
          e_correlation_id = p_correlation_id sample_package, e_classification = ClassificationIntern, e_fhir = b,
          e_provenance = ?pr\<lparr>pr_signature := sg\<rparr>\<rparr>"
      by (auto simp: message_def Let_def split: if_splits sum.splits)
    have "\<forall>x \<in> set es. utf8 (fx_url x) \<and> utf8 (fx_value_string x) \<and> utf8 (fx_value_instant x)"
      using b(1) u(6,10) pt(2) by (auto simp: entry_extensions_def)
    then have q: "quoted_json b" "fits 10 b" "number_free b"
      using bundle_quoted [OF b(2) u(1,3,5)] marshal_bundle_free(1) [OF b(2)] by blast+
    have "envelope_utf8 env" "provenance_utf8 (e_provenance env)"
      using u graphic_utf8 [OF sign_graphic [OF sg]]
      by (simp_all add: env envelope_utf8_def provenance_utf8_def provenance_fields_def provenance_part_def)
    then have "d_jsonb jsonb_driver j = Some (norm j)" if "marshal_envelope env = Inr j" for j
      using jsonb_envelope [OF that] q by (simp add: env)
    then show ?thesis
      using pt(1) Inr
      by (simp add: event_storable_def outbox_event_def sample_env_def env_at_def sample_store_def split: sum.split)
  qed
qed

definition signed_db :: database where
  "signed_db = snd (create sample_libs jsonb_driver sample_store sample_env empty_database sample_request)"

lemma env_laws_jsonb: "env_laws jsonb_driver sample_env"
  by code_simp

lemma create_signed:
  "create sample_libs jsonb_driver sample_store sample_env empty_database sample_request = (Inr (sample_package, True), signed_db)"
proof -
  have row: "package_row jsonb_driver sample_env sample_request = Some sample_package" by code_simp
  have "\<exists>db'. create sample_libs jsonb_driver sample_store sample_env empty_database sample_request = (Inr (sample_package, True), db')"
  proof (rule create_total [OF jsonb_driver_laws(1) env_laws_jsonb quiet_samples(1) run_validate(1) row])
    show "marshal_time (p_received_at sample_package) \<noteq> None" by code_simp
  qed (simp_all add: idempotency_taken_def package_exists_def empty_database_def sample_event_storable sample_ready)
  then show ?thesis by (auto simp: signed_db_def)
qed

lemma signed_outbox: "\<exists>r. evidence_outbox signed_db = [r] \<and> o_published_at r = None"
proof -
  have "create_inserts sample_libs jsonb_driver sample_store sample_env empty_database sample_request sample_package signed_db"
    using env_laws_jsonb create_signed by (cases rule: create_cases) simp_all
  then show ?thesis
  proof cases
    case (1 rows)
    have "evidence_outbox signed_db = evidence_outbox (created_db sample_env empty_database sample_package rows)"
      using 1(9) by (rule arg_cong)
    then have "evidence_outbox signed_db = rows" by (simp add: created_db_def empty_database_def)
    then show ?thesis using 1(7,8) by (cases rows) (auto simp: fresh_events_def sample_store_def)
  qed
qed

definition sample_key :: string where "sample_key = signer_public_key sample_signer"

lemma sample_keys: "signing_keys sample_libs sample_store sample_key"
proof -
  have "utf8 (st_principal_id sample_store)" "utf8 (st_principal_role sample_store)" by code_simp+
  moreover have "length sample_seed = 32" by (simp add: sample_seed_def)
  ultimately show ?thesis
    using sample_ed25519 sample_new_signer by (auto simp: signing_keys_def sample_key_def sample_store_def)
qed

lemma step_signed: "delivery_step sample_libs jsonb_driver sample_store sample_key (empty_database, []) (signed_db, [])"
proof (rule delivery_step.created [OF env_laws_jsonb _ create_signed])
  have "is_uuid id_e" by code_simp
  then show "uuid_shape (snd (e_message_uuids sample_env))" by (simp add: is_uuid_iff_shape sample_env_def env_at_def)
qed

lemma steps_signed: "(delivery_step sample_libs jsonb_driver sample_store sample_key)\<^sup>*\<^sup>* (empty_database, []) (signed_db, [])"
  using step_signed by (rule r_into_rtranclp)

lemma signed_unpublished: "unpublished signed_db = evidence_outbox signed_db" "length (unpublished signed_db) = 1"
  using signed_outbox by (auto simp: unpublished_def)

lemma sample_publishable: "\<forall>r \<in> set (unpublished signed_db). publishable sample_libs sample_key (pending_of sample_batch r)"
  using all_publishable_steps [OF jsonb_driver_laws sample_keys steps_signed] sample_batch_laws(1)
  by (simp add: all_publishable_def signed_unpublished(1))

lemma signed_selected: "select_unpublished sample_batch signed_db 10 = evidence_outbox signed_db"
  using signed_outbox signed_unpublished(1)
  by (auto simp: select_quiet [OF sample_batch_laws(2)]) (simp add: sample_batch_def)

definition drained_db :: database where
  "drained_db = fst (snd (publish_batch sample_libs sample_batch sample_key 10 signed_db []))"

definition drained_log :: "kafka_record list" where
  "drained_log = snd (snd (publish_batch sample_libs sample_batch sample_key 10 signed_db []))"

lemma run_drained: "publish_batch sample_libs sample_batch sample_key 10 signed_db [] = (Inr 1, drained_db, drained_log)"
  and drained_length: "length drained_log = 1"
proof -
  have "length (select_unpublished sample_batch signed_db 10) = 1" using signed_outbox signed_selected by auto
  with publish_batch_quiet [OF sample_batch_laws(2,1) sample_publishable refl, of 10 "[]"]
  show "publish_batch sample_libs sample_batch sample_key 10 signed_db [] = (Inr 1, drained_db, drained_log)"
    "length drained_log = 1" by (simp_all add: drained_db_def drained_log_def)
qed

subsection \<open>The witnesses\<close>

lemma publish_batch_refines_witness:
  "\<exists>rows. batch_due sample_batch signed_db 10 rows \<and> length rows = 1 \<and>
     custody_event_step (Publish (map o_event_id rows) 1700000002000000000) signed_db drained_db"
proof -
  have "px_now sample_batch = 1700000002000000000" by (simp add: sample_batch_def)
  then show ?thesis using publish_batch_refines [OF sample_batch_laws(1) run_drained] by auto
qed

lemma step_drained: "delivery_step sample_libs jsonb_driver sample_store sample_key (signed_db, []) (drained_db, drained_log)"
  by (rule delivery_step.drained [OF sample_batch_laws(1) run_drained])

lemma steps_drained:
  "(delivery_step sample_libs jsonb_driver sample_store sample_key)\<^sup>*\<^sup>* (signed_db, []) (drained_db, drained_log)"
  using step_drained by (rule r_into_rtranclp)

text \<open>A package that is received and then decided.\<close>

lemma steps_decided:
  "(delivery_step sample_libs sample_driver new_store sample_key)\<^sup>*\<^sup>* (empty_database, []) (db1, [])"
  "(delivery_step sample_libs sample_driver new_store sample_key)\<^sup>*\<^sup>* (db1, []) (db2, [])"
proof -
  have "is_uuid (snd (e_message_uuids sample_env))" "is_uuid (snd (e_message_uuids sample_env2))" by code_simp+
  then have u: "uuid_shape (snd (e_message_uuids sample_env))" "uuid_shape (snd (e_message_uuids sample_env2))"
    by (simp_all add: is_uuid_iff_shape)
  show "(delivery_step sample_libs sample_driver new_store sample_key)\<^sup>*\<^sup>* (empty_database, []) (db1, [])"
    using delivery_step.created [OF env_laws_sample u(1) create_db1] by (rule r_into_rtranclp)
  show "(delivery_step sample_libs sample_driver new_store sample_key)\<^sup>*\<^sup>* (db1, []) (db2, [])"
    using delivery_step.recorded [OF run_validate(2) u(2) record_db2] by (rule r_into_rtranclp)
qed

lemma reachable_custody_witness:
  "map (\<lambda>h. (h_prior_validation_status h, h_validation_status h)) (history_of db2 id_c)
     = [(None, ''received''), (Some ''received'', ''validated'')]"
  using reachable_custody [OF rtranclp_trans [OF steps_decided],
      of "sample_package\<lparr>p_validation_status := ''validated''\<rparr>"]
  by (simp add: db2_packages sample_package_def status_defs)

lemma custody_preserved_witness:
  "list_all2 successor (evidence_packages db1) (take 1 (evidence_packages db2)) \<and>
   list_all2 row_successor (evidence_outbox signed_db) (take 1 (evidence_outbox drained_db)) \<and>
   length (evidence_outbox signed_db) = 1"
proof -
  have "length (evidence_outbox signed_db) = 1" using signed_outbox by auto
  then show ?thesis
    using custody_preserved [OF steps_decided] custody_preserved [OF steps_signed steps_drained]
    by (simp add: db1_new(2))
qed

lemma delivery_invariant_witness:
  "length drained_log = 1 \<and> list_all (verified sample_libs sample_key) drained_log"
proof -
  have "(delivery_step sample_libs jsonb_driver sample_store sample_key)\<^sup>*\<^sup>* (empty_database, []) (drained_db, drained_log)"
    using steps_signed step_drained by (rule rtranclp.rtrancl_into_rtrancl)
  from delivery_invariant [OF this] show ?thesis using drained_length by (simp add: list_all_iff)
qed

lemma poison_row_stops_witness: "isl (fst (publish_batch sample_libs sample_batch ''short'' 10 signed_db []))"
proof -
  obtain r where r: "r \<in> set (select_unpublished sample_batch signed_db 10)" using signed_outbox signed_selected by auto
  have "key_id_prefix \<noteq> []" by (simp add: key_id_prefix_def)
  then have "\<not> publishable sample_libs ''short'' (pending_of sample_batch r)"
    by (simp add: publishable_def verify_def verify_with_key_id_prefix_def)
  from poison_row_stops [OF r this] show ?thesis by (metis prod.exhaust fst_conv)
qed

lemma inv_signed: "db_inv signed_db"
  using delivers_steps [OF steps_signed] by (simp add: delivers_def)

definition drain_run :: "go_error option option \<times> database \<times> kafka_record list" where
  "drain_run = publish_loop sample_libs sample_key 10 [(sample_batch, False), (sample_batch, True)] signed_db []"

lemma publisher_drains_witness: "unpublished (fst (snd drain_run)) = []"
proof -
  obtain res db' log' where run: "drain_run = (res, db', log')" by (metis prod.exhaust)
  have "length (unpublished signed_db) \<le> 10 * length [(sample_batch, False), (sample_batch, True)]"
    using signed_unpublished(2) by simp
  moreover have "\<forall>(x, stopped) \<in> set [(sample_batch, False), (sample_batch, True)]. quiet_batch x \<and> publish_laws x \<and>
      (\<forall>r \<in> set (unpublished signed_db). publishable sample_libs sample_key (pending_of x r))"
    using sample_batch_laws sample_publishable by simp
  ultimately have "unpublished db' = []"
    using publisher_drains [OF inv_signed _ _ _ run [unfolded drain_run_def]] by simp
  then show ?thesis by (simp add: run)
qed

end
