(* ===== verification/Go_Duration.thy ===== *)
theory Go_Duration
  imports Go_Strings Go_Runes
begin

text \<open>
  \<open>time.ParseDuration\<close> as the configuration uses it. The digits after a decimal point are scaled in
  \<open>float64\<close>, so the arithmetic of that type is written out: a positive float is a fraction whose
  denominator is a power of two or one, rounded to 53 significant bits, ties to even. The exponent is
  not bounded: where a \<open>float64\<close> would overflow or become subnormal, the scaled fraction is below one
  nanosecond and is truncated to zero either way.
\<close>

subsection \<open>float64\<close>

type_synonym float64 = "nat \<times> nat"

fun bit_length :: "nat \<Rightarrow> nat" where
  "bit_length n = (if n = 0 then 0 else Suc (bit_length (n div 2)))"

declare bit_length.simps [simp del]

definition div_even :: "nat \<Rightarrow> nat \<Rightarrow> nat" where
  "div_even p q =
     (let m = p div q; r = 2 * (p mod q) in
      if r < q \<or> r = q \<and> even m then m else Suc m)"

text \<open>The \<open>float64\<close> nearest to \<open>p / q\<close>: scaled by \<open>2 ^ s\<close> the quotient lies between \<open>2 ^ 52\<close> and \<open>2 ^ 53\<close>.\<close>

definition float_near :: "nat \<Rightarrow> nat \<Rightarrow> float64" where
  "float_near p q =
     (if p = 0 then (0, 1)
      else let s0 = 53 + int (bit_length q) - int (bit_length p);
               s = (if p * 2 ^ nat s0 < q * 2 ^ (53 + nat (- s0)) then s0 else s0 - 1);
               m = div_even (p * 2 ^ nat s) (q * 2 ^ nat (- s))
           in (m * 2 ^ nat (- s), 2 ^ nat s))"

definition float_times :: "float64 \<Rightarrow> float64 \<Rightarrow> float64" where
  "float_times a b = float_near (fst a * fst b) (snd a * snd b)"

definition float_divide :: "float64 \<Rightarrow> float64 \<Rightarrow> float64" where
  "float_divide a b = float_near (fst a * snd b) (snd a * fst b)"

text \<open>\<open>uint64(x)\<close> of a float in range truncates.\<close>

definition float_trunc :: "float64 \<Rightarrow> nat" where
  "float_trunc x = fst x div snd x"

subsection \<open>The parser\<close>

text \<open>\<open>leadingInt\<close>: the leading digits, refused above \<open>2 ^ 63\<close>.\<close>

fun leading_int :: "nat \<Rightarrow> string \<Rightarrow> (nat \<times> string) option" where
  "leading_int x [] = Some (x, [])"
| "leading_int x (c # cs) =
     (if \<not> is_digit c then Some (x, c # cs)
      else if 2 ^ 63 div 10 < x then None
      else let y = 10 * x + (byte c - 0x30) in
        if 2 ^ 63 < y then None else leading_int y cs)"

text \<open>\<open>leadingFraction\<close>: digits beyond the range are skipped, the scale counts those that were read.\<close>

fun leading_fraction :: "nat \<Rightarrow> float64 \<Rightarrow> bool \<Rightarrow> string \<Rightarrow> nat \<times> float64 \<times> string" where
  "leading_fraction x scale overflow [] = (x, scale, [])"
| "leading_fraction x scale overflow (c # cs) =
     (if \<not> is_digit c then (x, scale, c # cs)
      else if overflow then leading_fraction x scale True cs
      else if (2 ^ 63 - 1) div 10 < x then leading_fraction x scale True cs
      else let y = 10 * x + (byte c - 0x30) in
        if 2 ^ 63 < y then leading_fraction x scale True cs
        else leading_fraction y (float_times scale (10, 1)) False cs)"

text \<open>\<open>unitMap\<close>, with both spellings of the micro sign.\<close>

definition unit_map :: "string \<Rightarrow> nat option" where
  "unit_map = map_of [(''ns'', 1), (''us'', 1000), ([CHR 0xC2, CHR 0xB5, CHR ''s''], 1000),
     ([CHR 0xCE, CHR 0xBC, CHR ''s''], 1000), (''ms'', 1000000), (''s'', 1000000000),
     (''m'', 60000000000), (''h'', 3600000000000)]"

definition number_byte :: "char \<Rightarrow> bool" where
  "number_byte c \<longleftrightarrow> c = CHR ''.'' \<or> is_digit c"

text \<open>One number with its unit: its nanoseconds, and the text after it.\<close>

definition duration_term :: "string \<Rightarrow> (nat \<times> string) option" where
  "duration_term s =
     (if s = [] \<or> \<not> number_byte (hd s) then None
      else case leading_int 0 s of
        None \<Rightarrow> None
      | Some (v, s1) \<Rightarrow>
          (let (f, scale, s2) = (if has_prefix s1 ''.'' then leading_fraction 0 (1, 1) False (tl s1) else (0, (1, 1), s1));
               digits = length s1 \<noteq> length s \<or> has_prefix s1 ''.'' \<and> length s2 \<noteq> length (tl s1);
               u = takeWhile (\<lambda>c. \<not> number_byte c) s2
           in
           if \<not> digits \<or> u = [] then None
           else case unit_map u of
             None \<Rightarrow> None
           | Some n \<Rightarrow>
               if 2 ^ 63 div n < v then None
               else (let v' = (if 0 < f then v * n + float_trunc (float_times (float_near f 1) (float_divide (n, 1) scale))
                               else v * n) in
                 if 2 ^ 63 < v' then None else Some (v', drop (length u) s2))))"

lemma leading_int_length: "leading_int x s = Some (v, r) \<Longrightarrow> length r \<le> length s"
  by (induction x s rule: leading_int.induct) (auto simp: Let_def split: if_splits)

lemma leading_fraction_length: "length (snd (snd (leading_fraction x scale ov s))) \<le> length s"
  by (induction x scale ov s rule: leading_fraction.induct) (auto simp: Let_def le_SucI)

lemma duration_term_length:
  assumes "duration_term s = Some (v, r)"
  shows "length r < length s"
proof -
  obtain w s1 where i: "leading_int 0 s = Some (w, s1)"
    using assms by (auto simp: duration_term_def split: if_splits option.splits)
  let ?fr = "if has_prefix s1 ''.'' then leading_fraction 0 (1, 1) False (tl s1) else (0, (1, 1), s1)"
  obtain f sc s2 where fr: "?fr = (f, sc, s2)" by (metis prod.exhaust)
  have "length s2 \<le> length s1"
  proof (cases "has_prefix s1 ''.''")
    case True
    then have "length s2 \<le> length (tl s1)"
      using fr leading_fraction_length [of 0 "(1, 1)" False "tl s1"] by simp
    then show ?thesis by simp
  qed (use fr in simp)
  moreover have "takeWhile (\<lambda>c. \<not> number_byte c) s2 \<noteq> [] \<and> r = drop (length (takeWhile (\<lambda>c. \<not> number_byte c) s2)) s2"
    using assms i fr by (auto simp: duration_term_def Let_def split: if_splits option.splits)
  moreover from this have "length r < length s2"
    by (metis diff_less length_drop length_greater_0_conv takeWhile.simps(1))
  ultimately show ?thesis using leading_int_length [OF i] by linarith
qed

text \<open>The sum of the terms, a \<open>uint64\<close>.\<close>

function duration_from :: "nat \<Rightarrow> string \<Rightarrow> nat option" where
  "duration_from d s =
     (if s = [] then Some d
      else case duration_term s of
        None \<Rightarrow> None
      | Some (v, r) \<Rightarrow>
          if 2 ^ 63 < (d + v) mod 2 ^ 64 then None else duration_from ((d + v) mod 2 ^ 64) r)"
  by pat_completeness auto
termination
  by (relation "measure (\<lambda>(d, s). length s)") (auto dest: duration_term_length)

declare duration_from.simps [simp del]

text \<open>A duration in nanoseconds; \<^theory_text>\<open>None\<close> is any of the errors.\<close>

definition parse_duration :: "string \<Rightarrow> int option" where
  "parse_duration s0 =
     (let neg = has_prefix s0 ''-''; s = (if neg \<or> has_prefix s0 ''+'' then tl s0 else s0) in
      if s = ''0'' then Some 0
      else if s = [] then None
      else case duration_from 0 s of
        None \<Rightarrow> None
      | Some d \<Rightarrow> if neg then Some (- int d) else if 2 ^ 63 - 1 < d then None else Some (int d))"

lemma duration_from_range: "duration_from d s = Some n \<Longrightarrow> d \<le> 2 ^ 63 \<Longrightarrow> n \<le> 2 ^ 63"
proof (induction d s rule: duration_from.induct)
  case (1 d s)
  show ?case
  proof (cases "s = []")
    case False
    then obtain v r where t: "duration_term s = Some (v, r)" "(d + v) mod 2 ^ 64 \<le> 2 ^ 63"
        "duration_from ((d + v) mod 2 ^ 64) r = Some n"
      using "1.prems"(1) by (auto simp: duration_from.simps [of d s] split: option.splits if_splits)
    then show ?thesis using "1.IH" [OF False t(1) refl] by simp
  qed (use "1.prems" in \<open>simp add: duration_from.simps [of d "[]"]\<close>)
qed

lemma parse_duration_range: "parse_duration s = Some d \<Longrightarrow> min_int64 \<le> d \<and> d \<le> max_int64"
  using duration_from_range [of 0 "if has_prefix s ''-'' \<or> has_prefix s ''+'' then tl s else s"]
  by (auto simp: parse_duration_def Let_def min_int64_def max_int64_def split: if_splits option.splits)

subsection \<open>Whole numbers of a unit\<close>

lemma digits_value_le: "digits_value x ds = Some n \<Longrightarrow> x \<le> n"
proof (induction ds arbitrary: x)
  case (Cons c ds)
  then have "10 * x + (byte c - 0x30) \<le> n" by (simp split: if_splits)
  then show ?case by linarith
qed simp

lemma leading_int_digits:
  "digits_value x ds = Some n \<Longrightarrow> n \<le> 2 ^ 63 \<Longrightarrow> r = [] \<or> \<not> is_digit (hd r) \<Longrightarrow>
     leading_int x (ds @ r) = Some (n, r)"
proof (induction ds arbitrary: x)
  case Nil
  then show ?case by (cases r) auto
next
  case (Cons c ds)
  have d: "is_digit c" "digits_value (10 * x + (byte c - 0x30)) ds = Some n"
    using Cons.prems(1) by (simp_all split: if_splits)
  have "10 * x + (byte c - 0x30) \<le> 2 ^ 63" using digits_value_le [OF d(2)] Cons.prems(2) by linarith
  moreover from this have "x \<le> 2 ^ 63 div 10" by simp
  ultimately show ?case using d Cons.IH [OF d(2) Cons.prems(2,3)] by (simp add: Let_def)
qed

text \<open>A whole number of one unit, as in the defaults and the documentation.\<close>

lemma duration_term_whole:
  assumes "unit_map u = Some k" and "list_all (\<lambda>c. \<not> number_byte c) u" and "u \<noteq> []" and "n * k \<le> 2 ^ 63" and "0 < k"
  shows "duration_term (decimal n @ u) = Some (n * k, [])"
proof -
  have n: "n \<le> 2 ^ 63 div k" using assms(4,5) by (simp add: less_eq_div_iff_mult_less_eq)
  then have "n \<le> 2 ^ 63" by (meson div_le_dividend le_trans)
  moreover have hd: "\<not> number_byte (hd u)" using assms(2,3) by (cases u) auto
  ultimately have i: "leading_int 0 (decimal n @ u) = Some (n, u)"
    using leading_int_digits [OF digits_value_decimal] by (simp add: number_byte_def)
  have "decimal n \<noteq> []" "is_digit (hd (decimal n))"
    using decimal_digits [of n] decimal_nonempty [of n] by (auto simp: list_all_iff)
  then have "number_byte (hd (decimal n @ u))" by (simp add: number_byte_def)
  moreover have "\<not> has_prefix u ''.''"
    using hd assms(3) by (cases u) (auto simp: has_prefix_def number_byte_def)
  moreover have tw: "takeWhile (\<lambda>c. \<not> number_byte c) u = u" using assms(2) by (simp add: list_all_iff)
  ultimately show ?thesis
    using i n assms(1,3,4) \<open>decimal n \<noteq> []\<close> by (simp add: duration_term_def tw Let_def)
qed

lemma parse_duration_whole:
  assumes "unit_map u = Some k" and "list_all (\<lambda>c. \<not> number_byte c) u" and "u \<noteq> []" and "0 < k"
    and "n * k < 2 ^ 63"
  shows "parse_duration (decimal n @ u) = Some (int (n * k))"
proof -
  have le: "n * k \<le> 2 ^ 63 - 1" using assms(5) by simp
  then have t: "duration_term (decimal n @ u) = Some (n * k, [])"
    by (intro duration_term_whole assms(1-4)) simp
  obtain c cs where d: "decimal n = c # cs" by (cases "decimal n") simp_all
  then have "is_digit c" using decimal_digits [of n] by simp
  then have "\<not> has_prefix (decimal n @ u) ''-''" "\<not> has_prefix (decimal n @ u) ''+''"
    by (auto simp: d has_prefix_def is_digit_def)
  moreover have "duration_from 0 (decimal n @ u) = Some (n * k)"
    using t le d by (simp add: duration_from.simps [of 0 "c # cs @ u"] duration_from.simps [of "n * k" "[]"])
  moreover have "decimal n @ u \<noteq> ''0''" using d assms(3) by (cases cs) auto
  ultimately show ?thesis using le d by (auto simp: parse_duration_def Let_def)
qed

end
