(* ===== verification/Service_Config.thy ===== *)
theory Service_Config
  imports Object_Store Go_Duration
begin

text \<open>
  \<open>internal/config/config.go\<close>: the configuration of the API from the environment. The environment is a
  function of the variable's name, the empty string for a variable that is not set, as \<open>os.Getenv\<close> reads it.
\<close>

record config =
  cf_database_url :: string
  cf_api_addr :: string
  cf_oidc_issuer :: string
  cf_oidc_audience :: string
  cf_oidc_jwks_url :: string
  cf_oidc_ca_file :: string
  cf_principal_id :: string
  cf_principal_role :: string
  cf_list_default_limit :: int
  cf_list_max_limit :: int
  cf_object_store :: object_config

type_synonym environment = "string \<Rightarrow> string"

definition default_env :: "environment \<Rightarrow> string \<Rightarrow> string \<Rightarrow> string" where
  "default_env env name fallback =
     (let v = trim_space (env name) in if v \<noteq> [] then v else fallback)"

definition parse_bool :: "string \<Rightarrow> bool" where
  "parse_bool value = equal_fold (trim_space value) ''true''"

text \<open>The composite literal \<open>FromEnv\<close> starts from; the limits and the TTL are still zero.\<close>

definition env_config :: "environment \<Rightarrow> config" where
  "env_config env =
     \<lparr>cf_database_url = trim_space (env ''DATABASE_URL''),
      cf_api_addr = trim_space (env ''EVIDENCE_API_ADDR''),
      cf_oidc_issuer = trim_space (env ''EVIDENCE_OIDC_ISSUER''),
      cf_oidc_audience = trim_space (env ''EVIDENCE_OIDC_AUDIENCE''),
      cf_oidc_jwks_url = trim_space (env ''EVIDENCE_OIDC_JWKS_URL''),
      cf_oidc_ca_file = trim_space (env ''EVIDENCE_OIDC_CA_FILE''),
      cf_principal_id = trim_space (env ''EVIDENCE_PRODUCER_PRINCIPAL_ID''),
      cf_principal_role = trim_space (env ''EVIDENCE_PRODUCER_PRINCIPAL_ROLE''),
      cf_list_default_limit = 0,
      cf_list_max_limit = 0,
      cf_object_store =
        \<lparr>oc_endpoint = trim_space (env ''EVIDENCE_S3_ENDPOINT''),
         oc_region = trim_space (env ''EVIDENCE_S3_REGION''),
         oc_bucket = trim_space (env ''EVIDENCE_S3_BUCKET''),
         oc_access_key = trim_space (env ''EVIDENCE_S3_ACCESS_KEY''),
         oc_secret_key = trim_space (env ''EVIDENCE_S3_SECRET_KEY''),
         oc_path_style = parse_bool (env ''EVIDENCE_S3_PATH_STYLE''),
         oc_presign_ttl = 0\<rparr>\<rparr>"

text \<open>
  \<open>FromEnv\<close>: the configuration, as far as it was filled in, and the error. The texts of the errors of
  \<open>strconv\<close> are not shown by the code, that of \<open>time.ParseDuration\<close> is the library's own.
\<close>

definition from_env :: "(string \<Rightarrow> string option) \<Rightarrow> environment \<Rightarrow> config \<times> go_error option" where
  "from_env ipl env =
     (let config = env_config env in
      if cf_database_url config = []
      then (config, Some (Error ''DATABASE_URL must be injected by the approved secret-management path''))
      else if cf_api_addr config = [] then (config, Some (Error ''EVIDENCE_API_ADDR must be set''))
      else if cf_oidc_issuer config = [] \<or> cf_oidc_audience config = [] \<or> cf_oidc_jwks_url config = []
      then (config, Some (Error
        ''EVIDENCE_OIDC_ISSUER, EVIDENCE_OIDC_AUDIENCE and EVIDENCE_OIDC_JWKS_URL must be set''))
      else if cf_principal_id config = [] \<or> cf_principal_role config = []
      then (config, Some (Error
        ''EVIDENCE_PRODUCER_PRINCIPAL_ID and EVIDENCE_PRODUCER_PRINCIPAL_ROLE must be set''))
      else
      (let default_limit = atoi (default_env env ''EVIDENCE_LIST_DEFAULT_LIMIT'' ''50'') in
       if default_limit = None \<or> the default_limit < 1
       then (config, Some (Error ''EVIDENCE_LIST_DEFAULT_LIMIT must be a positive integer''))
       else
       (let max_limit = atoi (default_env env ''EVIDENCE_LIST_MAX_LIMIT'' ''200'') in
        if max_limit = None \<or> the max_limit < the default_limit \<or> 1000 < the max_limit
        then (config, Some (Error ''EVIDENCE_LIST_MAX_LIMIT must be >= the default limit and at most 1000''))
        else
        (let config = config\<lparr>cf_list_default_limit := the default_limit,
                             cf_list_max_limit := the max_limit\<rparr> in
         case parse_duration (default_env env ''EVIDENCE_S3_PRESIGN_TTL'' ''15m'') of
           None \<Rightarrow> (config, Some (Wrap ''EVIDENCE_S3_PRESIGN_TTL'' (External ''time: invalid duration'')))
         | Some presign_ttl \<Rightarrow>
             (let config = config\<lparr>cf_object_store := (cf_object_store config)\<lparr>oc_presign_ttl := presign_ttl\<rparr>\<rparr> in
              case object_config_validate ipl (cf_object_store config) of
                Some err \<Rightarrow> (config, Some (Wrap ''object store'' err))
              | None \<Rightarrow> (config, None))))))"

subsection \<open>What an accepted configuration is\<close>

text \<open>The typing of a configuration the service may be built from.\<close>

definition trimmed :: "string \<Rightarrow> bool" where
  "trimmed s \<longleftrightarrow> s \<noteq> [] \<and> trim_space s = s"

definition object_config_ok :: "object_config \<Rightarrow> bool" where
  "object_config_ok c \<longleftrightarrow>
     trimmed (oc_region c) \<and> trimmed (oc_bucket c) \<and> \<not> contains_any (oc_bucket c) ''/:@'' \<and>
     trimmed (oc_access_key c) \<and> trimmed (oc_secret_key c) \<and>
     0 < oc_presign_ttl c \<and> oc_presign_ttl c \<le> hour"

definition config_ok :: "config \<Rightarrow> bool" where
  "config_ok c \<longleftrightarrow>
     list_all trimmed [cf_database_url c, cf_api_addr c, cf_oidc_issuer c, cf_oidc_audience c, cf_oidc_jwks_url c,
       cf_principal_id c, cf_principal_role c] \<and>
     1 \<le> cf_list_default_limit c \<and> cf_list_default_limit c \<le> cf_list_max_limit c \<and> cf_list_max_limit c \<le> 1000 \<and>
     object_config_ok (cf_object_store c)"

lemma object_config_validate_None:
  assumes "object_config_validate ipl c = None"
  shows "trim_space (oc_region c) \<noteq> []" "trim_space (oc_bucket c) \<noteq> []" "\<not> contains_any (oc_bucket c) ''/:@''"
    "trim_space (oc_access_key c) \<noteq> []" "trim_space (oc_secret_key c) \<noteq> []"
    "0 < oc_presign_ttl c \<and> oc_presign_ttl c \<le> hour"
  using assms by (auto simp: object_config_validate_def Let_def split: if_splits option.splits)

lemma from_env_accepts:
  assumes "from_env ipl env = (config, None)"
  obtains default_limit max_limit presign_ttl where
    "atoi (default_env env ''EVIDENCE_LIST_DEFAULT_LIMIT'' ''50'') = Some default_limit"
    "atoi (default_env env ''EVIDENCE_LIST_MAX_LIMIT'' ''200'') = Some max_limit"
    "parse_duration (default_env env ''EVIDENCE_S3_PRESIGN_TTL'' ''15m'') = Some presign_ttl"
    "config = (env_config env)\<lparr>cf_list_default_limit := default_limit, cf_list_max_limit := max_limit,
       cf_object_store := (cf_object_store (env_config env))\<lparr>oc_presign_ttl := presign_ttl\<rparr>\<rparr>"
    "1 \<le> default_limit" "default_limit \<le> max_limit" "max_limit \<le> 1000"
    "object_config_validate ipl (cf_object_store config) = None"
    "[] \<notin> set [cf_database_url config, cf_api_addr config, cf_oidc_issuer config, cf_oidc_audience config,
       cf_oidc_jwks_url config, cf_principal_id config, cf_principal_role config]"
  using assms that unfolding from_env_def Let_def
  by (auto split: if_splits option.splits)

text \<open>The configuration has the values of the environment, and only trimmed ones.\<close>

lemma from_env_ok:
  assumes "from_env ipl env = (config, None)"
  shows "config_ok config"
  using assms
proof (cases rule: from_env_accepts)
  case (1 default_limit max_limit presign_ttl)
  have "object_config_ok (cf_object_store config)"
    using object_config_validate_None [OF 1(8)] by (auto simp: object_config_ok_def trimmed_def 1(4) env_config_def)
  moreover have "list_all trimmed [cf_database_url config, cf_api_addr config, cf_oidc_issuer config,
      cf_oidc_audience config, cf_oidc_jwks_url config, cf_principal_id config, cf_principal_role config]"
    using 1(9) by (auto simp: trimmed_def 1(4) env_config_def)
  ultimately show ?thesis using 1 by (simp add: config_ok_def)
qed

lemma accepted_client:
  assumes "from_env ipl env = (c, None)"
  shows "\<exists>cl. new_client ipl (cf_object_store c) = Inr cl \<and> cl_config cl = cf_object_store c"
  using assms by (cases rule: from_env_accepts) (simp add: new_client_def Let_def)

text \<open>
  (C16) A configuration that \<open>FromEnv\<close> returns without an error is well typed: every required text is
  there and trimmed, the page limits satisfy 1 <= default <= max <= 1000, the object store has a bare
  bucket name and a TTL of at most an hour. Apart from the limits and the TTL it is what the environment
  says, and the object client accepts it.
\<close>

theorem config_well_typed:
  assumes "from_env ipl env = (config, None)"
  shows "config_ok config \<and> (\<exists>c. new_client ipl (cf_object_store config) = Inr c \<and> cl_config c = cf_object_store config) \<and>
    config\<lparr>cf_list_default_limit := 0, cf_list_max_limit := 0,
      cf_object_store := (cf_object_store config)\<lparr>oc_presign_ttl := 0\<rparr>\<rparr> = env_config env"
  using assms
proof (cases rule: from_env_accepts)
  case (1 default_limit max_limit presign_ttl)
  then show ?thesis
    using from_env_ok [OF assms] accepted_client [OF assms] by (simp add: env_config_def)
qed

end
