(* ===== verification/Service_Startup.thy ===== *)
theory Service_Startup
  imports Service_Config Api_Properties Auth_Oidc Event_Delivery
begin

text \<open>
  The three processes from their start: \<open>cmd/evidence-api\<close>, \<open>cmd/evidence-outbox-publisher\<close> and
  \<open>cmd/evidence-migrate\<close>. What a process finds on its machine and in the network is a \<open>host\<close>; a value
  of type \<^theory_text>\<open>string option\<close> is the error of a call, if it fails.
\<close>

subsection \<open>The host\<close>

text \<open>
  Environment variables, bracketed IP literals in URLs, files, the PEM parser, \<open>filepath.Abs\<close>; the
  parser of connection strings, the connection and its ping; the Kafka client and its ping; and
  \<open>ListenAndServe\<close> on an address (no error: the server was shut down).
\<close>

record host =
  ho_env :: environment
  ho_ip_literal :: "string \<Rightarrow> string option"
  ho_read_file :: "string \<Rightarrow> string result"
  ho_has_certs :: "string \<Rightarrow> bool"
  ho_abs :: "string \<Rightarrow> string result"
  ho_parse_dsn :: "string \<Rightarrow> string option"
  ho_connect :: "string \<Rightarrow> string option"
  ho_ping :: "string option"
  ho_kafka_client :: "string list \<Rightarrow> string option"
  ho_kafka_ping :: "string option"
  ho_serve :: "string \<Rightarrow> string option"

text \<open>Go on if the call succeeds, otherwise stop with its error wrapped.\<close>

definition attempt :: "string \<Rightarrow> string option \<Rightarrow> 'a result \<Rightarrow> 'a result" where
  "attempt context fault rest = (case fault of Some m \<Rightarrow> Inl (Wrap context (External m)) | None \<Rightarrow> rest)"

lemma attempt_Inr [simp]: "attempt c fault rest = Inr v \<longleftrightarrow> fault = None \<and> rest = Inr v"
  by (auto simp: attempt_def split: option.splits)

subsection \<open>\<open>cmd/evidence-api\<close>\<close>

definition parse_url :: "(string \<Rightarrow> string option) \<Rightarrow> string \<Rightarrow> url result" where
  "parse_url ipl value =
     (case url_parse ipl value of
        None \<Rightarrow> Inl (Error ''must be an absolute http(s) URL'')
      | Some parsed \<Rightarrow>
          if u_scheme parsed \<noteq> ''https'' \<and> u_scheme parsed \<noteq> ''http'' \<or> u_host parsed = []
          then Inl (Error ''must be an absolute http(s) URL'')
          else Inr parsed)"

text \<open>
  \<open>ConfigurePool\<close> gives the pool a hook that every new connection runs on its settings before it is used
  (the first argument is the hook's own failure).
\<close>

type_synonym after_connect = "string option \<Rightarrow> (string \<Rightarrow> string) \<Rightarrow> (string \<Rightarrow> string) result"

text \<open>No connection of the pool is used unless it has asserted the service context of the outbox policy.\<close>

definition asserts_service :: "after_connect \<Rightarrow> bool" where
  "asserts_service hook \<longleftrightarrow>
     (\<forall>fault settings s. hook fault settings = Inr s \<longrightarrow> s ''app.evidence_service'' = ''on'')"

lemma configure_pool_asserts: "asserts_service configure_pool"
  by (auto simp: asserts_service_def configure_pool_def split: option.splits)

text \<open>The \<open>http.Server\<close>, its timeouts in nanoseconds; its handler is the server behind the authenticator.\<close>

record service =
  sc_addr :: string
  sc_after_connect :: after_connect
  sc_store :: store
  sc_server :: "world server"
  sc_authenticator :: oidc
  sc_read_header_timeout :: int
  sc_read_timeout :: int
  sc_write_timeout :: int
  sc_idle_timeout :: int

definition api_start :: "libs \<Rightarrow> driver \<Rightarrow> s3_sdk \<Rightarrow> host \<Rightarrow> service result" where
  "api_start L d sdk h =
     (case from_env (ho_ip_literal h) (ho_env h) of
        (_, Some err) \<Rightarrow> Inl err
      | (service_config, None) \<Rightarrow>
      case signer_from_env L (ho_env h) of
        Inl err \<Rightarrow> Inl (Wrap ''envelope signing key'' err)
      | Inr signer \<Rightarrow>
      attempt ''parse DATABASE_URL'' (ho_parse_dsn h (cf_database_url service_config))
      (attempt ''connect to PostgreSQL'' (ho_connect h (cf_database_url service_config))
      (attempt ''ping PostgreSQL'' (ho_ping h)
      (case with_events new_store (Some signer) (cf_principal_id service_config) (cf_principal_role service_config) of
        Inl err \<Rightarrow> Inl err
      | Inr store \<Rightarrow>
      case new_client (ho_ip_literal h) (cf_object_store service_config) of
        Inl err \<Rightarrow> Inl (Wrap ''object store'' err)
      | Inr objects \<Rightarrow>
      case new_server (Some (evidence_store L d store)) (Some (client_store sdk objects))
             (oc_bucket (cf_object_store service_config))
             \<lparr>ll_default = cf_list_default_limit service_config, ll_max = cf_list_max_limit service_config\<rparr> of
        Inl err \<Rightarrow> Inl err
      | Inr server \<Rightarrow>
      case parse_url (ho_ip_literal h) (cf_oidc_jwks_url service_config) of
        Inl err \<Rightarrow> Inl (Wrap ''EVIDENCE_OIDC_JWKS_URL'' err)
      | Inr jwks_url \<Rightarrow>
      case new_oidc (ho_read_file h) (ho_has_certs h) (cf_oidc_issuer service_config)
             (cf_oidc_audience service_config) (Some jwks_url) (cf_oidc_ca_file service_config) of
        Inl err \<Rightarrow> Inl err
      | Inr oidc_auth \<Rightarrow>
          Inr \<lparr>sc_addr = cf_api_addr service_config, sc_after_connect = configure_pool, sc_store = store, sc_server = server,
               sc_authenticator = oidc_auth, sc_read_header_timeout = 5 * nano,
               sc_read_timeout = 15 * nano, sc_write_timeout = 30 * nano, sc_idle_timeout = 60 * nano\<rparr>))))"

text \<open>\<open>run\<close>: the error \<open>main\<close> exits with, or nil after a shutdown.\<close>

definition api_run :: "libs \<Rightarrow> driver \<Rightarrow> s3_sdk \<Rightarrow> host \<Rightarrow> go_error option" where
  "api_run L d sdk h =
     (case api_start L d sdk h of
        Inl err \<Rightarrow> Some err
      | Inr sc \<Rightarrow> map_option (\<lambda>m. Wrap ''serve'' (External m)) (ho_serve h (sc_addr sc)))"

definition service_handler ::
  "host \<Rightarrow> service \<Rightarrow> rsa_libs \<Rightarrow> oidc_env \<Rightarrow> http_request \<Rightarrow> oidc \<times> world \<Rightarrow> http_response \<times> oidc \<times> world" where
  "service_handler h sc R env = server_handler (ho_ip_literal h) (sc_server sc) (oidc_authenticate R env)"

subsection \<open>\<open>cmd/evidence-outbox-publisher\<close>\<close>

text \<open>\<open>requiredEnv\<close> ends the process by itself, with the status every other error ends it with.\<close>

definition required_env :: "environment \<Rightarrow> string \<Rightarrow> string result" where
  "required_env env name =
     (let value = env name in if value = [] then Inl (Error (name @ '' must be set'')) else Inr value)"

text \<open>The publisher's own \<open>defaultEnv\<close> does not trim.\<close>

definition publisher_default_env :: "environment \<Rightarrow> string \<Rightarrow> string \<Rightarrow> string" where
  "publisher_default_env env name fallback = (let v = env name in if v \<noteq> [] then v else fallback)"

record publisher =
  pu_after_connect :: after_connect
  pu_brokers :: "string list"
  pu_batch_size :: int
  pu_poll_interval :: int
  pu_signer :: signer

definition publisher_start :: "libs \<Rightarrow> host \<Rightarrow> publisher result" where
  "publisher_start L h =
     (case required_env (ho_env h) ''DATABASE_URL'' of Inl err \<Rightarrow> Inl err | Inr database_url \<Rightarrow>
      case required_env (ho_env h) ''KAFKA_BROKERS'' of Inl err \<Rightarrow> Inl err | Inr kafka_brokers \<Rightarrow>
      (let brokers = split_on CHR '','' kafka_brokers in
       if list_ex (\<lambda>broker. trim_space broker = []) brokers
       then Inl (Error ''KAFKA_BROKERS contains an empty entry'')
       else
       (let batch_size = atoi (publisher_default_env (ho_env h) ''OUTBOX_BATCH_SIZE'' ''100'') in
        if batch_size = None \<or> the batch_size < 1 \<or> 1000 < the batch_size
        then Inl (Error ''OUTBOX_BATCH_SIZE must be between 1 and 1000'')
        else
        (let poll_interval = parse_duration (publisher_default_env (ho_env h) ''OUTBOX_POLL_INTERVAL'' ''2s'') in
         if poll_interval = None \<or> the poll_interval \<le> 0
         then Inl (Error ''OUTBOX_POLL_INTERVAL must be a positive duration'')
         else
         case signer_from_env L (ho_env h) of
           Inl err \<Rightarrow> Inl (Wrap ''envelope signing key'' err)
         | Inr signer \<Rightarrow>
             attempt ''parse DATABASE_URL'' (ho_parse_dsn h database_url)
             (attempt ''open postgres'' (ho_connect h database_url)
             (attempt ''ping postgres'' (ho_ping h)
             (attempt ''build kafka producer'' (ho_kafka_client h brokers)
             (attempt ''ping kafka'' (ho_kafka_ping h)
             (Inr \<lparr>pu_after_connect = configure_pool, pu_brokers = brokers, pu_batch_size = the batch_size,
                   pu_poll_interval = the poll_interval, pu_signer = signer\<rparr>)))))))))"

definition publisher_run ::
  "libs \<Rightarrow> host \<Rightarrow> (publish_env \<times> bool) list \<Rightarrow> database \<Rightarrow> kafka_record list
     \<Rightarrow> go_error option option \<times> database \<times> kafka_record list" where
  "publisher_run L h xs db log =
     (case publisher_start L h of
        Inl err \<Rightarrow> (Some (Some err), db, log)
      | Inr pu \<Rightarrow> publish_loop L (signer_public_key (pu_signer pu)) (nat (pu_batch_size pu)) xs db log)"

text \<open>
  \<open>cmd/evidence-migrate\<close>, given the value of its flag: the database is touched by the last step only,
  \<open>pool.Exec\<close> of the file's content, which is a parameter as PostgreSQL is.
\<close>

definition migrate_run ::
  "host \<Rightarrow> string \<Rightarrow> (string \<Rightarrow> 'db \<Rightarrow> string option \<times> 'db) \<Rightarrow> 'db \<Rightarrow> go_error option \<times> 'db" where
  "migrate_run h migration_path exec db =
     (if migration_path = [] then (Some (Error ''--migration is required''), db)
      else if ho_env h ''EVIDENCE_MIGRATION_APPROVED'' \<noteq> ''true''
      then (Some (Error ''set EVIDENCE_MIGRATION_APPROVED=true after an approved change record; migrations never run by default''), db)
      else
      (let database_url = ho_env h ''DATABASE_URL'' in
       if database_url = []
       then (Some (Error ''DATABASE_URL must be injected by the approved secret-management path''), db)
       else case ho_abs h migration_path of
         Inl err \<Rightarrow> (Some (Wrap ''resolve migration path'' err), db)
       | Inr absolute_path \<Rightarrow>
       case ho_read_file h absolute_path of
         Inl err \<Rightarrow> (Some (Wrap ''read migration'' err), db)
       | Inr migration \<Rightarrow>
       if migration = [] then (Some (Error ''migration file is empty''), db)
       else case ho_connect h database_url of
         Some m \<Rightarrow> (Some (Wrap ''connect to PostgreSQL'' (External m)), db)
       | None \<Rightarrow>
       case ho_ping h of
         Some m \<Rightarrow> (Some (Wrap ''ping PostgreSQL'' (External m)), db)
       | None \<Rightarrow>
       case exec migration db of
         (Some m, db') \<Rightarrow> (Some (Wrap ''apply migration'' (External m)), db')
       | (None, db') \<Rightarrow> (None, db')))"

text \<open>The schema changes only with an approval, and only by the content of the file that was named.\<close>

lemma migrate_gate:
  assumes "migrate_run h path exec db = (res, db')" and "db' \<noteq> db \<or> res = None"
  obtains absolute_path migration fault where "ho_env h ''EVIDENCE_MIGRATION_APPROVED'' = ''true''"
    "path \<noteq> []" "ho_abs h path = Inr absolute_path" "ho_read_file h absolute_path = Inr migration" "migration \<noteq> []"
    "exec migration db = (fault, db')" "res = None \<longleftrightarrow> fault = None"
  using assms that by (auto simp: migrate_run_def Let_def split: if_splits sum.splits option.splits prod.splits)

subsection \<open>A started API\<close>

text \<open>A CA file that is not named, or that can be read and holds a certificate.\<close>

definition ca_usable :: "host \<Rightarrow> string \<Rightarrow> bool" where
  "ca_usable h ca_file \<longleftrightarrow>
     (if ca_file = [] then True
      else case ho_read_file h ca_file of Inl _ \<Rightarrow> False | Inr pem \<Rightarrow> ho_has_certs h pem)"

text \<open>The gates outside the constructors: each is a fact about the environment, the machine or the network.\<close>

definition startable :: "libs \<Rightarrow> host \<Rightarrow> bool" where
  "startable L h \<longleftrightarrow>
     (case from_env (ho_ip_literal h) (ho_env h) of (c, err) \<Rightarrow>
        err = None \<and> \<not> isl (signer_from_env L (ho_env h)) \<and>
        ho_parse_dsn h (cf_database_url c) = None \<and> ho_connect h (cf_database_url c) = None \<and> ho_ping h = None \<and>
        \<not> isl (parse_url (ho_ip_literal h) (cf_oidc_jwks_url c)) \<and> ca_usable h (cf_oidc_ca_file c))"

lemma new_oidc_Inr:
  assumes "issuer \<noteq> []" and "audience \<noteq> []"
  shows "\<not> isl (new_oidc (ho_read_file h) (ho_has_certs h) issuer audience (Some u) ca_file) \<longleftrightarrow> ca_usable h ca_file"
  using assms by (auto simp: new_oidc_def ca_usable_def Let_def split: sum.splits)

lemma new_oidc_fields:
  assumes "new_oidc rf hc issuer audience (Some u) ca_file = Inr a"
  shows "oi_issuer a = issuer \<and> oi_audience a = audience \<and> oi_jwks_url a = u \<and> oi_keys a = []"
  using assms by (auto simp: new_oidc_def Let_def split: if_splits sum.splits)

text \<open>What \<open>from_env\<close> accepts, the constructors accept.\<close>

lemma accepted_server:
  assumes "config_ok c"
  shows "new_server (Some st) (Some os) (oc_bucket (cf_object_store c))
      \<lparr>ll_default = cf_list_default_limit c, ll_max = cf_list_max_limit c\<rparr>
    = Inr \<lparr>sv_store = st, sv_objects = os, sv_bucket = oc_bucket (cf_object_store c),
        sv_limits = \<lparr>ll_default = cf_list_default_limit c, ll_max = cf_list_max_limit c\<rparr>\<rparr>"
  using assms by (simp add: new_server_def config_ok_def object_config_ok_def trimmed_def)

lemma accepted_store:
  assumes "config_ok c"
  shows "with_events new_store (Some s) (cf_principal_id c) (cf_principal_role c)
    = Inr \<lparr>st_signer = Some s, st_principal_id = cf_principal_id c, st_principal_role = cf_principal_role c\<rparr>"
  using assms by (simp add: with_events_def new_store_def config_ok_def trimmed_def)

definition started :: "libs \<Rightarrow> driver \<Rightarrow> s3_sdk \<Rightarrow> config \<Rightarrow> signer \<Rightarrow> client \<Rightarrow> oidc \<Rightarrow> service" where
  "started L d sdk c s cl a =
     (let st = \<lparr>st_signer = Some s, st_principal_id = cf_principal_id c, st_principal_role = cf_principal_role c\<rparr> in
      \<lparr>sc_addr = cf_api_addr c, sc_after_connect = configure_pool, sc_store = st,
       sc_server = \<lparr>sv_store = evidence_store L d st, sv_objects = client_store sdk cl,
         sv_bucket = oc_bucket (cf_object_store c),
         sv_limits = \<lparr>ll_default = cf_list_default_limit c, ll_max = cf_list_max_limit c\<rparr>\<rparr>,
       sc_authenticator = a, sc_read_header_timeout = 5 * nano, sc_read_timeout = 15 * nano,
       sc_write_timeout = 30 * nano, sc_idle_timeout = 60 * nano\<rparr>)"

lemma started_simps [simp]:
  "sc_store (started L d sdk c s cl a)
     = \<lparr>st_signer = Some s, st_principal_id = cf_principal_id c, st_principal_role = cf_principal_role c\<rparr>"
  "sv_store (sc_server (started L d sdk c s cl a)) = evidence_store L d (sc_store (started L d sdk c s cl a))"
  "sv_objects (sc_server (started L d sdk c s cl a)) = client_store sdk cl"
  "sv_bucket (sc_server (started L d sdk c s cl a)) = oc_bucket (cf_object_store c)"
  "sv_limits (sc_server (started L d sdk c s cl a))
     = \<lparr>ll_default = cf_list_default_limit c, ll_max = cf_list_max_limit c\<rparr>"
  "sc_authenticator (started L d sdk c s cl a) = a"
  "sc_after_connect (started L d sdk c s cl a) = configure_pool"
  by (simp_all add: started_def Let_def)

lemma api_start_accepted:
  assumes "from_env (ho_ip_literal h) (ho_env h) = (c, None)" and "signer_from_env L (ho_env h) = Inr s"
    and "ho_parse_dsn h (cf_database_url c) = None" "ho_connect h (cf_database_url c) = None" "ho_ping h = None"
    and "parse_url (ho_ip_literal h) (cf_oidc_jwks_url c) = Inr u"
    and "new_client (ho_ip_literal h) (cf_object_store c) = Inr cl"
  shows "api_start L d sdk h =
    (case new_oidc (ho_read_file h) (ho_has_certs h) (cf_oidc_issuer c) (cf_oidc_audience c) (Some u)
       (cf_oidc_ca_file c) of Inl err \<Rightarrow> Inl err | Inr a \<Rightarrow> Inr (started L d sdk c s cl a))"
  using assms from_env_ok [OF assms(1)]
  by (simp add: api_start_def attempt_def accepted_store accepted_server started_def Let_def split: sum.splits)

lemma api_start_Inr:
  assumes "api_start L d sdk h = Inr sc"
  obtains c s u cl a where "from_env (ho_ip_literal h) (ho_env h) = (c, None)" "config_ok c"
    "signer_from_env L (ho_env h) = Inr s" "parse_url (ho_ip_literal h) (cf_oidc_jwks_url c) = Inr u"
    "new_client (ho_ip_literal h) (cf_object_store c) = Inr cl" "cl_config cl = cf_object_store c"
    "new_oidc (ho_read_file h) (ho_has_certs h) (cf_oidc_issuer c) (cf_oidc_audience c) (Some u) (cf_oidc_ca_file c) = Inr a"
    "ho_parse_dsn h (cf_database_url c) = None" "ho_connect h (cf_database_url c) = None" "ho_ping h = None"
    "sc = started L d sdk c s cl a"
proof -
  obtain c where c: "from_env (ho_ip_literal h) (ho_env h) = (c, None)"
    using assms by (auto simp: api_start_def split: prod.splits option.splits)
  obtain s where s: "signer_from_env L (ho_env h) = Inr s"
    using assms c by (auto simp: api_start_def split: sum.splits)
  have gates: "ho_parse_dsn h (cf_database_url c) = None" "ho_connect h (cf_database_url c) = None" "ho_ping h = None"
    using assms by (simp_all add: api_start_def c s)
  obtain cl where cl: "new_client (ho_ip_literal h) (cf_object_store c) = Inr cl" "cl_config cl = cf_object_store c"
    using accepted_client [OF c] by blast
  obtain u where u: "parse_url (ho_ip_literal h) (cf_oidc_jwks_url c) = Inr u"
    using assms from_env_ok [OF c] by (auto simp: api_start_def c s cl accepted_store accepted_server split: sum.splits)
  note run = api_start_accepted [OF c s gates u cl(1), of d sdk]
  obtain a where a: "new_oidc (ho_read_file h) (ho_has_certs h) (cf_oidc_issuer c) (cf_oidc_audience c) (Some u)
      (cf_oidc_ca_file c) = Inr a" "sc = started L d sdk c s cl a"
    using assms run by (auto split: sum.splits)
  show ?thesis by (rule that [OF c from_env_ok [OF c] s u cl a(1) gates a(2)])
qed

lemma api_start_iff: "\<not> isl (api_start L d sdk h) \<longleftrightarrow> startable L h"
proof
  assume "\<not> isl (api_start L d sdk h)"
  then obtain sc where "api_start L d sdk h = Inr sc" by (auto simp: not_isl_conv)
  then show "startable L h"
  proof (cases rule: api_start_Inr)
    case (1 c s u cl a)
    have "ca_usable h (cf_oidc_ca_file c)"
      using new_oidc_Inr [of "cf_oidc_issuer c" "cf_oidc_audience c" h u "cf_oidc_ca_file c"] 1(2,7)
      by (simp add: config_ok_def trimmed_def)
    then show ?thesis using 1 by (simp add: startable_def)
  qed
next
  assume st: "startable L h"
  obtain c where c: "from_env (ho_ip_literal h) (ho_env h) = (c, None)"
    using st by (auto simp: startable_def split: prod.splits)
  then obtain s u where g: "signer_from_env L (ho_env h) = Inr s" "parse_url (ho_ip_literal h) (cf_oidc_jwks_url c) = Inr u"
    "ho_parse_dsn h (cf_database_url c) = None" "ho_connect h (cf_database_url c) = None" "ho_ping h = None"
    "ca_usable h (cf_oidc_ca_file c)"
    using st by (auto simp: startable_def not_isl_conv)
  obtain cl where cl: "new_client (ho_ip_literal h) (cf_object_store c) = Inr cl" using accepted_client [OF c] by blast
  have "\<not> isl (new_oidc (ho_read_file h) (ho_has_certs h) (cf_oidc_issuer c) (cf_oidc_audience c) (Some u) (cf_oidc_ca_file c))"
    using g(6) from_env_ok [OF c] by (simp add: new_oidc_Inr config_ok_def trimmed_def)
  then show "\<not> isl (api_start L d sdk h)"
    using api_start_accepted [OF c g(1,3,4,5,2) cl] by (auto simp: not_isl_conv)
qed

text \<open>The limits and the bucket of a started service, and the realm its authenticator trusts.\<close>

definition service_ok :: "libs \<Rightarrow> driver \<Rightarrow> s3_sdk \<Rightarrow> host \<Rightarrow> service \<Rightarrow> bool" where
  "service_ok L d sdk h sc \<longleftrightarrow>
     asserts_service (sc_after_connect sc) \<and>
     sv_store (sc_server sc) = evidence_store L d (sc_store sc) \<and>
     (\<exists>s. st_signer (sc_store sc) = Some s \<and> signer_from_env L (ho_env h) = Inr s) \<and>
     (\<forall>request. 1 \<le> parse_limit (sc_server sc) request \<and> parse_limit (sc_server sc) request \<le> 1000) \<and>
     (\<exists>cl. sv_objects (sc_server sc) = client_store sdk cl \<and> oc_bucket (cl_config cl) = sv_bucket (sc_server sc) \<and>
        object_config_ok (cl_config cl)) \<and>
     oi_issuer (sc_authenticator sc) = trim_space (ho_env h ''EVIDENCE_OIDC_ISSUER'') \<and>
     oi_audience (sc_authenticator sc) = trim_space (ho_env h ''EVIDENCE_OIDC_AUDIENCE'') \<and>
     oi_issuer (sc_authenticator sc) \<noteq> [] \<and> oi_audience (sc_authenticator sc) \<noteq> [] \<and>
     oi_keys (sc_authenticator sc) = []"

lemma api_start_ok:
  assumes "api_start L d sdk h = Inr sc"
  shows "service_ok L d sdk h sc"
  using assms
proof (cases rule: api_start_Inr)
  case (1 c s u cl a)
  have "new_server (Some (evidence_store L d (sc_store sc))) (Some (client_store sdk cl)) (oc_bucket (cf_object_store c))
      \<lparr>ll_default = cf_list_default_limit c, ll_max = cf_list_max_limit c\<rparr> = Inr (sc_server sc)"
    using accepted_server [OF 1(2)] by (simp add: 1(11) started_def Let_def)
  note bounds = parse_limit_bounds [OF this]
  have limits: "1 \<le> parse_limit (sc_server sc) request \<and> parse_limit (sc_server sc) request \<le> 1000" for request
    using bounds [of request] 1(2) by (auto simp: config_ok_def)
  have "cf_oidc_issuer c = trim_space (ho_env h ''EVIDENCE_OIDC_ISSUER'')"
      "cf_oidc_audience c = trim_space (ho_env h ''EVIDENCE_OIDC_AUDIENCE'')"
    using 1(1) by (cases rule: from_env_accepts; simp add: env_config_def)+
  then show ?thesis
    using limits new_oidc_fields [OF 1(7)] 1(2,3,6)
    by (auto simp: service_ok_def 1(11) config_ok_def trimmed_def configure_pool_asserts)
qed

text \<open>
  (C15) The API starts exactly when its environment is accepted, its signing key can be read, the database
  answers, the JWKS URL is an absolute HTTP URL and the CA file, if named, is usable: no constructor
  refuses what \<open>FromEnv\<close> has accepted. A started service uses only connections that have asserted the
  service context, signs its events, has pages of at most 1000, an
  object client for its own bucket, and an authenticator for the configured issuer without any key yet.
\<close>

theorem service_starts:
  "(\<not> isl (api_start L d sdk h) \<longleftrightarrow> startable L h) \<and>
   (\<forall>sc. api_start L d sdk h = Inr sc \<longrightarrow> service_ok L d sdk h sc)"
  using api_start_iff api_start_ok by blast

subsection \<open>A started publisher\<close>

lemma publisher_start_Inr:
  assumes "publisher_start L h = Inr pu"
  shows "signer_from_env L (ho_env h) = Inr (pu_signer pu)"
    and "1 \<le> pu_batch_size pu \<and> pu_batch_size pu \<le> 1000"
    and "0 < pu_poll_interval pu \<and> pu_poll_interval pu \<le> max_int64"
    and "pu_brokers pu \<noteq> [] \<and> list_all (\<lambda>broker. trim_space broker \<noteq> []) (pu_brokers pu)"
    and "asserts_service (pu_after_connect pu)"
    and "ho_ping h = None \<and> ho_kafka_client h (pu_brokers pu) = None \<and> ho_kafka_ping h = None"
  using assms
  by (auto simp: publisher_start_def Let_def list_ex_iff list_all_iff split_on_nonempty configure_pool_asserts dest: parse_duration_range
      split: sum.splits if_splits)

text \<open>A signer's key is the one in the environment; its epoch only names it.\<close>

lemma signer_from_env_Inr:
  assumes "signer_from_env L env = Inr s"
  obtains key where "parse_private_key L (env signing_key_env) = Inr key" "s_private_key s = key"
    "new_signer key (env signing_key_epoch_env) = Inr s"
  using assms that by (auto simp: signer_from_env_def new_signer_def Let_def split: if_splits sum.splits)

lemma deployed_keys:
  assumes "ed25519_laws L" and "api_start L d sdk h = Inr sc" and "publisher_start L h' = Inr pu"
    and "ho_env h' signing_key_env = ho_env h signing_key_env"
    and "parse_private_key L (ho_env h signing_key_env) = Inr (l_new_key L seed)" and "length seed = 32"
    and "utf8 (st_principal_id (sc_store sc))" and "utf8 (st_principal_role (sc_store sc))"
  shows "signing_keys L (sc_store sc) (signer_public_key (pu_signer pu))"
proof -
  obtain s where s: "st_signer (sc_store sc) = Some s" "signer_from_env L (ho_env h) = Inr s"
    using api_start_ok [OF assms(2)] by (auto simp: service_ok_def)
  from s(2) have k: "s_private_key s = l_new_key L seed \<and> new_signer (l_new_key L seed) (ho_env h signing_key_epoch_env) = Inr s"
    using assms(5) by (auto elim: signer_from_env_Inr)
  have "s_private_key (pu_signer pu) = l_new_key L seed"
    using publisher_start_Inr(1) [OF assms(3)] assms(4,5) by (auto elim: signer_from_env_Inr)
  then show ?thesis using assms(1,6-8) s(1) k by (auto simp: signing_keys_def signer_public_key_def)
qed

text \<open>
  (C2) The two processes together, from their start: an API and a publisher that have started with the
  same signing key (their key epochs may differ) deliver every event. After any run of requests and
  batches, a publisher run whose batches meet no fault ends without an error and leaves every event of the
  outbox published, with a verified record of it in the log.
\<close>

theorem deployment_delivers:
  assumes "driver_laws d" and "jsonb_laws d" and "ed25519_laws L"
    and "api_start L d sdk h = Inr sc" and "publisher_start L h' = Inr pu"
    and "ho_env h' signing_key_env = ho_env h signing_key_env"
    and "parse_private_key L (ho_env h signing_key_env) = Inr (l_new_key L seed)" and "length seed = 32"
    and "utf8 (st_principal_id (sc_store sc))" and "utf8 (st_principal_role (sc_store sc))"
    and "(delivery_step L d (sc_store sc) (signer_public_key (pu_signer pu)))\<^sup>*\<^sup>* (empty_database, []) (db, log)"
    and "\<forall>(x, stopped) \<in> set xs. quiet_batch x \<and> publish_laws x"
    and "int (length (unpublished db)) \<le> pu_batch_size pu * int (length xs)"
    and "publisher_run L h' xs db log = (res, db', log')"
  shows "res \<in> {None, Some None} \<and> map o_event_id (evidence_outbox db') = map o_event_id (evidence_outbox db) \<and>
    (\<forall>r \<in> set (evidence_outbox db'). o_published_at r \<noteq> None \<and>
       (\<exists>k \<in> set log'. carries k r \<and> verified L (signer_public_key (pu_signer pu)) k))"
proof -
  have size: "1 \<le> pu_batch_size pu" using publisher_start_Inr(2) [OF assms(5)] by simp
  have "length (unpublished db) \<le> nat (pu_batch_size pu) * length xs"
    using assms(13) size by (metis nat_int nat_mono nat_mult_distrib zero_le_one order_trans)
  moreover have "publish_loop L (signer_public_key (pu_signer pu)) (nat (pu_batch_size pu)) xs db log = (res, db', log')"
    using assms(14) by (simp add: publisher_run_def assms(5))
  ultimately show ?thesis
    using size by (intro events_delivered [OF assms(1,2) deployed_keys [OF assms(3-10)] assms(11) _ assms(12)]) simp_all
qed

end
