(* ===== verification/Service_Samples.thy ===== *)
theory Service_Samples
  imports Service_Startup Publisher_Samples Api_Samples
begin

text \<open>
  A host on which the API and the publisher start, with the key of the sample signer, and the witnesses
  of the start-up theorems on it.
\<close>

definition sample_vars :: "(string \<times> string) list" where
  "sample_vars = [(''DATABASE_URL'', ''postgres://db/evidence''), (''EVIDENCE_API_ADDR'', '' :8080 ''),
     (''EVIDENCE_OIDC_ISSUER'', ''realm''), (''EVIDENCE_OIDC_AUDIENCE'', ''evidence''),
     (''EVIDENCE_OIDC_JWKS_URL'', ''https://idp/certs''), (''EVIDENCE_PRODUCER_PRINCIPAL_ID'', ''svc''),
     (''EVIDENCE_PRODUCER_PRINCIPAL_ROLE'', ''service''), (''EVIDENCE_S3_REGION'', ''eu''),
     (''EVIDENCE_S3_BUCKET'', ''bucket''), (''EVIDENCE_S3_ACCESS_KEY'', ''ak''), (''EVIDENCE_S3_SECRET_KEY'', ''sk''),
     (''EVIDENCE_S3_PATH_STYLE'', ''TRUE ''), (''KAFKA_BROKERS'', ''k1:9092,k2:9092''), (''OUTBOX_BATCH_SIZE'', ''10''),
     (signing_key_env, hex_encode sample_seed), (signing_key_epoch_env, '' 1'')]"

definition sample_host :: host where
  "sample_host =
     \<lparr>ho_env = (\<lambda>name. case map_of sample_vars name of None \<Rightarrow> [] | Some v \<Rightarrow> v), ho_ip_literal = (\<lambda>_. None),
      ho_read_file = (\<lambda>f. Inl (External ''no file'')), ho_has_certs = (\<lambda>_. False), ho_abs = Inr,
      ho_parse_dsn = (\<lambda>_. None), ho_connect = (\<lambda>_. None), ho_ping = None, ho_kafka_client = (\<lambda>_. None),
      ho_kafka_ping = None, ho_serve = (\<lambda>_. None)\<rparr>"

lemma default_durations:
  "parse_duration ''15m'' = Some (900 * nano)" "parse_duration ''2s'' = Some (2 * nano)"
proof -
  have "decimal 15 = ''15''" "decimal 2 = ''2''" by code_simp+
  moreover have "unit_map ''m'' = Some 60000000000" "unit_map ''s'' = Some 1000000000"
    "list_all (\<lambda>c. \<not> number_byte c) ''m''" "list_all (\<lambda>c. \<not> number_byte c) ''s''" by code_simp+
  ultimately show "parse_duration ''15m'' = Some (900 * nano)" "parse_duration ''2s'' = Some (2 * nano)"
    using parse_duration_whole [of "''m''" 60000000000 15] parse_duration_whole [of "''s''" 1000000000 2]
    by (simp_all add: nano_def)
qed

definition sample_config :: config where
  "sample_config = (env_config (ho_env sample_host))\<lparr>cf_list_default_limit := 50, cf_list_max_limit := 200,
     cf_object_store := (cf_object_store (env_config (ho_env sample_host)))\<lparr>oc_presign_ttl := 900 * nano\<rparr>\<rparr>"

lemma sample_from_env: "from_env (\<lambda>_. None) (ho_env sample_host) = (sample_config, None)"
proof -
  have "default_env (ho_env sample_host) ''EVIDENCE_S3_PRESIGN_TTL'' ''15m'' = ''15m''"
    "atoi (default_env (ho_env sample_host) ''EVIDENCE_LIST_DEFAULT_LIMIT'' ''50'') = Some 50"
    "atoi (default_env (ho_env sample_host) ''EVIDENCE_LIST_MAX_LIMIT'' ''200'') = Some 200"
    "object_config_validate (\<lambda>_. None) (cf_object_store sample_config) = None"
    "list_all (\<lambda>v. v \<noteq> []) [cf_database_url (env_config (ho_env sample_host)), cf_api_addr (env_config (ho_env sample_host)),
       cf_oidc_issuer (env_config (ho_env sample_host)), cf_oidc_audience (env_config (ho_env sample_host)),
       cf_oidc_jwks_url (env_config (ho_env sample_host)), cf_principal_id (env_config (ho_env sample_host)),
       cf_principal_role (env_config (ho_env sample_host))]"
    by code_simp+
  then show ?thesis by (simp add: from_env_def default_durations sample_config_def Let_def)
qed

lemma config_well_typed_witness:
  "config_ok sample_config \<and> cf_api_addr sample_config = '':8080'' \<and> oc_path_style (cf_object_store sample_config)"
proof -
  have "cf_api_addr sample_config = '':8080''" "oc_path_style (cf_object_store sample_config)" by code_simp+
  then show ?thesis using config_well_typed [OF sample_from_env] by simp
qed

subsection \<open>The processes start\<close>

lemma sample_key_env: "parse_private_key sample_libs (ho_env sample_host signing_key_env) = Inr (l_new_key sample_libs sample_seed)"
  by code_simp

lemma sample_from_env_signer: "signer_from_env sample_libs (ho_env sample_host) = Inr sample_signer"
  by code_simp

definition sample_service :: service where
  "sample_service = (case api_start sample_libs jsonb_driver (sample_sdk (\<lambda>_. None)) sample_host of Inr sc \<Rightarrow> sc)"

lemma sample_api_start:
  "api_start sample_libs jsonb_driver (sample_sdk (\<lambda>_. None)) sample_host = Inr sample_service"
  "sc_store sample_service = sample_store"
proof -
  let ?run = "api_start sample_libs jsonb_driver (sample_sdk (\<lambda>_. None)) sample_host"
  have "\<not> isl (parse_url (\<lambda>_. None) (cf_oidc_jwks_url sample_config))" "cf_oidc_ca_file sample_config = []"
    by code_simp+
  then have "startable sample_libs sample_host"
    using sample_from_env sample_from_env_signer
    by (simp add: startable_def ca_usable_def) (simp add: sample_host_def)
  then obtain sc where sc: "?run = Inr sc"
    using api_start_iff [of sample_libs jsonb_driver "sample_sdk (\<lambda>_. None)" sample_host]
    by (auto simp: not_isl_conv)
  then show "?run = Inr sample_service" by (simp add: sample_service_def)
  have vars: "cf_principal_id sample_config = ''svc''" "cf_principal_role sample_config = ''service''" by code_simp+
  have ipl: "ho_ip_literal sample_host = (\<lambda>_. None)" by (simp add: sample_host_def)
  from sc have "sc_store sc = sample_store"
  proof (cases rule: api_start_Inr)
    case (1 c s u cl a)
    then show ?thesis using vars by (simp add: ipl sample_from_env sample_from_env_signer sample_store_def)
  qed
  then show "sc_store sample_service = sample_store" using sc by (simp add: sample_service_def)
qed

lemma service_starts_witness:
  "startable sample_libs sample_host \<and>
   service_ok sample_libs jsonb_driver (sample_sdk (\<lambda>_. None)) sample_host sample_service"
  using service_starts [of sample_libs jsonb_driver "sample_sdk (\<lambda>_. None)" sample_host] sample_api_start by simp

definition sample_publisher :: publisher where
  "sample_publisher = \<lparr>pu_after_connect = configure_pool, pu_brokers = [''k1:9092'', ''k2:9092''], pu_batch_size = 10, pu_poll_interval = 2 * nano,
     pu_signer = sample_signer\<rparr>"

lemma sample_publisher_start: "publisher_start sample_libs sample_host = Inr sample_publisher"
proof -
  have "required_env (ho_env sample_host) ''DATABASE_URL'' = Inr ''postgres://db/evidence''"
    "required_env (ho_env sample_host) ''KAFKA_BROKERS'' = Inr ''k1:9092,k2:9092''"
    "split_on CHR '','' ''k1:9092,k2:9092'' = [''k1:9092'', ''k2:9092'']"
    "\<not> list_ex (\<lambda>broker. trim_space broker = []) [''k1:9092'', ''k2:9092'']"
    "atoi (publisher_default_env (ho_env sample_host) ''OUTBOX_BATCH_SIZE'' ''100'') = Some 10"
    "publisher_default_env (ho_env sample_host) ''OUTBOX_POLL_INTERVAL'' ''2s'' = ''2s''" by code_simp+
  then show ?thesis
    by (simp add: publisher_start_def default_durations sample_from_env_signer nano_def sample_publisher_def Let_def)
      (simp add: sample_host_def)
qed

definition deployed_run :: "go_error option option \<times> database \<times> kafka_record list" where
  "deployed_run = publisher_run sample_libs sample_host [(sample_batch, False), (sample_batch, True)] signed_db []"

lemma deployment_delivers_witness:
  "list_all (\<lambda>r. o_published_at r \<noteq> None \<and>
      list_ex (\<lambda>k. carries k r \<and> verified sample_libs (signer_public_key sample_signer) k) (snd (snd deployed_run)))
     (evidence_outbox (fst (snd deployed_run))) \<and>
   map o_event_id (evidence_outbox (fst (snd deployed_run))) = map o_event_id (evidence_outbox signed_db)"
proof -
  obtain res db' log' where run: "deployed_run = (res, db', log')" by (metis prod.exhaust)
  have pk: "signer_public_key (pu_signer sample_publisher) = sample_key"
    by (simp add: sample_publisher_def sample_key_def)
  have "utf8 (st_principal_id (sc_store sample_service))" "utf8 (st_principal_role (sc_store sample_service))"
    unfolding sample_api_start(2) by code_simp+
  moreover have "(delivery_step sample_libs jsonb_driver (sc_store sample_service)
      (signer_public_key (pu_signer sample_publisher)))\<^sup>*\<^sup>* (empty_database, []) (signed_db, [])"
    using steps_signed by (simp add: sample_api_start(2) pk)
  moreover have "\<forall>(x, stopped) \<in> set [(sample_batch, False), (sample_batch, True)]. quiet_batch x \<and> publish_laws x"
    using sample_batch_laws by simp
  moreover have "int (length (unpublished signed_db)) \<le> pu_batch_size sample_publisher * int (length [(sample_batch, False), (sample_batch, True)])"
    using signed_unpublished(2) by (simp add: sample_publisher_def)
  moreover have "length sample_seed = 32" by (simp add: sample_seed_def)
  ultimately show ?thesis
    using deployment_delivers [OF jsonb_driver_laws sample_ed25519 sample_api_start(1) sample_publisher_start refl
        sample_key_env _ _ _ _ _ _ run [unfolded deployed_run_def]]
    by (simp add: run list_all_iff list_ex_iff pk sample_publisher_def)
qed

end
