(* ===== verification/Spec2Isabelle.thy ===== *)
theory Spec2Isabelle
  imports Evidence_Samples Auth_Samples Api_Samples Publisher_Samples Service_Samples
begin

text \<open>
  A model of the maritime evidence service and the theorems that make it correct.

  The program

  The service retains metadata of maritime evidence: a package has a SHA-256 digest and the location of
  an object, and one validation decision is taken about it. Three processes share one PostgreSQL
  database. The API (\<open>cmd/evidence-api\<close>) serves \<open>/v1/evidence\<close>: it authenticates a bearer token, checks
  the role of the route, the tenant and the clearance of the principal, and calls the store. The store
  (\<open>internal/evidence\<close>) writes the package, its history and a signed event into one transaction. The
  publisher (\<open>cmd/evidence-outbox-publisher\<close>) takes the events from the outbox table, verifies each
  against the signing key, and produces it to Kafka. The migration runner (\<open>cmd/evidence-migrate\<close>)
  executes one SQL file.

  The theories and the code

  Libraries of Go, as far as the code uses them: \<open>Go_Prelude\<close> (errors, results, shared lemmas),
  \<open>Go_Strings\<close>, \<open>Go_Runes\<close> (UTF-8, \<open>strconv.Atoi\<close>), \<open>Go_Encoding\<close> (hex, base64), \<open>Go_Url\<close>, \<open>Go_Time\<close>
  and \<open>Go_TimeFormat\<close> (RFC 3339), \<open>Go_Duration\<close>, \<open>Go_Json\<close>, \<open>Go_JsonDecode\<close> and \<open>Go_JsonCodec\<close>
  (\<open>encoding/json\<close>), \<open>Go_Http\<close> (requests, IP addresses and networks), \<open>Go_Mux\<close> (\<open>http.ServeMux\<close>).

  \<open>Evidence_Model\<close> is \<open>internal/evidence/model.go\<close>: requests, packages, \<open>Validate\<close>, decoding.
  \<open>Evidence_Schema\<close> is the schema the four files of \<open>db/migrations\<close> lead to: tables as lists of rows,
  constraints, unique indexes, the immutability trigger, row-level security, and each statement as a
  function from a database to an error or a database. \<open>Evidence_Store\<close> is \<open>internal/evidence/store.go\<close>:
  \<open>create\<close>, \<open>get\<close>, \<open>record_validation\<close>, \<open>list_packages\<close>, \<open>enqueue_outbox\<close>.
  \<open>Event_Signing\<close> and \<open>Event_Envelope\<close> are \<open>internal/events\<close>: the key, \<open>sign\<close>, \<open>verify\<close>, \<open>message\<close>.
  \<open>Auth_Principal\<close>, \<open>Auth_Proxy\<close> and \<open>Auth_Oidc\<close> are \<open>internal/auth/auth.go\<close>: roles and clearances, the
  middleware, the two authenticators, the JWKS cache. \<open>Object_Store\<close> is \<open>internal/objstore/objstore.go\<close>.
  \<open>Api_Server\<close> is \<open>internal/api/server.go\<close>: one definition per handler, the routes, the replies.
  \<open>Outbox_Publisher\<close> is \<open>publishBatch\<close> and the loop of the publisher. \<open>Service_Config\<close> is
  \<open>internal/config/config.go\<close>, and \<open>Service_Startup\<close> the \<open>run\<close> functions of the three commands.

  State, errors and failures

  A Go string is a list of bytes, an \<open>int\<close> an integer with its range written out, a time an instant in
  nanoseconds, an \<open>error\<close> a value of \<open>go_error\<close>, a fallible function a sum. The state is explicit: the
  database for the store, the key cache for the OIDC authenticator, a world (the database, the
  environments of the calls to come and what others do in between) for the API, the database and the
  Kafka log for the publisher. What the code does not decide is an argument: \<open>env\<close> and \<open>publish_env\<close>
  hold, for one call, which statement fails, the generated identifiers, the clock and the outcome of the
  commit, which may also take effect while its acknowledgement is lost. Transactions run one after
  another, in any order: the schema serialises them through its unique indexes and row locks.

  Specifications and theorems

  \<open>Evidence_Custody\<close> holds the abstract specification of the store, the chain of custody: packages are
  received, decided once, and their events marked published. A step carries a label with what it adds
  (\<open>Receive\<close>, \<open>Decide\<close>, \<open>Publish\<close>), its guard and its effect. \<open>create\<close>, \<open>record_validation\<close> and
  \<open>publish_batch\<close> each refine the one step their arguments name: success means an acknowledged commit and
  exactly that step, the event included; a failure means no step, or that step with its acknowledgement lost.
  Invariants (status and history agree, rows do not change but for one decision) follow by rule
  induction, over the steps and then over runs of the operations themselves (\<open>delivery_step\<close>).
  \<open>Evidence_Behaviour\<close> has the result of each operation on each branch, retries and paging.
  \<open>Api_Behaviour\<close> proves what the handlers do over any store that keeps the contract \<open>package_store\<close>;
  \<open>Api_Service\<close> shows that \<open>evidence_store\<close> keeps it; \<open>Api_Properties\<close> combines them with the
  authenticator: the roles writes need, reachability under any sequence of requests, the finality of a
  decision. \<open>Api_Isolation\<close> states isolation of tenants and clearances as noninterference: the whole service
  is run on two databases that a principal cannot tell apart, and answers alike.
  \<open>Auth_Oidc\<close> shows what an accepted token is and that only strong keys are ever trusted, \<open>Auth_Proxy\<close>
  that identity headers count from trusted networks only.
  \<open>Event_Signing\<close> shows that a signature binds every field of an envelope, and that what \<open>Sign\<close> makes
  verifies; \<open>Event_Delivery\<close> that this survives the JSONB column, so that the publisher accepts what the
  API signs. \<open>Publisher_Behaviour\<close> relates the log and the outbox: a row is marked only after its record
  is in the log, only verified records get there, a row that does not verify stops the process, and
  batches without faults drain the outbox. \<open>Service_Config\<close> and \<open>Service_Startup\<close> show that start-up
  fails closed, and put the API and the publisher together: what the one commits the other delivers.
  The theories named \<open>_Samples\<close> evaluate the model on concrete runs and hold the witnesses.

  The locales are the interfaces: \<open>byte_codec\<close> (hex and base64), \<open>authenticator\<close> (what the middleware
  needs of the OIDC and the proxy authenticator), \<open>package_store\<close> (what the API needs of the store). Each
  is interpreted on the definitions of the code.

  Laws of code outside the repository

  Named hypotheses state what is documented: \<open>driver_laws\<close> (canonical UUIDs), \<open>jsonb_laws\<close> (JSONB gives
  back an equal value), \<open>env_laws\<close> (generated identifiers are canonical), \<open>publish_laws\<close> (a query returns
  the rows of the table), \<open>ed25519_laws\<close> (what a key signs verifies), \<open>jcs_laws\<close> and \<open>jcs_total\<close>
  (canonicalisation separates values, and succeeds on the number-free objects with distinct keys and
  valid strings that Go's encoder writes; of other texts nothing is assumed). Every one of them has an instance among the samples.

  Bounds and fuel

  The JSON parser has fuel \<open>2 * length + 2\<close>; \<open>json_fuel_enough\<close> shows that more never changes a result.
  Its nesting bound of 10000 is Go's. Request bodies are cut at one mebibyte, as the code does.
  The publisher's loop is a function of the list of its batches; that it drains the outbox is proved
  from the number of batches. \<open>strconv.Atoi\<close> and durations have the range of \<open>int64\<close>, the sum of a
  duration wraps at \<open>2 ^ 64\<close>, and its fractions are rounded as \<open>float64\<close> does.

  Not modelled

  Ed25519, RSA, SHA-256, the RFC 8785 canonicaliser, the AWS SDK, the pgx driver, PostgreSQL's own
  conversions and the Kafka client are parameters. Bodies of the error pages the standard library writes
  (404, 405, redirects) are left out, only their status is kept. A decoded envelope keeps the instant
  of its time and not its offset: the store writes UTC. Bracketed IPv6 hosts in URLs go through a
  parameter. Sockets, timeouts, signals, the graceful shutdown and log output have no model; the
  timeouts are fields of the started service. Data-definition statements of the migrations that only
  rename, add columns or move data have no definition of their own: the schema is their result.
\<close>

end
